theory Spec2Isabelle
  imports Main "HOL-Library.Word"
begin

unbundle bit_operations_syntax

section \<open>Common data\<close>

text \<open>
  \<^verbatim>\<open>koi_uc\<close> and \<^verbatim>\<open>koiw_uc\<close> are \<^verbatim>\<open>unsigned char\<close>; \<^verbatim>\<open>koiw_sc\<close> is \<^verbatim>\<open>signed char\<close>, kept as
  the same eight bits and read with \<open>sint\<close> where the code compares it.  C computes in
  \<^verbatim>\<open>int\<close> and truncates on assignment to a byte; addition, subtraction, shifts to the
  left and the bitwise operations commute with that truncation, so they are written on
  the byte itself.
\<close>

type_synonym koi_uc = "8 word"
type_synonym koiw_uc = "8 word"
type_synonym koiw_sc = "8 word"

text \<open>
  A pixel: \<^verbatim>\<open>koi__qoi_pixel {r, g, b, a}\<close> in the reader and the union
  \<^verbatim>\<open>koiw__qoi_pixel {color[4]; v}\<close> in the writer, where \<^verbatim>\<open>color[0..3]\<close> are R, G, B, A
  and comparing \<^verbatim>\<open>v\<close> compares the four bytes.
\<close>

datatype qoi_pixel = Pixel (px_r: koi_uc) (px_g: koi_uc) (px_b: koi_uc) (px_a: koi_uc)

definition color :: "qoi_pixel \<Rightarrow> koiw_uc list" where
  "color px = [px_r px, px_g px, px_b px, px_a px]"

definition INT_MAX :: int where
  "INT_MAX = 2147483647"

text \<open>C's division of integers truncates towards zero.\<close>

definition c_div :: "int \<Rightarrow> int \<Rightarrow> int" where
  "c_div a b = sgn a * sgn b * (\<bar>a\<bar> div \<bar>b\<bar>)"

section \<open>The writer (koi\_image\_write.h)\<close>

subsection \<open>Output context\<close>

text \<open>
  \<^verbatim>\<open>koi__write_context\<close>.  The callback \<^verbatim>\<open>func\<close> with its \<^verbatim>\<open>context\<close> is a sink that
  appends what it is given: \<open>func_out\<close> is everything it has received, in order.
\<close>

record koi__write_context =
  func_out :: "koiw_uc list"
  buffer :: "koiw_uc list"
  buf_used :: nat

definition func :: "koi__write_context \<Rightarrow> koiw_uc list \<Rightarrow> koi__write_context" where
  "func s bytes = s\<lparr>func_out := func_out s @ bytes\<rparr>"

text \<open>\<^verbatim>\<open>koi__write_context s = { 0 }\<close>\<close>

definition koi__write_context_zero :: koi__write_context where
  "koi__write_context_zero = \<lparr>func_out = [], buffer = replicate 64 0, buf_used = 0\<rparr>"

definition KOIW_UCHAR :: "int \<Rightarrow> koiw_uc" where
  "KOIW_UCHAR x = word_of_int (x AND 0xff)"

definition koiw__put8 :: "koi__write_context \<Rightarrow> koiw_uc \<Rightarrow> koi__write_context" where
  "koiw__put8 s c = func s [c]"

definition koiw__put16le :: "koi__write_context \<Rightarrow> int \<Rightarrow> koi__write_context" where
  "koiw__put16le s x = func s [KOIW_UCHAR x, KOIW_UCHAR (drop_bit 8 x)]"

definition koiw__put16be :: "koi__write_context \<Rightarrow> int \<Rightarrow> koi__write_context" where
  "koiw__put16be s x = func s [KOIW_UCHAR (drop_bit 8 x), KOIW_UCHAR x]"

definition koiw__put32le :: "koi__write_context \<Rightarrow> 32 word \<Rightarrow> koi__write_context" where
  "koiw__put32le s x =
     func s [KOIW_UCHAR (uint x), KOIW_UCHAR (uint (drop_bit 8 x)),
             KOIW_UCHAR (uint (drop_bit 16 x)), KOIW_UCHAR (uint (drop_bit 24 x))]"

definition koiw__put32be :: "koi__write_context \<Rightarrow> 32 word \<Rightarrow> koi__write_context" where
  "koiw__put32be s x =
     func s [KOIW_UCHAR (uint (drop_bit 24 x)), KOIW_UCHAR (uint (drop_bit 16 x)),
             KOIW_UCHAR (uint (drop_bit 8 x)), KOIW_UCHAR (uint x)]"

text \<open>
  \<^verbatim>\<open>koiw__writefv\<close>: the format string is walked character by character, each of
  \<^verbatim>\<open>'1'\<close>, \<^verbatim>\<open>'2'\<close>, \<^verbatim>\<open>'4'\<close> taking the next \<^verbatim>\<open>int\<close> of the argument list \<open>v\<close>.  Every
  call in the source passes as many arguments as its format names; with fewer the walk
  stops, as it does at a character the format does not know.
\<close>

fun koiw__writefv :: "koi__write_context \<Rightarrow> bool \<Rightarrow> string \<Rightarrow> int list \<Rightarrow> koi__write_context" where
  "koiw__writefv s big_endian [] v = s"
| "koiw__writefv s big_endian (c # fmt) v =
     (if c = CHR '' '' then koiw__writefv s big_endian fmt v
      else if c = CHR ''1'' then
        (case v of [] \<Rightarrow> s
         | x # v' \<Rightarrow> koiw__writefv (koiw__put8 s (KOIW_UCHAR x)) big_endian fmt v')
      else if c = CHR ''2'' then
        (case v of [] \<Rightarrow> s
         | x # v' \<Rightarrow>
             koiw__writefv (if big_endian then koiw__put16be s x else koiw__put16le s x)
               big_endian fmt v')
      else if c = CHR ''4'' then
        (case v of [] \<Rightarrow> s
         | x # v' \<Rightarrow>
             koiw__writefv
               (if big_endian then koiw__put32be s (word_of_int x)
                else koiw__put32le s (word_of_int x))
               big_endian fmt v')
      else s)"

definition koiw__writef :: "koi__write_context \<Rightarrow> bool \<Rightarrow> string \<Rightarrow> int list \<Rightarrow> koi__write_context" where
  "koiw__writef s big_endian fmt v = koiw__writefv s big_endian fmt v"

definition koiw__write_flush :: "koi__write_context \<Rightarrow> koi__write_context" where
  "koiw__write_flush s =
     (if buf_used s \<noteq> 0 then (func s (take (buf_used s) (buffer s)))\<lparr>buf_used := 0\<rparr> else s)"

definition koiw__write1 :: "koi__write_context \<Rightarrow> koiw_uc \<Rightarrow> koi__write_context" where
  "koiw__write1 s a =
     (let s1 = (if buf_used s + 1 > 64 then koiw__write_flush s else s)
      in s1\<lparr>buffer := (buffer s1)[buf_used s1 := a], buf_used := buf_used s1 + 1\<rparr>)"

definition koiw__write3 :: "koi__write_context \<Rightarrow> koiw_uc \<Rightarrow> koiw_uc \<Rightarrow> koiw_uc \<Rightarrow> koi__write_context" where
  "koiw__write3 s a b c =
     (let s1 = (if buf_used s + 3 > 64 then koiw__write_flush s else s);
          n = buf_used s1
      in s1\<lparr>buf_used := n + 3, buffer := (buffer s1)[n := a, n + 1 := b, n + 2 := c]\<rparr>)"

text \<open>
  \<^verbatim>\<open>koiw__write_pixel\<close>; \<open>d\<close> is the array of the pixel's four bytes.  A \<^verbatim>\<open>comp\<close> the
  \<^verbatim>\<open>switch\<close> has no case for writes no colour bytes.  \<open>koiw__composite d k\<close> is
  \<^verbatim>\<open>px[k] = bg[k] + ((d[k] - bg[k]) * d[3]) / 255\<close>, the blend over \<^verbatim>\<open>bg = {255, 0, 255}\<close>
  that both \<^verbatim>\<open>koiw__write_pixel\<close> and \<^verbatim>\<open>koi_read_qoi_pixel\<close> compute.
\<close>

definition koiw__composite :: "koiw_uc list \<Rightarrow> nat \<Rightarrow> koiw_uc" where
  "koiw__composite d k =
     (let bg = [255, 0, 255 :: int]
      in word_of_int (bg ! k + c_div ((uint (d ! k) - bg ! k) * uint (d ! 3)) 255))"

definition koiw__write_pixel ::
  "koi__write_context \<Rightarrow> int \<Rightarrow> int \<Rightarrow> int \<Rightarrow> int \<Rightarrow> koiw_uc list \<Rightarrow> koi__write_context" where
  "koiw__write_pixel s rgb_dir ncomp write_alpha expand_mono d =
     (let s1 = (if write_alpha < 0 then koiw__write1 s (d ! nat (ncomp - 1)) else s);
          s2 = (if ncomp = 2 \<or> ncomp = 1 then
                  (if expand_mono \<noteq> 0 then koiw__write3 s1 (d ! 0) (d ! 0) (d ! 0)
                   else koiw__write1 s1 (d ! 0))
                else if ncomp = 4 \<and> write_alpha = 0 then
                  koiw__write3 s1 (koiw__composite d (nat (1 - rgb_dir))) (koiw__composite d 1)
                    (koiw__composite d (nat (1 + rgb_dir)))
                else if ncomp = 4 \<or> ncomp = 3 then
                  koiw__write3 s1 (d ! nat (1 - rgb_dir)) (d ! 1) (d ! nat (1 + rgb_dir))
                else s1)
      in if write_alpha > 0 then koiw__write1 s2 (d ! nat (ncomp - 1)) else s2)"

subsection \<open>QOI encoder\<close>

datatype koiw_error = Bad_dimmensions

text \<open>
  \<^verbatim>\<open>koi_read_qoi_pixel\<close>; \<open>d\<close> is the caller's data from the pixel's first byte on.
  \<open>None\<close> stands for what C leaves undefined: a byte read beyond the caller's data, or a
  \<^verbatim>\<open>comp\<close> outside 1..4, for which \<^verbatim>\<open>out.color[0..2]\<close> are never assigned.
\<close>

definition koi_read_qoi_pixel :: "int \<Rightarrow> bool \<Rightarrow> koiw_uc list \<Rightarrow> qoi_pixel option" where
  "koi_read_qoi_pixel ncomp has_alpha d =
     (if ncomp < 1 \<or> 4 < ncomp \<or> int (length d) < ncomp then None
      else
        (let alpha = (if has_alpha then d ! nat (ncomp - 1) else 255)
         in if ncomp = 2 \<or> ncomp = 1 then Some (Pixel (d ! 0) (d ! 0) (d ! 0) alpha)
            else if ncomp = 4 \<and> \<not> has_alpha then
              Some (Pixel (koiw__composite d 0) (koiw__composite d 1) (koiw__composite d 2) alpha)
            else Some (Pixel (d ! 0) (d ! 1) (d ! 2) alpha)))"

definition KOIW_QOI_COLOR_HASH :: "qoi_pixel \<Rightarrow> nat" where
  "KOIW_QOI_COLOR_HASH px =
     unat (px_r px) * 3 + unat (px_g px) * 5 + unat (px_b px) * 7 + unat (px_a px) * 11"

text \<open>
  The encoder's locals.  \<open>e_run_ops\<close> is a ghost field: the bytes passed to
  \<^verbatim>\<open>koiw__write1\<close> at the two places the source marks \<^verbatim>\<open>/*QOI_OP_RUN*/\<close>, in order.
\<close>

record koiw__qoi_state =
  e_ctx :: koi__write_context
  e_run :: koiw_uc
  e_prev_px :: qoi_pixel
  e_index :: "qoi_pixel list"
  e_run_ops :: "koiw_uc list"

definition koiw__qoi_op_run :: "koiw__qoi_state \<Rightarrow> koiw_uc \<Rightarrow> koiw__qoi_state" where
  "koiw__qoi_op_run st run =
     (let b = (0xc0 :: koiw_uc) OR (run - 1)
      in st\<lparr>e_ctx := koiw__write1 (e_ctx st) b, e_run := 0, e_run_ops := e_run_ops st @ [b]\<rparr>)"

text \<open>
  The colour part of the loop body, for a pixel that differs from the previous one and
  after a pending run has been written: INDEX, DIFF, LUMA, RGB or RGBA.
\<close>

definition koiw__qoi_op_color :: "qoi_pixel \<Rightarrow> qoi_pixel \<Rightarrow> koiw__qoi_state \<Rightarrow> koiw__qoi_state" where
  "koiw__qoi_op_color prev px st =
     (let index_pos = KOIW_QOI_COLOR_HASH px AND (64 - 1)
      in if e_index st ! index_pos = px then
           st\<lparr>e_ctx := koiw__write1 (e_ctx st) (KOIW_UCHAR (int index_pos))\<rparr>
         else
           (let st1 = st\<lparr>e_index := (e_index st)[index_pos := px]\<rparr>;
                s = e_ctx st1;
                dr = (px_r px - px_r prev :: koiw_sc);
                dg = (px_g px - px_g prev :: koiw_sc);
                db = (px_b px - px_b prev :: koiw_sc);
                dr_dg = (dr - dg :: koiw_sc);
                db_dg = (db - dg :: koiw_sc);
                (s1, header, ch) =
                  (if px_a px = px_a prev then
                     (if sint dr > -3 \<and> sint dr < 2 \<and> sint dg > -3 \<and> sint dg < 2 \<and>
                         sint db > -3 \<and> sint db < 2 then
                        (s, (0x40 :: koiw_uc) OR push_bit 4 (dr + 2) OR push_bit 2 (dg + 2) OR (db + 2),
                         0 :: int)
                      else if sint dr_dg > -9 \<and> sint dr_dg < 8 \<and> sint dg > -33 \<and> sint dg < 32 \<and>
                              sint db_dg > -9 \<and> sint db_dg < 8 then
                        (koiw__write1 s ((0x80 :: koiw_uc) OR (dg + 32)),
                         push_bit 4 (dr_dg + 8) OR (db_dg + 8), 0)
                      else (s, 0xfe, 3))
                   else (s, 0xff, 4))
            in st1\<lparr>e_ctx := koiw__write_pixel (koiw__write1 s1 header) 1 ch
                               (if ch = 4 then 1 else 0) 1 (color px)\<rparr>))"

text \<open>The loop body once \<^verbatim>\<open>px\<close> has been read; \<open>is_last\<close> is \<^verbatim>\<open>pxi == len - 1\<close>.\<close>

definition koiw__qoi_encode_px :: "bool \<Rightarrow> qoi_pixel \<Rightarrow> koiw__qoi_state \<Rightarrow> koiw__qoi_state" where
  "koiw__qoi_encode_px is_last px st =
     (let st1 =
        (if px = e_prev_px st then
           (let run = e_run st + 1
            in if run = 62 \<or> is_last then koiw__qoi_op_run st run else st\<lparr>e_run := run\<rparr>)
         else
           koiw__qoi_op_color (e_prev_px st) px
             (if e_run st > 0 then koiw__qoi_op_run st (e_run st) else st))
      in st1\<lparr>e_prev_px := px\<rparr>)"

text \<open>
  One iteration of \<^verbatim>\<open>for (pxi = 0; pxi < len; ++pxi)\<close>: the row and column of pixel
  \<open>pxi\<close>, its address in the caller's data, the read and the encoding.
\<close>

definition koiw__qoi_body ::
  "bool \<Rightarrow> int \<Rightarrow> int \<Rightarrow> int \<Rightarrow> koiw_uc list \<Rightarrow> nat \<Rightarrow> koiw__qoi_state \<Rightarrow> koiw__qoi_state option" where
  "koiw__qoi_body flip x y ncomp data pxi st =
     (let has_alpha = (ncomp = 2 \<or> ncomp = 4);
          jstart = (if flip then y - 1 else 0);
          jdir = (if flip then - 1 else 1 :: int);
          len = nat (x * y);
          j = jstart + (int pxi div x) * jdir;
          i = int pxi mod x;
          row = j * x * ncomp;
          begin_off = row + i * ncomp
      in if begin_off < 0 then None
         else
           (case koi_read_qoi_pixel ncomp has_alpha (drop (nat begin_off) data) of
              None \<Rightarrow> None
            | Some px \<Rightarrow> Some (koiw__qoi_encode_px (pxi = len - 1) px st)))"

text \<open>The state after the first \<open>n\<close> iterations of the loop.\<close>

fun koiw__qoi_loop ::
  "bool \<Rightarrow> int \<Rightarrow> int \<Rightarrow> int \<Rightarrow> koiw_uc list \<Rightarrow> koiw__qoi_state \<Rightarrow> nat \<Rightarrow> koiw__qoi_state option" where
  "koiw__qoi_loop flip x y ncomp data st0 0 = Some st0"
| "koiw__qoi_loop flip x y ncomp data st0 (Suc n) =
     (case koiw__qoi_loop flip x y ncomp data st0 n of
        None \<Rightarrow> None
      | Some st \<Rightarrow> koiw__qoi_body flip x y ncomp data n st)"

text \<open>The locals as the loop finds them, writing into the context \<open>s\<close>.\<close>

definition koiw__qoi_state_init :: "koi__write_context \<Rightarrow> koiw__qoi_state" where
  "koiw__qoi_state_init s =
     \<lparr>e_ctx = s, e_run = 0, e_prev_px = Pixel 0 0 0 255,
      e_index = replicate 64 (Pixel 0 0 0 0), e_run_ops = []\<rparr>"

text \<open>
  \<^verbatim>\<open>koi_write_qoi_core\<close>.  \<open>flip\<close> and \<open>cspace\<close> are the settings
  \<^verbatim>\<open>koi__vertically_flip_on_write\<close> and \<^verbatim>\<open>koi__qoi_color_space_on_write\<close>.  The sizes are
  C \<^verbatim>\<open>int\<close>s, modelled without wrap-around: where \<^verbatim>\<open>x * y\<close> or a byte offset
  \<^verbatim>\<open>j * x * comp\<close> leaves the range of \<^verbatim>\<open>int\<close> C leaves the result undefined, and the
  model answers \<open>None\<close>.
\<close>

definition koi_write_qoi_core ::
  "bool \<Rightarrow> int \<Rightarrow> koi__write_context \<Rightarrow> int \<Rightarrow> int \<Rightarrow> int \<Rightarrow> koiw_uc list
     \<Rightarrow> (koiw_error + koi__write_context) option" where
  "koi_write_qoi_core flip cspace s x y ncomp data =
     (let has_alpha = (ncomp = 2 \<or> ncomp = 4)
      in if y < 0 \<or> x < 0 then Some (Inl Bad_dimmensions)
         else if x * y > INT_MAX \<or> x * y * ncomp > INT_MAX then None
         else
           (let s1 = koiw__writef s True ''1111 44 11''
                       [of_char CHR ''q'', of_char CHR ''o'', of_char CHR ''i'', of_char CHR ''f'',
                        x, y, if has_alpha then 4 else 3, if cspace \<noteq> 0 then 1 else 0]
            in case koiw__qoi_loop flip x y ncomp data (koiw__qoi_state_init s1) (nat (x * y)) of
                 None \<Rightarrow> None
               | Some st \<Rightarrow>
                   Some (Inr (koiw__writef (koiw__write_flush (e_ctx st)) True ''11111111''
                                [0, 0, 0, 0, 0, 0, 0, 1]))))"

text \<open>
  \<^verbatim>\<open>koi_write_qoi_to_func\<close>: the result is what \<^verbatim>\<open>func\<close> has received when the call
  returns 1, and the failure when it returns 0.
\<close>

definition koi_write_qoi_to_func ::
  "bool \<Rightarrow> int \<Rightarrow> int \<Rightarrow> int \<Rightarrow> int \<Rightarrow> koiw_uc list \<Rightarrow> (koiw_error + koiw_uc list) option" where
  "koi_write_qoi_to_func flip cspace x y ncomp data =
     (case koi_write_qoi_core flip cspace koi__write_context_zero x y ncomp data of
        None \<Rightarrow> None
      | Some (Inl e) \<Rightarrow> Some (Inl e)
      | Some (Inr s) \<Rightarrow> Some (Inr (func_out s)))"

section \<open>The reader (koi\_image.h)\<close>

subsection \<open>Input context\<close>

datatype koi_error =
  Not_QOI | QOI_CHANNELS | QOI_COLORSPACE | Too_large | Outofmem | Unsupported
  | Unknown_image_type

definition KOI_MAX_DIMENSIONS :: int where
  "KOI_MAX_DIMENSIONS = push_bit 24 1"

text \<open>
  \<^verbatim>\<open>koi__context\<close>.  The four stream pointers always point into the same array, either
  the caller's memory or the context's own \<^verbatim>\<open>buffer_start\<close>; \<open>img_region\<close> names that
  array, \<open>caller_memory\<close> holds the bytes of the caller's, and a pointer is its offset
  from the array's start.  \<open>io_read\<close> is \<^verbatim>\<open>io.read\<close>, \<open>None\<close> for \<^verbatim>\<open>NULL\<close>: given
  the user data and a size it answers the bytes it stored at \<^verbatim>\<open>data\<close>, the \<^verbatim>\<open>int\<close> it
  returned, whatever that is, and the user data afterwards.  \<^verbatim>\<open>io.skip\<close> is never called.
\<close>

datatype koi_region = Caller_memory | Buffer_start

record 'u koi__context =
  img_x :: "32 word"
  img_y :: "32 word"
  img_n :: int
  img_out_n :: int
  io_read :: "('u \<Rightarrow> nat \<Rightarrow> koi_uc list \<times> int \<times> 'u) option"
  io_user_data :: 'u
  read_from_callbacks :: bool
  buflen :: nat
  buffer_start :: "koi_uc list"
  callback_already_read :: int
  caller_memory :: "koi_uc list"
  img_region :: koi_region
  img_buffer :: int
  img_buffer_end :: int
  img_buffer_original :: int
  img_buffer_original_end :: int

text \<open>
  A \<^verbatim>\<open>koi__context s;\<close> as the entry points declare it.  C leaves its fields
  unassigned; no function reads one before writing it, so zeros stand for them.
\<close>

definition koi__context_new :: "'u \<Rightarrow> 'u koi__context" where
  "koi__context_new u =
     \<lparr>img_x = 0, img_y = 0, img_n = 0, img_out_n = 0, io_read = None, io_user_data = u,
      read_from_callbacks = False, buflen = 0, buffer_start = replicate 128 0,
      callback_already_read = 0, caller_memory = [], img_region = Caller_memory,
      img_buffer = 0, img_buffer_end = 0, img_buffer_original = 0,
      img_buffer_original_end = 0\<rparr>"

text \<open>\<^verbatim>\<open>*p\<close> for a stream pointer \<open>p\<close>.\<close>

definition koi__deref :: "'u koi__context \<Rightarrow> int \<Rightarrow> koi_uc" where
  "koi__deref s p =
     (case img_region s of
        Caller_memory \<Rightarrow> caller_memory s ! nat p
      | Buffer_start \<Rightarrow> buffer_start s ! nat p)"

definition koi__start_mem :: "'u koi__context \<Rightarrow> koi_uc list \<Rightarrow> int \<Rightarrow> 'u koi__context" where
  "koi__start_mem s buf len =
     s\<lparr>io_read := None, read_from_callbacks := False, callback_already_read := 0,
       caller_memory := buf, img_region := Caller_memory,
       img_buffer := 0, img_buffer_original := 0,
       img_buffer_end := len, img_buffer_original_end := len\<rparr>"

text \<open>
  \<^verbatim>\<open>koi__refill_buffer\<close>.  It is only reached with \<^verbatim>\<open>read_from_callbacks\<close> set, which
  only \<^verbatim>\<open>koi__start_callbacks\<close> does, after storing the callbacks; without a callback the
  model leaves the context as it is.  The \<^verbatim>\<open>int n\<close> the callback returns is used as it
  comes, with no test of its sign or of its size.
\<close>

definition koi__refill_buffer :: "'u koi__context \<Rightarrow> 'u koi__context" where
  "koi__refill_buffer s =
     (case io_read s of
        None \<Rightarrow> s
      | Some rd \<Rightarrow>
          (let (bytes, n, u) = rd (io_user_data s) (buflen s);
               s1 = s\<lparr>io_user_data := u,
                      buffer_start := bytes @ drop (length bytes) (buffer_start s),
                      callback_already_read :=
                        callback_already_read s + (img_buffer s - img_buffer_original s)\<rparr>
           in if n = 0 then
                s1\<lparr>read_from_callbacks := False, img_region := Buffer_start, img_buffer := 0,
                   img_buffer_end := 1, buffer_start := (buffer_start s1)[0 := 0]\<rparr>
              else s1\<lparr>img_region := Buffer_start, img_buffer := 0, img_buffer_end := n\<rparr>))"

definition koi__start_callbacks ::
  "'u koi__context \<Rightarrow> ('u \<Rightarrow> nat \<Rightarrow> koi_uc list \<times> int \<times> 'u) \<Rightarrow> 'u \<Rightarrow> 'u koi__context" where
  "koi__start_callbacks s c user =
     (let s1 = koi__refill_buffer
                 (s\<lparr>io_read := Some c, io_user_data := user, buflen := 128,
                    read_from_callbacks := True, callback_already_read := 0,
                    img_region := Buffer_start, img_buffer := 0, img_buffer_original := 0\<rparr>)
      in s1\<lparr>img_buffer_original_end := img_buffer_end s1\<rparr>)"

definition koi__rewind :: "'u koi__context \<Rightarrow> 'u koi__context" where
  "koi__rewind s =
     s\<lparr>img_buffer := img_buffer_original s, img_buffer_end := img_buffer_original_end s\<rparr>"

definition koi__get8 :: "'u koi__context \<Rightarrow> koi_uc \<times> 'u koi__context" where
  "koi__get8 s =
     (if img_buffer s < img_buffer_end s then
        (koi__deref s (img_buffer s), s\<lparr>img_buffer := img_buffer s + 1\<rparr>)
      else if read_from_callbacks s then
        (let s1 = koi__refill_buffer s
         in (koi__deref s1 (img_buffer s1), s1\<lparr>img_buffer := img_buffer s1 + 1\<rparr>))
      else (0, s))"

definition koi__get16be :: "'u koi__context \<Rightarrow> int \<times> 'u koi__context" where
  "koi__get16be s =
     (let (a, s1) = koi__get8 s;
          z = push_bit 8 (uint a);
          (b, s2) = koi__get8 s1
      in (z + uint b, s2))"

definition koi__get32be :: "'u koi__context \<Rightarrow> 32 word \<times> 'u koi__context" where
  "koi__get32be s =
     (let (h, s1) = koi__get16be s;
          z = (word_of_int (push_bit 16 h) :: 32 word);
          (l, s2) = koi__get16be s1
      in (z + word_of_int l, s2))"

subsection \<open>Sizes and allocation\<close>

definition koi__addsizes_valid :: "int \<Rightarrow> int \<Rightarrow> bool" where
  "koi__addsizes_valid a b = (if b < 0 then False else a \<le> INT_MAX - b)"

definition koi__mul2sizes_valid :: "int \<Rightarrow> int \<Rightarrow> bool" where
  "koi__mul2sizes_valid a b =
     (if a < 0 \<or> b < 0 then False else if b = 0 then True else a \<le> c_div INT_MAX b)"

definition koi__mad3sizes_valid :: "int \<Rightarrow> int \<Rightarrow> int \<Rightarrow> int \<Rightarrow> bool" where
  "koi__mad3sizes_valid a b c add =
     (koi__mul2sizes_valid a b \<and> koi__mul2sizes_valid (a * b) c \<and>
      koi__addsizes_valid (a * b * c) add)"

text \<open>
  \<^verbatim>\<open>KOI_MALLOC\<close> is a parameter \<open>m\<close> of every function that allocates: \<open>m n\<close> is
  \<open>None\<close> when the allocation of \<open>n\<close> bytes fails, and otherwise the block it returns,
  \<open>n\<close> bytes of arbitrary content.
\<close>

type_synonym koi_malloc = "nat \<Rightarrow> koi_uc list option"

definition koi__malloc :: "koi_malloc \<Rightarrow> int \<Rightarrow> koi_uc list option" where
  "koi__malloc m sz = m (nat sz)"

definition koi__malloc_mad3 :: "koi_malloc \<Rightarrow> int \<Rightarrow> int \<Rightarrow> int \<Rightarrow> int \<Rightarrow> koi_uc list option" where
  "koi__malloc_mad3 m a b c add =
     (if \<not> koi__mad3sizes_valid a b c add then None else koi__malloc m (a * b * c + add))"

subsection \<open>Post-processing\<close>

text \<open>
  \<^verbatim>\<open>koi__convert_8_to_16\<close>.  The block \<^verbatim>\<open>enlarged\<close> is an array of \<^verbatim>\<open>img_len\<close> 16-bit
  cells; \<open>m16\<close> is the allocator for it, asked for \<^verbatim>\<open>img_len * 2\<close> bytes.  \<open>None\<close> is
  what C leaves undefined: a size beyond \<^verbatim>\<open>int\<close>, or a read beyond \<^verbatim>\<open>orig\<close>.
\<close>

definition koi__convert_8_to_16 ::
  "(nat \<Rightarrow> 16 word list option) \<Rightarrow> koi_uc list \<Rightarrow> int \<Rightarrow> int \<Rightarrow> int
     \<Rightarrow> (koi_error + 16 word list) option" where
  "koi__convert_8_to_16 m16 orig w h channels =
     (let img_len = w * h * channels
      in if img_len * 2 > INT_MAX \<or> img_len < 0 \<or> int (length orig) < img_len then None
         else
           (case m16 (nat (img_len * 2)) of
              None \<Rightarrow> Some (Inl Outofmem)
            | Some enlarged \<Rightarrow>
                if int (length enlarged) \<noteq> img_len then None
                else
                  Some (Inr (fold (\<lambda>i e. e[i := word_of_int (push_bit 8 (uint (orig ! i)) + uint (orig ! i))])
                               [0..<nat img_len] enlarged))))"

text \<open>\<^verbatim>\<open>memcpy\<close> of the bytes \<open>src\<close> to offset \<open>off\<close> of \<open>dst\<close>.\<close>

definition memcpy :: "'a list \<Rightarrow> nat \<Rightarrow> 'a list \<Rightarrow> 'a list" where
  "memcpy dst off src = take off dst @ src @ drop (off + length src) dst"

text \<open>
  The inner loop of \<^verbatim>\<open>koi__vertical_flip\<close>: two rows are swapped through \<^verbatim>\<open>temp\<close>, at
  most \<open>chunk\<close> cells at a time (2048 bytes).  The image is a list of cells, bytes for
  the 8-bit loader and 16-bit values for the 16-bit one, and sizes count cells.
\<close>

function koi__vertical_flip_row :: "nat \<Rightarrow> 'a list \<Rightarrow> nat \<Rightarrow> nat \<Rightarrow> nat \<Rightarrow> 'a list" where
  "koi__vertical_flip_row chunk img row0 row1 bytes_left =
     (if bytes_left = 0 \<or> chunk = 0 then img
      else
        (let bytes_copy = (if bytes_left < chunk then bytes_left else chunk);
             temp = take bytes_copy (drop row0 img);
             img1 = memcpy img row0 (take bytes_copy (drop row1 img));
             img2 = memcpy img1 row1 temp
         in koi__vertical_flip_row chunk img2 (row0 + bytes_copy) (row1 + bytes_copy)
              (bytes_left - bytes_copy)))"
  by pat_completeness auto
termination
  by (relation "measure (\<lambda>(chunk, img, row0, row1, bytes_left). bytes_left)") auto

declare koi__vertical_flip_row.simps [simp del]

definition koi__vertical_flip :: "nat \<Rightarrow> 'a list \<Rightarrow> int \<Rightarrow> int \<Rightarrow> int \<Rightarrow> 'a list" where
  "koi__vertical_flip chunk img w h bytes_per_pixel =
     (let bytes_per_row = nat (w * bytes_per_pixel)
      in fold (\<lambda>row im.
                 koi__vertical_flip_row chunk im (row * bytes_per_row)
                   (nat (h - int row - 1) * bytes_per_row) bytes_per_row)
           [0..<nat (h div 2)] img)"

definition koi__compute_y :: "int \<Rightarrow> int \<Rightarrow> int \<Rightarrow> koi_uc" where
  "koi__compute_y r g b = word_of_int (drop_bit 8 ((r * 77) + (g * 150) + (29 * b)))"

text \<open>
  One pixel of \<^verbatim>\<open>koi__convert_format\<close>: the body of the \<^verbatim>\<open>KOI__CASE(a, b)\<close> that
  \<^verbatim>\<open>KOI__COMBO(img_n, req_comp)\<close> selects, reading at \<open>src\<close> and writing at \<open>dest\<close>.
  The \<^verbatim>\<open>default\<close> case is \<^verbatim>\<open>KOI_ASSERT(0)\<close>, which ends the program: \<open>None\<close>.  The
  \<^verbatim>\<open>switch\<close> stands in the loop over the rows, before the loop over a row's pixels.
\<close>

definition koi__convert_px ::
  "int \<Rightarrow> int \<Rightarrow> koi_uc list \<Rightarrow> nat \<Rightarrow> koi_uc list \<Rightarrow> nat \<Rightarrow> koi_uc list option" where
  "koi__convert_px n_img req_comp dat src good dest =
     (let y = koi__compute_y (uint (dat ! src)) (uint (dat ! (src + 1))) (uint (dat ! (src + 2)))
      in if n_img = 1 \<and> req_comp = 2 then Some (good[dest := dat ! src, dest + 1 := 255])
         else if n_img = 1 \<and> req_comp = 3 then
           Some (good[dest := dat ! src, dest + 1 := dat ! src, dest + 2 := dat ! src])
         else if n_img = 1 \<and> req_comp = 4 then
           Some (good[dest := dat ! src, dest + 1 := dat ! src, dest + 2 := dat ! src, dest + 3 := 255])
         else if n_img = 2 \<and> req_comp = 1 then Some (good[dest := dat ! src])
         else if n_img = 2 \<and> req_comp = 3 then
           Some (good[dest := dat ! src, dest + 1 := dat ! src, dest + 2 := dat ! src])
         else if n_img = 2 \<and> req_comp = 4 then
           Some (good[dest := dat ! src, dest + 1 := dat ! src, dest + 2 := dat ! src,
                      dest + 3 := dat ! (src + 1)])
         else if n_img = 3 \<and> req_comp = 4 then
           Some (good[dest := dat ! src, dest + 1 := dat ! (src + 1), dest + 2 := dat ! (src + 2),
                      dest + 3 := 255])
         else if n_img = 3 \<and> req_comp = 1 then Some (good[dest := y])
         else if n_img = 3 \<and> req_comp = 2 then Some (good[dest := y, dest + 1 := 255])
         else if n_img = 4 \<and> req_comp = 1 then Some (good[dest := y])
         else if n_img = 4 \<and> req_comp = 2 then Some (good[dest := y, dest + 1 := dat ! (src + 3)])
         else if n_img = 4 \<and> req_comp = 3 then
           Some (good[dest := dat ! src, dest + 1 := dat ! (src + 1), dest + 2 := dat ! (src + 2)])
         else None)"

text \<open>The pixels \<open>k < n\<close> of row \<open>j\<close>, and the rows \<open>j < n\<close>.\<close>

fun koi__convert_row ::
  "int \<Rightarrow> int \<Rightarrow> koi_uc list \<Rightarrow> nat \<Rightarrow> nat \<Rightarrow> koi_uc list \<Rightarrow> nat \<Rightarrow> koi_uc list option" where
  "koi__convert_row n_img req_comp dat x j good 0 = Some good"
| "koi__convert_row n_img req_comp dat x j good (Suc k) =
     (case koi__convert_row n_img req_comp dat x j good k of
        None \<Rightarrow> None
      | Some good1 \<Rightarrow>
          koi__convert_px n_img req_comp dat (j * x * nat n_img + k * nat n_img)
            good1 (j * x * nat req_comp + k * nat req_comp))"

fun koi__convert_rows ::
  "int \<Rightarrow> int \<Rightarrow> koi_uc list \<Rightarrow> nat \<Rightarrow> koi_uc list \<Rightarrow> nat \<Rightarrow> koi_uc list option" where
  "koi__convert_rows n_img req_comp dat x good 0 = Some good"
| "koi__convert_rows n_img req_comp dat x good (Suc j) =
     (case koi__convert_rows n_img req_comp dat x good j of
        None \<Rightarrow> None
      | Some good1 \<Rightarrow>
          if (n_img, req_comp) \<in> set [(1, 2), (1, 3), (1, 4), (2, 1), (2, 3), (2, 4), (3, 4), (3, 1),
                                       (3, 2), (4, 1), (4, 2), (4, 3)]
          then koi__convert_row n_img req_comp dat x j good1 x
          else None)"

text \<open>
  \<^verbatim>\<open>koi__convert_format\<close>.  \<open>None\<close> is a failed \<^verbatim>\<open>KOI_ASSERT\<close>.
\<close>

definition koi__convert_format ::
  "koi_malloc \<Rightarrow> koi_uc list \<Rightarrow> int \<Rightarrow> int \<Rightarrow> 32 word \<Rightarrow> 32 word
     \<Rightarrow> (koi_error + koi_uc list) option" where
  "koi__convert_format m dat n_img req_comp x y =
     (if req_comp = n_img then Some (Inr dat)
      else if \<not> (req_comp \<ge> 1 \<and> req_comp \<le> 4) then None
      else
        (case koi__malloc_mad3 m req_comp (sint x) (sint y) 0 of
           None \<Rightarrow> Some (Inl Outofmem)
         | Some good \<Rightarrow>
             (case koi__convert_rows n_img req_comp dat (unat x) good (nat (sint y)) of
                None \<Rightarrow> None
              | Some good1 \<Rightarrow> Some (Inr good1))))"

subsection \<open>QOI decoder\<close>

definition koi__qoi_test_raw :: "'u koi__context \<Rightarrow> bool \<times> 'u koi__context" where
  "koi__qoi_test_raw s =
     (let sz = img_buffer_original_end s - img_buffer_original s
      in if sz < 14 + 8 then (False, s)
         else
           (let (c1, s1) = koi__get8 s in
            if c1 \<noteq> of_char CHR ''q'' then (False, s1)
            else
              (let (c2, s2) = koi__get8 s1 in
               if c2 \<noteq> of_char CHR ''o'' then (False, s2)
               else
                 (let (c3, s3) = koi__get8 s2 in
                  if c3 \<noteq> of_char CHR ''i'' then (False, s3)
                  else
                    (let (c4, s4) = koi__get8 s3 in
                     if c4 \<noteq> of_char CHR ''f'' then (False, s4) else (True, s4))))))"

definition koi__qoi_test :: "'u koi__context \<Rightarrow> bool \<times> 'u koi__context" where
  "koi__qoi_test s = (let (r, s1) = koi__qoi_test_raw s in (r, koi__rewind s1))"

record koi__qoi_data =
  ch_n :: koi_uc
  cspace :: koi_uc

text \<open>
  \<^verbatim>\<open>koi__qoi_parse_header\<close>.  The four comparisons of the magic are joined by \<^verbatim>\<open>||\<close>: a
  byte is only read when the ones before it matched.  \<open>Inl\<close> is the \<^verbatim>\<open>NULL\<close> result with
  the failure reason that \<^verbatim>\<open>koi__err\<close> has stored.
\<close>

definition koi__qoi_parse_header :: "'u koi__context \<Rightarrow> (koi_error + koi__qoi_data) \<times> 'u koi__context" where
  "koi__qoi_parse_header s =
     (let (c1, s1) = koi__get8 s in
      if c1 \<noteq> of_char CHR ''q'' then (Inl Not_QOI, s1)
      else
        (let (c2, s2) = koi__get8 s1 in
         if c2 \<noteq> of_char CHR ''o'' then (Inl Not_QOI, s2)
         else
           (let (c3, s3) = koi__get8 s2 in
            if c3 \<noteq> of_char CHR ''i'' then (Inl Not_QOI, s3)
            else
              (let (c4, s4) = koi__get8 s3 in
               if c4 \<noteq> of_char CHR ''f'' then (Inl Not_QOI, s4)
               else
                 (let (w, s5) = koi__get32be s4;
                      s6 = s5\<lparr>img_x := w\<rparr>;
                      (h, s7) = koi__get32be s6;
                      s8 = s7\<lparr>img_y := h\<rparr>;
                      (n, s9) = koi__get8 s8
                  in if n \<noteq> 3 \<and> n \<noteq> 4 then (Inl QOI_CHANNELS, s9)
                     else
                       (let (cs, s10) = koi__get8 s9
                        in if cs \<noteq> 0 \<and> cs \<noteq> 1 then (Inl QOI_COLORSPACE, s10)
                           else (Inr \<lparr>ch_n = n, cspace = cs\<rparr>, s10)))))))"

definition KOI_QOI_COLOR_HASH :: "qoi_pixel \<Rightarrow> nat" where
  "KOI_QOI_COLOR_HASH px =
     unat (px_r px) * 3 + unat (px_g px) * 5 + unat (px_b px) * 7 + unat (px_a px) * 11"

text \<open>
  The pixel store \<^verbatim>\<open>out[pos++] = r; out[pos++] = g; out[pos] = b; if (target == 4)
  out[++pos] = a;\<close>, answering \<^verbatim>\<open>pos\<close> afterwards and the block.  \<open>None\<close> is a store
  beyond the block that was allocated.
\<close>

definition koi__qoi_store_px ::
  "nat \<Rightarrow> qoi_pixel \<Rightarrow> nat \<Rightarrow> koi_uc list \<Rightarrow> (nat \<times> koi_uc list) option" where
  "koi__qoi_store_px target px pos out =
     (if target = 4 then
        (if pos + 4 \<le> length out then
           Some (pos + 3, out[pos := px_r px, pos + 1 := px_g px, pos + 2 := px_b px, pos + 3 := px_a px])
         else None)
      else
        (if pos + 3 \<le> length out then
           Some (pos + 2, out[pos := px_r px, pos + 1 := px_g px, pos + 2 := px_b px])
         else None))"

text \<open>
  \<^verbatim>\<open>while (run--) { ... if (run > 0) { ++i; ++pos; } }\<close> on \<^verbatim>\<open>(i, pos, out)\<close>; the first
  argument after the pixel is \<^verbatim>\<open>run\<close> before the test.
\<close>

fun koi__qoi_run_loop ::
  "nat \<Rightarrow> qoi_pixel \<Rightarrow> nat \<Rightarrow> nat \<times> nat \<times> koi_uc list \<Rightarrow> (nat \<times> nat \<times> koi_uc list) option" where
  "koi__qoi_run_loop target px 0 (i, pos, out) = Some (i, pos, out)"
| "koi__qoi_run_loop target px (Suc run) (i, pos, out) =
     (case koi__qoi_store_px target px pos out of
        None \<Rightarrow> None
      | Some (pos1, out1) \<Rightarrow>
          if run > 0 then koi__qoi_run_loop target px run (i + 1, pos1 + 1, out1)
          else koi__qoi_run_loop target px run (i, pos1, out1))"

text \<open>The locals of \<^verbatim>\<open>koi__qoi_load\<close> that its loop changes.\<close>

record 'u koi__qoi_state =
  d_s :: "'u koi__context"
  d_out :: "koi_uc list"
  d_prev_px :: qoi_pixel
  d_index :: "qoi_pixel list"
  d_i :: nat

text \<open>The end of a loop iteration that decoded a colour: the index and the store.\<close>

definition koi__qoi_emit :: "nat \<Rightarrow> 'u koi__qoi_state \<Rightarrow> 'u koi__qoi_state option" where
  "koi__qoi_emit target st =
     (let px = d_prev_px st;
          idx = (d_index st)[KOI_QOI_COLOR_HASH px mod 64 := px]
      in case koi__qoi_store_px target px (d_i st * target) (d_out st) of
           None \<Rightarrow> None
         | Some (pos, out) \<Rightarrow> Some (st\<lparr>d_index := idx, d_out := out\<rparr>))"

text \<open>The body of \<^verbatim>\<open>for (i = 0; i < len; ++i)\<close>, without the \<^verbatim>\<open>++i\<close>.\<close>

definition koi__qoi_decode_op :: "nat \<Rightarrow> 'u koi__qoi_state \<Rightarrow> 'u koi__qoi_state option" where
  "koi__qoi_decode_op target st =
     (let pos = d_i st * target;
          prev = d_prev_px st;
          (tag, s1) = koi__get8 (d_s st)
      in if tag = 0xfe then
           (let (r, s2) = koi__get8 s1;
                (g, s3) = koi__get8 s2;
                (b, s4) = koi__get8 s3
            in koi__qoi_emit target (st\<lparr>d_s := s4, d_prev_px := Pixel r g b (px_a prev)\<rparr>))
         else if tag = 0xff then
           (let (r, s2) = koi__get8 s1;
                (g, s3) = koi__get8 s2;
                (b, s4) = koi__get8 s3;
                (a, s5) = koi__get8 s4
            in koi__qoi_emit target (st\<lparr>d_s := s5, d_prev_px := Pixel r g b a\<rparr>))
         else
           (let t = tag AND 0xc0
            in if t = 0x00 then
                 koi__qoi_emit target (st\<lparr>d_s := s1, d_prev_px := d_index st ! unat tag\<rparr>)
               else if t = 0x40 then
                 (let d = tag XOR 0x40
                  in koi__qoi_emit target
                       (st\<lparr>d_s := s1,
                          d_prev_px :=
                            Pixel (px_r prev + ((drop_bit 4 d AND 0x03) - 2))
                                  (px_g prev + ((drop_bit 2 d AND 0x03) - 2))
                                  (px_b prev + ((d AND 0x03) - 2))
                                  (px_a prev)\<rparr>))
               else if t = 0x80 then
                 (let dg = (tag XOR 0x80) - 32;
                      (d2, s2) = koi__get8 s1
                  in koi__qoi_emit target
                       (st\<lparr>d_s := s2,
                          d_prev_px :=
                            Pixel (px_r prev + (dg - 8 + (drop_bit 4 d2 AND 0x0f)))
                                  (px_g prev + dg)
                                  (px_b prev + (dg - 8 + (d2 AND 0x0f)))
                                  (px_a prev)\<rparr>))
               else if t = 0xc0 then
                 (let run = (tag XOR 0xc0) + 1;
                      idx = (d_index st)[KOI_QOI_COLOR_HASH prev AND (64 - 1) := prev]
                  in case koi__qoi_run_loop target prev (unat run) (d_i st, pos, d_out st) of
                       None \<Rightarrow> None
                     | Some (i, pos1, out) \<Rightarrow>
                         Some (st\<lparr>d_s := s1, d_index := idx, d_i := i, d_out := out\<rparr>))
               else koi__qoi_emit target (st\<lparr>d_s := s1\<rparr>)))"

lemma koi__qoi_run_loop_i:
  "koi__qoi_run_loop target px run (i, pos, out) = Some (i1, pos1, out1) \<Longrightarrow> i \<le> i1"
proof (induction run arbitrary: i pos out)
  case 0
  then show ?case by simp
next
  case (Suc run)
  then show ?case
    by (fastforce split: option.splits if_splits)
qed

lemma koi__qoi_decode_op_i:
  "koi__qoi_decode_op target st = Some st1 \<Longrightarrow> d_i st \<le> d_i st1"
  by (auto simp: koi__qoi_decode_op_def koi__qoi_emit_def Let_def
           split: prod.splits if_splits option.splits dest: koi__qoi_run_loop_i)

text \<open>
  \<^verbatim>\<open>for (i = 0; i < len; ++i)\<close> from the state \<open>st\<close> on.  A run moves \<^verbatim>\<open>i\<close> forward
  inside the body, so the loop is recursive on the state.
\<close>

function koi__qoi_decode_loop :: "nat \<Rightarrow> nat \<Rightarrow> 'u koi__qoi_state \<Rightarrow> 'u koi__qoi_state option" where
  "koi__qoi_decode_loop len target st =
     (if d_i st < len then
        (case koi__qoi_decode_op target st of
           None \<Rightarrow> None
         | Some st1 \<Rightarrow> koi__qoi_decode_loop len target (st1\<lparr>d_i := d_i st1 + 1\<rparr>))
      else Some st)"
  by pat_completeness auto
termination
proof (relation "measure (\<lambda>(len, target, st). len - d_i st)")
  show "wf (measure (\<lambda>(len, target, st :: 'u koi__qoi_state). len - d_i st))"
    by simp
next
  fix len target :: nat and st st1 :: "'u koi__qoi_state"
  assume "d_i st < len" and "koi__qoi_decode_op target st = Some st1"
  then show "((len, target, st1\<lparr>d_i := d_i st1 + 1\<rparr>), (len, target, st))
               \<in> measure (\<lambda>(len, target, st). len - d_i st)"
    using koi__qoi_decode_op_i [of target st st1] by simp
qed

declare koi__qoi_decode_loop.simps [simp del]

text \<open>
  \<^verbatim>\<open>koi__qoi_load\<close>.  \<open>x\<close>, \<open>y\<close> and \<open>ncomp\<close> are what the caller's \<^verbatim>\<open>*x\<close>, \<^verbatim>\<open>*y\<close> and
  \<^verbatim>\<open>*comp\<close> hold, \<open>ncomp = None\<close> for a \<^verbatim>\<open>comp\<close> that is \<^verbatim>\<open>NULL\<close>; the result is the
  returned block, or the failure reason with the \<^verbatim>\<open>NULL\<close>, and what the three hold
  afterwards.  The outer \<open>None\<close> is a store beyond \<^verbatim>\<open>out\<close>, or a failed assertion of
  \<^verbatim>\<open>koi__convert_format\<close>.
\<close>

type_synonym koi_load_result = "(koi_error + koi_uc list) \<times> int \<times> int \<times> int option"

definition koi__qoi_load ::
  "koi_malloc \<Rightarrow> 'u koi__context \<Rightarrow> int \<Rightarrow> int \<Rightarrow> int option \<Rightarrow> int \<Rightarrow> koi_load_result option" where
  "koi__qoi_load m s x y ncomp req_comp =
     (case koi__qoi_parse_header s of
        (Inl e, s1) \<Rightarrow> Some (Inl e, x, y, ncomp)
      | (Inr info, s1) \<Rightarrow>
          if uint (img_y s1) > KOI_MAX_DIMENSIONS then Some (Inl Too_large, x, y, ncomp)
          else if uint (img_x s1) > KOI_MAX_DIMENSIONS then Some (Inl Too_large, x, y, ncomp)
          else
            (let s2 = s1\<lparr>img_n := uint (ch_n info)\<rparr>;
                 target = (if req_comp \<noteq> 0 \<and> req_comp \<ge> 3 then (word_of_int req_comp :: koi_uc)
                           else word_of_int (img_n s2))
             in if \<not> koi__mad3sizes_valid (uint target) (sint (img_x s2)) (sint (img_y s2)) 0
                then Some (Inl Too_large, x, y, ncomp)
                else
                  (case koi__malloc_mad3 m (uint target) (sint (img_x s2)) (sint (img_y s2)) 0 of
                     None \<Rightarrow> Some (Inl Outofmem, x, y, ncomp)
                   | Some out \<Rightarrow>
                       (let len = unat (img_y s2 * img_x s2);
                            st0 = \<lparr>d_s = s2, d_out = out, d_prev_px = Pixel 0 0 0 255,
                                   d_index = replicate 64 (Pixel 0 0 0 0), d_i = 0\<rparr>
                        in case koi__qoi_decode_loop len (unat target) st0 of
                             None \<Rightarrow> None
                           | Some st \<Rightarrow>
                               (case (if req_comp \<noteq> 0 \<and> req_comp \<noteq> uint target then
                                        koi__convert_format m (d_out st) (uint target) req_comp
                                          (img_x s2) (img_y s2)
                                      else Some (Inr (d_out st))) of
                                  None \<Rightarrow> None
                                | Some (Inl e) \<Rightarrow> Some (Inl e, x, y, ncomp)
                                | Some (Inr out1) \<Rightarrow>
                                    Some (Inr out1, sint (img_x s2), sint (img_y s2),
                                          (case ncomp of None \<Rightarrow> None | Some c \<Rightarrow> Some (img_n s2))))))))"

definition koi__qoi_info ::
  "'u koi__context \<Rightarrow> int option \<Rightarrow> int option \<Rightarrow> int option
     \<Rightarrow> (koi_error + int) \<times> int option \<times> int option \<times> int option" where
  "koi__qoi_info s x y ncomp =
     (case koi__qoi_parse_header s of
        (Inl e, s1) \<Rightarrow> (Inl e, x, y, ncomp)
      | (Inr info, s1) \<Rightarrow>
          (Inr 1,
           (case x of None \<Rightarrow> None | Some v \<Rightarrow> Some (sint (img_x s1))),
           (case y of None \<Rightarrow> None | Some v \<Rightarrow> Some (sint (img_y s1))),
           (case ncomp of None \<Rightarrow> None | Some v \<Rightarrow> Some (uint (ch_n info)))))"

subsection \<open>Entry points\<close>

definition koi__load_main ::
  "koi_malloc \<Rightarrow> 'u koi__context \<Rightarrow> int \<Rightarrow> int \<Rightarrow> int option \<Rightarrow> int \<Rightarrow> koi_load_result option" where
  "koi__load_main m s x y ncomp req_comp =
     (case koi__qoi_test s of
        (True, s1) \<Rightarrow> koi__qoi_load m s1 x y ncomp req_comp
      | (False, s1) \<Rightarrow> Some (Inl Unknown_image_type, x, y, ncomp))"

text \<open>
  \<open>flip\<close> is the setting \<^verbatim>\<open>koi__vertically_flip_on_load\<close>.  With it set and
  \<^verbatim>\<open>req_comp == 0\<close> the code reads \<^verbatim>\<open>*comp\<close>, which C leaves undefined for a \<^verbatim>\<open>comp\<close>
  that is \<^verbatim>\<open>NULL\<close>.
\<close>

definition koi__load_and_postprocess_8bit ::
  "bool \<Rightarrow> koi_malloc \<Rightarrow> 'u koi__context \<Rightarrow> int \<Rightarrow> int \<Rightarrow> int option \<Rightarrow> int
     \<Rightarrow> koi_load_result option" where
  "koi__load_and_postprocess_8bit flip m s x y ncomp req_comp =
     (case koi__load_main m s x y ncomp req_comp of
        None \<Rightarrow> None
      | Some (Inl e, x1, y1, ncomp1) \<Rightarrow> Some (Inl e, x1, y1, ncomp1)
      | Some (Inr result, x1, y1, ncomp1) \<Rightarrow>
          if flip then
            (if req_comp \<noteq> 0 then
               Some (Inr (koi__vertical_flip 2048 result x1 y1 req_comp), x1, y1, ncomp1)
             else
               (case ncomp1 of
                  None \<Rightarrow> None
                | Some channels \<Rightarrow>
                    Some (Inr (koi__vertical_flip 2048 result x1 y1 channels), x1, y1, ncomp1)))
          else Some (Inr result, x1, y1, ncomp1))"

text \<open>
  The entry points take the caller's memory as the list of bytes at \<^verbatim>\<open>buffer\<close> and the
  \<^verbatim>\<open>len\<close> the caller passes; a \<^verbatim>\<open>len\<close> beyond the bytes that are there is a caller's
  error that C leaves undefined.
\<close>

definition koi_load_from_memory ::
  "bool \<Rightarrow> koi_malloc \<Rightarrow> koi_uc list \<Rightarrow> int \<Rightarrow> int \<Rightarrow> int \<Rightarrow> int option \<Rightarrow> int
     \<Rightarrow> koi_load_result option" where
  "koi_load_from_memory flip m buf len x y ncomp req_comp =
     (if int (length buf) < len then None
      else koi__load_and_postprocess_8bit flip m
             (koi__start_mem (koi__context_new ()) buf len) x y ncomp req_comp)"

definition koi_load_from_callbacks ::
  "bool \<Rightarrow> koi_malloc \<Rightarrow> ('u \<Rightarrow> nat \<Rightarrow> koi_uc list \<times> int \<times> 'u) \<Rightarrow> 'u \<Rightarrow> int \<Rightarrow> int \<Rightarrow> int option \<Rightarrow> int
     \<Rightarrow> koi_load_result option" where
  "koi_load_from_callbacks flip m clbk user x y ncomp req_comp =
     koi__load_and_postprocess_8bit flip m
       (koi__start_callbacks (koi__context_new user) clbk user) x y ncomp req_comp"

text \<open>
  \<^verbatim>\<open>koi__load_and_postprocess_16bit\<close>.  The QOI loader leaves \<^verbatim>\<open>ri.bits_per_channel\<close> at
  8, so the block is always widened; \<open>m16\<close> is the allocator of the 16-bit block.  A
  failed widening returns \<^verbatim>\<open>NULL\<close> into \<^verbatim>\<open>result\<close>, which the flip then works on when
  the setting is on.
\<close>

definition koi__load_and_postprocess_16bit ::
  "bool \<Rightarrow> koi_malloc \<Rightarrow> (nat \<Rightarrow> 16 word list option) \<Rightarrow> 'u koi__context \<Rightarrow> int \<Rightarrow> int
     \<Rightarrow> int option \<Rightarrow> int \<Rightarrow> ((koi_error + 16 word list) \<times> int \<times> int \<times> int option) option" where
  "koi__load_and_postprocess_16bit flip m m16 s x y ncomp req_comp =
     (case koi__load_main m s x y ncomp req_comp of
        None \<Rightarrow> None
      | Some (Inl e, x1, y1, ncomp1) \<Rightarrow> Some (Inl e, x1, y1, ncomp1)
      | Some (Inr result, x1, y1, ncomp1) \<Rightarrow>
          (case (if req_comp = 0 then ncomp1 else Some req_comp) of
             None \<Rightarrow> None
           | Some channels \<Rightarrow>
               (case koi__convert_8_to_16 m16 result x1 y1 channels of
                  None \<Rightarrow> None
                | Some (Inl e) \<Rightarrow> if flip then None else Some (Inl e, x1, y1, ncomp1)
                | Some (Inr result16) \<Rightarrow>
                    if flip then
                      Some (Inr (koi__vertical_flip 1024 result16 x1 y1 channels), x1, y1, ncomp1)
                    else Some (Inr result16, x1, y1, ncomp1))))"

definition koi_load_16_from_memory ::
  "bool \<Rightarrow> koi_malloc \<Rightarrow> (nat \<Rightarrow> 16 word list option) \<Rightarrow> koi_uc list \<Rightarrow> int \<Rightarrow> int \<Rightarrow> int
     \<Rightarrow> int option \<Rightarrow> int \<Rightarrow> ((koi_error + 16 word list) \<times> int \<times> int \<times> int option) option" where
  "koi_load_16_from_memory flip m m16 buf len x y ncomp req_comp =
     (if int (length buf) < len then None
      else koi__load_and_postprocess_16bit flip m m16
             (koi__start_mem (koi__context_new ()) buf len) x y ncomp req_comp)"

definition koi__info_main ::
  "'u koi__context \<Rightarrow> int option \<Rightarrow> int option \<Rightarrow> int option
     \<Rightarrow> (koi_error + int) \<times> int option \<times> int option \<times> int option" where
  "koi__info_main s x y ncomp =
     (case koi__qoi_info s x y ncomp of
        (Inr r, x1, y1, ncomp1) \<Rightarrow> (Inr r, x1, y1, ncomp1)
      | (Inl e, x1, y1, ncomp1) \<Rightarrow> (Inl Unknown_image_type, x1, y1, ncomp1))"

definition koi_info_from_memory ::
  "koi_uc list \<Rightarrow> int \<Rightarrow> int option \<Rightarrow> int option \<Rightarrow> int option
     \<Rightarrow> ((koi_error + int) \<times> int option \<times> int option \<times> int option) option" where
  "koi_info_from_memory buf len x y ncomp =
     (if int (length buf) < len then None
      else Some (koi__info_main (koi__start_mem (koi__context_new ()) buf len) x y ncomp))"

section \<open>Notions for the statements\<close>

text \<open>
  The wire format: a 32-bit field is four bytes, most significant first, and the header
  is the magic \<^verbatim>\<open>qoif\<close>, the width, the height, the channels and the colorspace.
\<close>

definition be32 :: "koi_uc \<Rightarrow> koi_uc \<Rightarrow> koi_uc \<Rightarrow> koi_uc \<Rightarrow> nat" where
  "be32 b0 b1 b2 b3 = unat b0 * 2 ^ 24 + unat b1 * 2 ^ 16 + unat b2 * 2 ^ 8 + unat b3"

definition be32_bytes :: "32 word \<Rightarrow> koi_uc list" where
  "be32_bytes w = [ucast (drop_bit 24 w), ucast (drop_bit 16 w), ucast (drop_bit 8 w), ucast w]"

definition qoi_header :: "32 word \<Rightarrow> 32 word \<Rightarrow> koi_uc \<Rightarrow> koi_uc \<Rightarrow> koi_uc list" where
  "qoi_header w h c cs = [0x71, 0x6f, 0x69, 0x66] @ be32_bytes w @ be32_bytes h @ [c, cs]"

text \<open>
  A context reads the caller's memory \<open>buf\<close>, all of it: what \<^verbatim>\<open>koi__start_mem\<close> sets
  up, whatever the position of the cursor \<^verbatim>\<open>img_buffer\<close>.
\<close>

definition mem_stream :: "'u koi__context \<Rightarrow> koi_uc list \<Rightarrow> bool" where
  "mem_stream s buf \<longleftrightarrow>
     img_region s = Caller_memory \<and> \<not> read_from_callbacks s \<and> caller_memory s = buf \<and>
     img_buffer_end s = int (length buf)"

text \<open>\<open>k\<close> calls of \<^verbatim>\<open>koi__get8\<close> in a row: the bytes they return and the context after.\<close>

fun koi__get8_n :: "nat \<Rightarrow> 'u koi__context \<Rightarrow> koi_uc list \<times> 'u koi__context" where
  "koi__get8_n 0 s = ([], s)"
| "koi__get8_n (Suc k) s =
     (let (b, s1) = koi__get8 s; (bs, s2) = koi__get8_n k s1 in (b # bs, s2))"

text \<open>
  The staging buffer of a write context is in order, and \<open>written\<close> is the stream it stands
  for: what \<^verbatim>\<open>func\<close> has received, then the bytes staged in \<^verbatim>\<open>buffer\<close>.
\<close>

definition wctx_ok :: "koi__write_context \<Rightarrow> bool" where
  "wctx_ok s \<longleftrightarrow> length (buffer s) = 64 \<and> buf_used s \<le> 64"

definition written :: "koi__write_context \<Rightarrow> koiw_uc list" where
  "written s = func_out s @ take (buf_used s) (buffer s)"

text \<open>
  The bytes of one colour op, by the rules of \<^verbatim>\<open>koi_write_qoi_core\<close>, and the effect of one
  loop iteration on what the encoder keeps: the run, the previous pixel, the index, the
  stream written so far and the run bytes.  The lemmas below show that the code computes
  these.
\<close>

definition qoi_color_bytes :: "qoi_pixel \<Rightarrow> qoi_pixel \<Rightarrow> qoi_pixel list \<Rightarrow> koiw_uc list" where
  "qoi_color_bytes prev px idx =
     (let index_pos = KOIW_QOI_COLOR_HASH px AND (64 - 1);
          dr = px_r px - px_r prev;
          dg = px_g px - px_g prev;
          db = px_b px - px_b prev;
          dr_dg = dr - dg;
          db_dg = db - dg
      in if idx ! index_pos = px then [KOIW_UCHAR (int index_pos)]
         else if px_a px = px_a prev then
           (if sint dr > -3 \<and> sint dr < 2 \<and> sint dg > -3 \<and> sint dg < 2 \<and>
               sint db > -3 \<and> sint db < 2 then
              [0x40 OR push_bit 4 (dr + 2) OR push_bit 2 (dg + 2) OR (db + 2)]
            else if sint dr_dg > -9 \<and> sint dr_dg < 8 \<and> sint dg > -33 \<and> sint dg < 32 \<and>
                    sint db_dg > -9 \<and> sint db_dg < 8 then
              [0x80 OR (dg + 32), push_bit 4 (dr_dg + 8) OR (db_dg + 8)]
            else [0xfe, px_r px, px_g px, px_b px])
         else [0xff, px_r px, px_g px, px_b px, px_a px])"

type_synonym qoi_enc_view = "koiw_uc \<times> qoi_pixel \<times> qoi_pixel list \<times> koiw_uc list \<times> koiw_uc list"

definition enc_view :: "koiw__qoi_state \<Rightarrow> qoi_enc_view" where
  "enc_view st = (e_run st, e_prev_px st, e_index st, written (e_ctx st), e_run_ops st)"

fun qoi_px_step :: "bool \<Rightarrow> qoi_pixel \<Rightarrow> qoi_enc_view \<Rightarrow> qoi_enc_view" where
  "qoi_px_step is_last px (run, prev, idx, out, rops) =
     (if px = prev then
        (if run + 1 = 62 \<or> is_last then (0, px, idx, out @ [0xc0 OR run], rops @ [0xc0 OR run])
         else (run + 1, px, idx, out, rops))
      else
        (0, px, idx[KOIW_QOI_COLOR_HASH px AND (64 - 1) := px],
         out @ (if run > 0 then [0xc0 OR (run - 1)] else []) @ qoi_color_bytes prev px idx,
         rops @ (if run > 0 then [0xc0 OR (run - 1)] else [])))"

text \<open>Pixel \<open>k\<close> of the caller's data, 3 or 4 channels, and the view after \<open>n\<close> pixels.\<close>

definition qoi_pixel_at :: "int \<Rightarrow> koiw_uc list \<Rightarrow> nat \<Rightarrow> qoi_pixel" where
  "qoi_pixel_at ncomp data k =
     (if ncomp = 4 then
        Pixel (data ! (4 * k)) (data ! (4 * k + 1)) (data ! (4 * k + 2)) (data ! (4 * k + 3))
      else Pixel (data ! (3 * k)) (data ! (3 * k + 1)) (data ! (3 * k + 2)) 255)"

fun qoi_view_after :: "(nat \<Rightarrow> qoi_pixel) \<Rightarrow> nat \<Rightarrow> qoi_enc_view \<Rightarrow> nat \<Rightarrow> qoi_enc_view" where
  "qoi_view_after pix len v 0 = v"
| "qoi_view_after pix len v (Suc n) =
     qoi_px_step (n = len - 1) (pix n) (qoi_view_after pix len v n)"

definition view_out :: "qoi_enc_view \<Rightarrow> koiw_uc list" where
  "view_out v = (case v of (run, prev, idx, out, rops) \<Rightarrow> out)"

definition qoi_trailer :: "koiw_uc list" where
  "qoi_trailer = [0, 0, 0, 0, 0, 0, 0, 1]"

text \<open>
  Two relations for following the decoder along the encoder's stream.  The decoder's index
  is the encoder's, except that a RUN op makes the decoder store the previous pixel, which
  the encoder's index only lacks while that pixel is still the initial \<open>(0, 0, 0, 255)\<close>,
  of hash 53.  \<open>agree k out data\<close>: the block \<open>out\<close> has the size of \<open>data\<close> and its first
  \<open>k\<close> bytes.
\<close>

definition idx_rel :: "qoi_pixel list \<Rightarrow> qoi_pixel list \<Rightarrow> bool" where
  "idx_rel ie idd \<longleftrightarrow>
     length ie = 64 \<and> length idd = 64 \<and>
     (\<forall>k<64. ie ! k = idd ! k \<or> (k = 53 \<and> ie ! k = Pixel 0 0 0 0 \<and> idd ! k = Pixel 0 0 0 255))"

definition agree :: "nat \<Rightarrow> koi_uc list \<Rightarrow> koi_uc list \<Rightarrow> bool" where
  "agree k out data \<longleftrightarrow> length out = length data \<and> (\<forall>j<k. out ! j = data ! j)"

section \<open>Reading from memory and the header\<close>


lemma mem_stream_upd [simp]:
  "mem_stream (s\<lparr>img_buffer := k\<rparr>) buf = mem_stream s buf"
  "mem_stream (s\<lparr>img_x := w\<rparr>) buf = mem_stream s buf"
  "mem_stream (s\<lparr>img_y := h\<rparr>) buf = mem_stream s buf"
  "mem_stream (s\<lparr>img_n := c\<rparr>) buf = mem_stream s buf"
  by (simp_all add: mem_stream_def)

lemma get8_mem:
  "mem_stream s buf \<Longrightarrow> img_buffer s = int k \<Longrightarrow> k < length buf \<Longrightarrow>
   koi__get8 s = (buf ! k, s\<lparr>img_buffer := int (Suc k)\<rparr>)"
  by (simp add: mem_stream_def koi__get8_def koi__deref_def)

lemma get8_mem_end:
  "mem_stream s buf \<Longrightarrow> img_buffer s = int k \<Longrightarrow> length buf \<le> k \<Longrightarrow> koi__get8 s = (0, s)"
  by (simp add: mem_stream_def koi__get8_def)

lemma get32_value:
  "(word_of_int (push_bit 16 (push_bit 8 (uint b0) + uint b1)) :: 32 word)
     + word_of_int (push_bit 8 (uint b2) + uint b3) = word_of_nat (be32 b0 b1 b2 b3)"
proof -
  have "int (be32 b0 b1 b2 b3) = push_bit 16 (push_bit 8 (uint b0) + uint b1) + (push_bit 8 (uint b2) + uint b3)"
    by (simp add: be32_def push_bit_eq_mult)
  then show ?thesis
    by (metis of_int_add of_int_of_nat_eq)
qed

lemma get32be_mem:
  assumes "mem_stream s buf" "img_buffer s = int k" "k + 4 \<le> length buf"
  shows "koi__get32be s =
     (word_of_nat (be32 (buf ! k) (buf ! (k + 1)) (buf ! (k + 2)) (buf ! (k + 3))),
      s\<lparr>img_buffer := int (k + 4)\<rparr>)"
proof -
  have a: "koi__get8 s = (buf ! k, s\<lparr>img_buffer := int (Suc k)\<rparr>)"
    using assms by (simp add: get8_mem)
  have b: "koi__get8 (s\<lparr>img_buffer := int (Suc k)\<rparr>) = (buf ! (k + 1), s\<lparr>img_buffer := int (Suc (Suc k))\<rparr>)"
    using assms get8_mem [of "s\<lparr>img_buffer := int (Suc k)\<rparr>" buf "Suc k"] by simp
  have c: "koi__get8 (s\<lparr>img_buffer := int (Suc (Suc k))\<rparr>) = (buf ! (k + 2), s\<lparr>img_buffer := int (Suc (Suc (Suc k)))\<rparr>)"
    using assms get8_mem [of "s\<lparr>img_buffer := int (Suc (Suc k))\<rparr>" buf "Suc (Suc k)"] by simp
  have d: "koi__get8 (s\<lparr>img_buffer := int (Suc (Suc (Suc k)))\<rparr>) = (buf ! (k + 3), s\<lparr>img_buffer := int (k + 4)\<rparr>)"
    using assms get8_mem [of "s\<lparr>img_buffer := int (Suc (Suc (Suc k)))\<rparr>" buf "Suc (Suc (Suc k))"]
    by (simp add: eval_nat_numeral)
  show ?thesis
    unfolding koi__get32be_def koi__get16be_def Let_def a b c d prod.case
    using get32_value [of "buf ! k" "buf ! (k + 1)" "buf ! (k + 2)" "buf ! (k + 3)"]
    by simp
qed

lemma get8_mem':
  "mem_stream s buf \<Longrightarrow> 0 \<le> img_buffer s \<Longrightarrow> img_buffer s < int (length buf) \<Longrightarrow>
   koi__get8 s = (buf ! nat (img_buffer s), s\<lparr>img_buffer := img_buffer s + 1\<rparr>)"
  by (simp add: mem_stream_def koi__get8_def koi__deref_def)

lemma get32be_mem':
  assumes "mem_stream s buf" "0 \<le> img_buffer s" "img_buffer s + 4 \<le> int (length buf)"
  shows "koi__get32be s =
     (word_of_nat (be32 (buf ! nat (img_buffer s)) (buf ! nat (img_buffer s + 1))
                    (buf ! nat (img_buffer s + 2)) (buf ! nat (img_buffer s + 3))),
      s\<lparr>img_buffer := img_buffer s + 4\<rparr>)"
proof -
  obtain k where k: "img_buffer s = int k" using assms(2) nonneg_int_cases by blast
  have "k + 4 \<le> length buf" using assms(3) k by simp
  from get32be_mem [OF assms(1) k this] show ?thesis
    by (simp add: k nat_add_distrib)
qed


lemma le_div_iff_int:
  fixes a b c :: int
  assumes "0 < c"
  shows "a \<le> b div c \<longleftrightarrow> a * c \<le> b"
proof
  assume "a \<le> b div c"
  then have "a * c \<le> (b div c) * c" using assms by (simp add: mult_right_mono)
  also have "\<dots> \<le> b"
    using assms pos_mod_sign [of c b] div_mult_mod_eq [of b c] by linarith
  finally show "a * c \<le> b" .
next
  assume "a * c \<le> b"
  then have "(a * c) div c \<le> b div c" using assms by (rule zdiv_mono1)
  then show "a \<le> b div c" using assms by simp
qed

lemma c_div_pos: "0 \<le> a \<Longrightarrow> 0 < b \<Longrightarrow> c_div a b = a div b"
  by (cases "a = 0") (simp_all add: c_div_def)

lemma mul2sizes_valid_iff:
  "0 \<le> a \<Longrightarrow> 0 \<le> b \<Longrightarrow> koi__mul2sizes_valid a b \<longleftrightarrow> a * b \<le> INT_MAX"
  by (cases "b = 0") (simp_all add: koi__mul2sizes_valid_def c_div_pos le_div_iff_int INT_MAX_def)

lemma mad3sizes_valid_iff:
  assumes "0 \<le> a" "0 \<le> b" "0 \<le> c" "a * b \<le> INT_MAX"
  shows "koi__mad3sizes_valid a b c 0 \<longleftrightarrow> a * b * c \<le> INT_MAX"
  using assms
  by (simp add: koi__mad3sizes_valid_def mul2sizes_valid_iff koi__addsizes_valid_def)


lemma byte_arith:
  fixes n :: int
  assumes "0 \<le> n" "n < 4294967296"
  shows "65536 * (256 * (n div 16777216 mod 256) + n div 65536 mod 256) + (256 * (n div 256 mod 256) + n mod 256) = n"
proof -
  define q where "q = n div 65536"
  define r where "r = n mod 65536"
  have g: "n = 65536 * q + r" by (simp add: q_def r_def)
  have a: "r = 256 * (n div 256 mod 256) + n mod 256"
    unfolding r_def using zmod_zmult2_eq [of 256 n 256] by simp
  have b: "n div 16777216 = q div 256"
    unfolding q_def using zdiv_zmult2_eq [of 256 n 65536] by simp
  have c: "n div 16777216 < 256" "0 \<le> n div 16777216" using assms by simp_all
  have e: "n div 16777216 mod 256 = q div 256" using c b by simp
  have f: "q = 256 * (q div 256) + q mod 256" by simp
  have "65536 * (256 * (q div 256) + q mod 256) + r = n"
    using f g by simp
  then show ?thesis
    unfolding e a [symmetric] q_def [symmetric] .
qed

lemma uint_ucast_drop:
  fixes w :: "32 word"
  shows "uint (ucast (drop_bit 24 w) :: 8 word) = uint w div 16777216 mod 256"
    "uint (ucast (drop_bit 16 w) :: 8 word) = uint w div 65536 mod 256"
    "uint (ucast (drop_bit 8 w) :: 8 word) = uint w div 256 mod 256"
    "uint (ucast w :: 8 word) = uint w mod 256"
  by (simp_all add: unsigned_ucast_eq unsigned_drop_bit_eq take_bit_eq_mod drop_bit_eq_div uint_div
        del: drop_bit_word_numeral)

lemma uint_drop_bit_32:
  fixes w :: "32 word"
  shows "uint (drop_bit 24 w) = uint w div 16777216"
    "uint (drop_bit 16 w) = uint w div 65536"
    "uint (drop_bit 8 w) = uint w div 256"
  by (simp_all add: drop_bit_eq_div uint_div del: drop_bit_word_numeral)

lemma be32_be32_bytes:
  fixes w :: "32 word"
  shows "word_of_nat (be32 (ucast (drop_bit 24 w)) (ucast (drop_bit 16 w)) (ucast (drop_bit 8 w)) (ucast w)) = w"
proof -
  have b: "0 \<le> uint w" "uint w < 4294967296"
    using uint_lt2p [of w] by simp_all
  have "int (be32 (ucast (drop_bit 24 w)) (ucast (drop_bit 16 w)) (ucast (drop_bit 8 w)) (ucast w))
      = 65536 * (256 * (uint w div 16777216 mod 256) + uint w div 65536 mod 256)
          + (256 * (uint w div 256 mod 256) + uint w mod 256)"
    unfolding be32_def by (simp add: uint_ucast_drop uint_drop_bit_32 flip: uint_nat)
  also have "\<dots> = uint w" by (rule byte_arith [OF b])
  finally have "int (be32 (ucast (drop_bit 24 w)) (ucast (drop_bit 16 w)) (ucast (drop_bit 8 w)) (ucast w)) = uint w" .
  then show ?thesis
    by (metis of_int_of_nat_eq word_of_int_uint)
qed

lemma length_qoi_header [simp]: "length (qoi_header w h c cs) = 14"
  by (simp add: qoi_header_def be32_bytes_def)

lemma parse_header_mem:
  assumes "mem_stream s (qoi_header w h c cs @ rest)" and "img_buffer s = 0"
  shows "fst (koi__qoi_parse_header s) =
           (if c \<noteq> 3 \<and> c \<noteq> 4 then Inl QOI_CHANNELS
            else if cs \<noteq> 0 \<and> cs \<noteq> 1 then Inl QOI_COLORSPACE
            else Inr \<lparr>ch_n = c, cspace = cs\<rparr>)"
    and "img_x (snd (koi__qoi_parse_header s)) = w"
    and "img_y (snd (koi__qoi_parse_header s)) = h"
    and "c = 3 \<or> c = 4 \<Longrightarrow> cs = 0 \<or> cs = 1 \<Longrightarrow>
         snd (koi__qoi_parse_header s) = s\<lparr>img_buffer := 14, img_x := w, img_y := h\<rparr>"
  using assms
  by (simp_all add: koi__qoi_parse_header_def get8_mem' get32be_mem' qoi_header_def be32_bytes_def
        be32_be32_bytes Let_def del: drop_bit_word_numeral)

lemma qoi_test_mem:
  assumes "mem_stream s (qoi_header w h c cs @ rest)" "img_buffer s = 0" "img_buffer_original s = 0"
    "img_buffer_original_end s = int (length (qoi_header w h c cs @ rest))"
  shows "koi__qoi_test s = (8 \<le> length rest, s)"
  using assms
  apply (simp add: koi__qoi_test_def koi__qoi_test_raw_def koi__rewind_def get8_mem' qoi_header_def Let_def)
  apply (auto simp add: mem_stream_def be32_bytes_def)
  done

lemma start_mem_stream:
  "mem_stream (koi__start_mem s buf (int (length buf))) buf"
  "img_buffer (koi__start_mem s buf len) = 0"
  "img_buffer_original (koi__start_mem s buf len) = 0"
  "img_buffer_original_end (koi__start_mem s buf len) = len"
  by (simp_all add: mem_stream_def koi__start_mem_def)

lemma sint_uint_small:
  fixes w :: "32 word"
  assumes "uint w < 2147483648"
  shows "sint w = uint w"
proof -
  have "(- (2 ^ 31) :: int) \<le> 0" by simp
  also have "0 \<le> uint w" by simp
  finally have lo: "- (2 ^ 31) \<le> uint w" .
  have hi: "uint w < 2 ^ 31" using assms by simp
  from lo hi have "signed_take_bit 31 (uint w) = uint w" by (rule signed_take_bit_int_eq_self)
  then show ?thesis by (simp add: sint_uint)
qed

lemma load_main_mem:
  assumes "8 \<le> length rest"
  shows "koi__load_main m (koi__start_mem s0 (qoi_header w h c cs @ rest) (14 + int (length rest))) x y n r
       = koi__qoi_load m (koi__start_mem s0 (qoi_header w h c cs @ rest) (14 + int (length rest))) x y n r"
  using assms qoi_test_mem [of "koi__start_mem s0 (qoi_header w h c cs @ rest) (14 + int (length rest))" w h c cs rest]
    start_mem_stream(1) [of s0 "qoi_header w h c cs @ rest"]
  by (simp add: koi__load_main_def start_mem_stream)


lemma mad3_target:
  fixes w h :: "32 word"
  assumes "uint w \<le> 16777216" "uint h \<le> 16777216" "0 \<le> t" "t \<le> 4"
  shows "koi__mad3sizes_valid t (sint w) (sint h) 0 \<longleftrightarrow> t * uint w * uint h \<le> INT_MAX"
proof -
  have sw: "sint w = uint w" and sh: "sint h = uint h"
    using assms by (simp_all add: sint_uint_small)
  have "t * uint w \<le> 4 * 16777216"
    using assms by (intro mult_mono) simp_all
  then have "t * uint w \<le> INT_MAX" by (simp add: INT_MAX_def)
  then show ?thesis
    unfolding sw sh using assms by (simp add: mad3sizes_valid_iff)
qed


lemma qoi_load_mem_alloc:
  fixes w h :: "32 word"
  assumes s: "mem_stream s (qoi_header w h c cs @ rest)" "img_buffer s = 0"
    and r: "0 \<le> req_comp" "req_comp \<le> 4"
    and c: "c = 3 \<or> c = 4" and cs: "cs = 0 \<or> cs = 1"
    and w: "uint w \<le> 16777216" and h: "uint h \<le> 16777216"
    and t: "t = (if 3 \<le> req_comp then req_comp else uint c)"
    and fits: "t * uint w * uint h \<le> INT_MAX"
  shows "koi__qoi_load m s x y n req_comp =
     (case m (nat (t * uint w * uint h)) of
        None \<Rightarrow> Some (Inl Outofmem, x, y, n)
      | Some out \<Rightarrow>
          (case koi__qoi_decode_loop (unat (h * w)) (nat t)
                  \<lparr>d_s = s\<lparr>img_buffer := 14, img_x := w, img_y := h, img_n := uint c\<rparr>,
                   d_out = out, d_prev_px = Pixel 0 0 0 255,
                   d_index = replicate 64 (Pixel 0 0 0 0), d_i = 0\<rparr> of
             None \<Rightarrow> None
           | Some st \<Rightarrow>
               (case (if req_comp \<noteq> 0 \<and> req_comp \<noteq> t then
                        koi__convert_format m (d_out st) t req_comp w h
                      else Some (Inr (d_out st))) of
                  None \<Rightarrow> None
                | Some (Inl e) \<Rightarrow> Some (Inl e, x, y, n)
                | Some (Inr out1) \<Rightarrow>
                    Some (Inr out1, uint w, uint h, map_option (\<lambda>_. uint c) n))))"
proof -
  obtain r1 s1 where p: "koi__qoi_parse_header s = (r1, s1)" by (cases "koi__qoi_parse_header s")
  note ph = parse_header_mem [OF s, unfolded p fst_conv snd_conv]
  have r1: "r1 = Inr \<lparr>ch_n = c, cspace = cs\<rparr>" using ph(1) c cs by auto
  have s1: "s1 = s\<lparr>img_buffer := 14, img_x := w, img_y := h\<rparr>" using ph(4) c cs by simp
  define tw :: koi_uc where "tw = (if req_comp \<noteq> 0 \<and> req_comp \<ge> 3 then word_of_int req_comp else word_of_int (uint c))"
  have tw: "uint tw = t"
    using r c unfolding tw_def t by (auto simp add: uint_word_of_int)
  have utw: "unat tw = nat t" using tw by (simp add: unat_eq_nat_uint)
  have t4: "0 \<le> t" "t \<le> 4" using r c unfolding t by auto
  have sw: "sint w = uint w" and sh: "sint h = uint h"
    using w h by (simp_all add: sint_uint_small)
  have v: "koi__mad3sizes_valid t (uint w) (uint h) 0"
    using mad3_target [OF w h t4] fits sw sh by simp
  have nd: "\<not> uint h > KOI_MAX_DIMENSIONS" "\<not> uint w > KOI_MAX_DIMENSIONS"
    using w h by (simp_all add: KOI_MAX_DIMENSIONS_def)
  have mm: "koi__malloc_mad3 m t (uint w) (uint h) 0 = m (nat (t * uint w * uint h))"
    using v by (simp add: koi__malloc_mad3_def koi__malloc_def)
  have cv: "(req_comp \<noteq> 0 \<and> req_comp \<noteq> uint tw) = (req_comp \<noteq> 0 \<and> req_comp \<noteq> t)"
    by (simp add: tw)
  show ?thesis
  proof (cases "3 \<le> req_comp")
    case True
    then have e: "req_comp \<noteq> 0" "t = req_comp" "uint (word_of_int req_comp :: koi_uc) = req_comp"
      "unat (word_of_int req_comp :: koi_uc) = nat req_comp"
      using tw utw by (simp_all add: tw_def t)
    show ?thesis
      unfolding koi__qoi_load_def p r1 s1 Let_def
      using True e nd v mm
      by (cases "m (nat (req_comp * uint w * uint h))"; cases n) (simp_all add: sw sh cong: option.case_cong sum.case_cong if_cong)
  next
    case False
    then have e: "t = uint c" by (simp add: t)
    have nz: "(req_comp \<noteq> 0 \<and> 3 \<le> req_comp) = False" using False by simp
    have v': "koi__mad3sizes_valid (uint c) (uint w) (uint h) 0" using v e by simp
    have mm': "koi__malloc_mad3 m (uint c) (uint w) (uint h) 0 = m (nat (uint c * uint w * uint h))"
      using mm e by simp
    show ?thesis
      unfolding koi__qoi_load_def p r1 s1 Let_def e
      using False
      by (cases "m (nat (uint c * uint w * uint h))"; cases n)
         (simp_all add: nz nd v' mm' sw sh cong: option.case_cong sum.case_cong if_cong)
  qed
qed

lemma load_header_only:
  "koi_load_from_memory flip m (qoi_header w h c cs) 14 x y n r = Some (Inl Unknown_image_type, x, y, n)"
  by (simp add: koi_load_from_memory_def koi__load_and_postprocess_8bit_def koi__load_main_def
        koi__qoi_test_def koi__qoi_test_raw_def koi__start_mem_def koi__rewind_def)

lemma info_header_only:
  assumes "c = 3 \<or> c = 4" "cs = 0 \<or> cs = 1"
  shows "koi_info_from_memory (qoi_header w h c cs) 14 x y n =
     Some (Inr 1, map_option (\<lambda>_. sint w) x, map_option (\<lambda>_. sint h) y, map_option (\<lambda>_. uint c) n)"
proof -
  let ?s = "koi__start_mem (koi__context_new ()) (qoi_header w h c cs) 14"
  have ms: "mem_stream ?s (qoi_header w h c cs @ [])" "img_buffer ?s = 0"
    using start_mem_stream(1) [of "koi__context_new ()" "qoi_header w h c cs"]
    by (simp_all add: start_mem_stream)
  obtain r1 s1 where p: "koi__qoi_parse_header ?s = (r1, s1)" by (cases "koi__qoi_parse_header ?s")
  note ph = parse_header_mem [OF ms, unfolded p fst_conv snd_conv]
  show ?thesis
    using ph(1,2,3) assms
    by (auto simp add: koi_info_from_memory_def koi__info_main_def koi__qoi_info_def p
          split: option.splits)
qed

section \<open>Header validation (C5)\<close>

lemma mad3sizes_overflow:
  assumes "0 \<le> a" "0 \<le> b" "0 \<le> c" "INT_MAX < a * b * c"
  shows "\<not> koi__mad3sizes_valid a b c 0"
proof (cases "a * b \<le> INT_MAX")
  case True
  then show ?thesis using assms by (simp add: mad3sizes_valid_iff)
next
  case False
  then show ?thesis using assms(1,2) by (simp add: koi__mad3sizes_valid_def mul2sizes_valid_iff)
qed

lemma qoi_load_mem_any:
  fixes w h :: "32 word"
  assumes s: "mem_stream s (qoi_header w h c cs @ rest)" "img_buffer s = 0"
  shows "c \<noteq> 3 \<and> c \<noteq> 4 \<Longrightarrow> koi__qoi_load m s x y n req_comp = Some (Inl QOI_CHANNELS, x, y, n)"
    and "c = 3 \<or> c = 4 \<Longrightarrow> cs \<noteq> 0 \<and> cs \<noteq> 1 \<Longrightarrow>
         koi__qoi_load m s x y n req_comp = Some (Inl QOI_COLORSPACE, x, y, n)"
    and "c = 3 \<or> c = 4 \<Longrightarrow> cs = 0 \<or> cs = 1 \<Longrightarrow> 16777216 < uint w \<or> 16777216 < uint h \<Longrightarrow>
         koi__qoi_load m s x y n req_comp = Some (Inl Too_large, x, y, n)"
    and "c = 3 \<or> c = 4 \<Longrightarrow> cs = 0 \<or> cs = 1 \<Longrightarrow> uint w \<le> 16777216 \<Longrightarrow> uint h \<le> 16777216 \<Longrightarrow>
         INT_MAX < uint (if 3 \<le> req_comp then word_of_int req_comp else c) * uint w * uint h \<Longrightarrow>
         koi__qoi_load m s x y n req_comp = Some (Inl Too_large, x, y, n)"
proof -
  obtain r1 s1 where p: "koi__qoi_parse_header s = (r1, s1)" by (cases "koi__qoi_parse_header s")
  note ph = parse_header_mem [OF s, unfolded p fst_conv snd_conv]
  show "c \<noteq> 3 \<and> c \<noteq> 4 \<Longrightarrow> koi__qoi_load m s x y n req_comp = Some (Inl QOI_CHANNELS, x, y, n)"
    using ph(1) by (simp add: koi__qoi_load_def p)
  show "c = 3 \<or> c = 4 \<Longrightarrow> cs \<noteq> 0 \<and> cs \<noteq> 1 \<Longrightarrow>
         koi__qoi_load m s x y n req_comp = Some (Inl QOI_COLORSPACE, x, y, n)"
    using ph(1) by (auto simp add: koi__qoi_load_def p)
  show "c = 3 \<or> c = 4 \<Longrightarrow> cs = 0 \<or> cs = 1 \<Longrightarrow> 16777216 < uint w \<or> 16777216 < uint h \<Longrightarrow>
         koi__qoi_load m s x y n req_comp = Some (Inl Too_large, x, y, n)"
    using ph(1,2,3) by (auto simp add: koi__qoi_load_def p KOI_MAX_DIMENSIONS_def)
  show "koi__qoi_load m s x y n req_comp = Some (Inl Too_large, x, y, n)"
    if c: "c = 3 \<or> c = 4" and cs: "cs = 0 \<or> cs = 1" and w: "uint w \<le> 16777216" and h: "uint h \<le> 16777216"
      and big: "INT_MAX < uint (if 3 \<le> req_comp then word_of_int req_comp else c) * uint w * uint h"
  proof -
    define t :: koi_uc where "t = (if req_comp \<noteq> 0 \<and> req_comp \<ge> 3 then word_of_int req_comp else word_of_int (uint c))"
    have t: "t = (if 3 \<le> req_comp then word_of_int req_comp else c)"
      unfolding t_def by auto
    have sw: "sint w = uint w" and sh: "sint h = uint h"
      using w h by (simp_all add: sint_uint_small)
    have "\<not> koi__mad3sizes_valid (uint t) (uint w) (uint h) 0"
      by (rule mad3sizes_overflow) (use big t in simp_all)
    then have nv: "\<not> koi__mad3sizes_valid (uint t) (sint w) (sint h) 0"
      unfolding sw sh .
    show ?thesis
      using ph(1,2,3) c cs w h nv unfolding t_def
      by (cases "3 \<le> req_comp") (simp_all add: koi__qoi_load_def p KOI_MAX_DIMENSIONS_def Let_def)
  qed
qed

lemma load_main_short:
  assumes "length rest < 8"
  shows "koi__load_main m (koi__start_mem s0 (qoi_header w h c cs @ rest) (14 + int (length rest))) x y n r
       = Some (Inl Unknown_image_type, x, y, n)"
  using assms qoi_test_mem [of "koi__start_mem s0 (qoi_header w h c cs @ rest) (14 + int (length rest))" w h c cs rest]
    start_mem_stream(1) [of s0 "qoi_header w h c cs @ rest"]
  by (simp add: koi__load_main_def start_mem_stream)

text \<open>
  Claim C5, as the code has it.  For a memory buffer that starts with a header of width
  \<open>w\<close>, height \<open>h\<close>, channels byte \<open>c\<close> and colorspace byte \<open>cs\<close>, whatever follows the
  header, and every \<^verbatim>\<open>desired_channels\<close>: \<^verbatim>\<open>koi_load_from_memory\<close> returns \<^verbatim>\<open>NULL\<close>, with the
  reason \<^verbatim>\<open>QOI CHANNELS\<close> when \<open>c\<close> is neither 3 nor 4, with \<^verbatim>\<open>QOI COLORSPACE\<close> when \<open>cs\<close>
  is neither 0 nor 1, and with \<^verbatim>\<open>too large\<close> when the width or the height is above
  \<^verbatim>\<open>KOI_MAX_DIMENSIONS\<close> = 2^24 or when \<open>target * w * h\<close> is above \<^verbatim>\<open>INT_MAX\<close>, where
  \<open>target\<close> is the \<^verbatim>\<open>unsigned char\<close> that \<^verbatim>\<open>desired_channels\<close> is stored in when it is 3 or
  more (its value modulo 256) and the header's channels otherwise.  When fewer than 8
  bytes follow the header the format test fails first and the reason is
  \<^verbatim>\<open>unknown image type\<close>.  The result is the same for every allocator \<open>m\<close>: no block is
  asked for.  A header with \<open>c\<close> in {3, 4} and \<open>cs\<close> in {0, 1} is accepted by
  \<^verbatim>\<open>koi__qoi_parse_header\<close>.
\<close>

theorem header_validation:
  fixes w h :: "32 word" and rest :: "koi_uc list" and req_comp :: int
  shows "(c \<noteq> 3 \<and> c \<noteq> 4 \<longrightarrow>
            koi_load_from_memory flip m (qoi_header w h c cs @ rest) (14 + int (length rest)) x y n req_comp
              = Some (Inl (if length rest < 8 then Unknown_image_type else QOI_CHANNELS), x, y, n))
       \<and> ((c = 3 \<or> c = 4) \<and> cs \<noteq> 0 \<and> cs \<noteq> 1 \<longrightarrow>
            koi_load_from_memory flip m (qoi_header w h c cs @ rest) (14 + int (length rest)) x y n req_comp
              = Some (Inl (if length rest < 8 then Unknown_image_type else QOI_COLORSPACE), x, y, n))
       \<and> ((c = 3 \<or> c = 4) \<and> (cs = 0 \<or> cs = 1) \<and> (KOI_MAX_DIMENSIONS < uint w \<or> KOI_MAX_DIMENSIONS < uint h) \<longrightarrow>
            koi_load_from_memory flip m (qoi_header w h c cs @ rest) (14 + int (length rest)) x y n req_comp
              = Some (Inl (if length rest < 8 then Unknown_image_type else Too_large), x, y, n))
       \<and> ((c = 3 \<or> c = 4) \<and> (cs = 0 \<or> cs = 1) \<and> uint w \<le> KOI_MAX_DIMENSIONS \<and> uint h \<le> KOI_MAX_DIMENSIONS
            \<and> INT_MAX < uint (if 3 \<le> req_comp then word_of_int req_comp else c :: koi_uc) * uint w * uint h \<longrightarrow>
            koi_load_from_memory flip m (qoi_header w h c cs @ rest) (14 + int (length rest)) x y n req_comp
              = Some (Inl (if length rest < 8 then Unknown_image_type else Too_large), x, y, n))
       \<and> ((c = 3 \<or> c = 4) \<and> (cs = 0 \<or> cs = 1) \<longrightarrow>
            fst (koi__qoi_parse_header
                   (koi__start_mem (koi__context_new ()) (qoi_header w h c cs @ rest) (14 + int (length rest))))
              = Inr \<lparr>ch_n = c, cspace = cs\<rparr>)"
proof -
  let ?s = "koi__start_mem (koi__context_new ()) (qoi_header w h c cs @ rest) (14 + int (length rest))"
  have ms: "mem_stream ?s (qoi_header w h c cs @ rest)" "img_buffer ?s = 0"
    using start_mem_stream(1) [of "koi__context_new ()" "qoi_header w h c cs @ rest"]
    by (simp_all add: start_mem_stream)
  show ?thesis
  proof (cases "length rest < 8")
    case True
    have "koi_load_from_memory flip m (qoi_header w h c cs @ rest) (14 + int (length rest)) x y n req_comp
        = Some (Inl Unknown_image_type, x, y, n)"
      by (simp add: koi_load_from_memory_def koi__load_and_postprocess_8bit_def load_main_short [OF True])
    then show ?thesis using True parse_header_mem(1) [OF ms] by simp
  next
    case False
    then have r8: "8 \<le> length rest" by simp
    have l: "koi_load_from_memory flip m (qoi_header w h c cs @ rest) (14 + int (length rest)) x y n req_comp
      = (case koi__qoi_load m ?s x y n req_comp of
           None \<Rightarrow> None
         | Some (Inl e, x1, y1, ncomp1) \<Rightarrow> Some (Inl e, x1, y1, ncomp1)
         | Some (Inr result, x1, y1, ncomp1) \<Rightarrow>
             if flip then
               (if req_comp \<noteq> 0 then
                  Some (Inr (koi__vertical_flip 2048 result x1 y1 req_comp), x1, y1, ncomp1)
                else
                  (case ncomp1 of
                     None \<Rightarrow> None
                   | Some channels \<Rightarrow>
                       Some (Inr (koi__vertical_flip 2048 result x1 y1 channels), x1, y1, ncomp1)))
             else Some (Inr result, x1, y1, ncomp1))"
      using r8 by (simp add: koi_load_from_memory_def koi__load_and_postprocess_8bit_def load_main_mem)
    note q = qoi_load_mem_any [OF ms, where m = m and x = x and y = y and n = n and req_comp = req_comp]
    show ?thesis
      unfolding l using q parse_header_mem(1) [OF ms] False
      by (auto simp add: KOI_MAX_DIMENSIONS_def)
  qed
qed

text \<open>
  Each case of the theorem: headers followed by 8 bytes, one of them with
  \<^verbatim>\<open>desired_channels\<close> = 259, which is stored as 3, and a header followed by 7 bytes.
\<close>

theorem header_validation_witness:
  "koi_load_from_memory False (\<lambda>n. Some (replicate n 0)) (qoi_header 1 1 5 0 @ replicate 8 0) 22 0 0 (Some 0) 0
     = Some (Inl QOI_CHANNELS, 0, 0, Some 0)
   \<and> koi_load_from_memory False (\<lambda>n. Some (replicate n 0)) (qoi_header 1 1 3 2 @ replicate 8 0) 22 0 0 (Some 0) 0
     = Some (Inl QOI_COLORSPACE, 0, 0, Some 0)
   \<and> koi_load_from_memory False (\<lambda>n. Some (replicate n 0)) (qoi_header 16777217 1 3 0 @ replicate 8 0) 22 0 0 (Some 0) 0
     = Some (Inl Too_large, 0, 0, Some 0)
   \<and> koi_load_from_memory False (\<lambda>n. Some (replicate n 0)) (qoi_header 16777216 64 3 0 @ replicate 8 0) 22 0 0 (Some 0) 4
     = Some (Inl Too_large, 0, 0, Some 0)
   \<and> koi_load_from_memory False (\<lambda>n. Some (replicate n 0)) (qoi_header 16777216 64 4 0 @ replicate 8 0) 22 0 0 (Some 0) 259
     = Some (Inl Too_large, 0, 0, Some 0)
   \<and> koi_load_from_memory False (\<lambda>n. Some (replicate n 0)) (qoi_header 1 1 5 0 @ replicate 7 0) 21 0 0 (Some 0) 0
     = Some (Inl Unknown_image_type, 0, 0, Some 0)
   \<and> fst (koi__qoi_parse_header
            (koi__start_mem (koi__context_new ()) (qoi_header 1 1 3 0 @ replicate 8 0) 22))
     = Inr \<lparr>ch_n = 3, cspace = 0\<rparr>"
  using header_validation [where c = 5 and flip = False and m = "\<lambda>n. Some (replicate n 0)" and w = 1 and h = 1 and cs = 0 and rest = "replicate 8 0" and x = 0 and y = 0 and n = "Some 0" and req_comp = 0]
    header_validation [where c = 3 and flip = False and m = "\<lambda>n. Some (replicate n 0)" and w = 1 and h = 1 and cs = 2 and rest = "replicate 8 0" and x = 0 and y = 0 and n = "Some 0" and req_comp = 0]
    header_validation [where c = 3 and flip = False and m = "\<lambda>n. Some (replicate n 0)" and w = 16777217 and h = 1 and cs = 0 and rest = "replicate 8 0" and x = 0 and y = 0 and n = "Some 0" and req_comp = 0]
    header_validation [where c = 3 and flip = False and m = "\<lambda>n. Some (replicate n 0)" and w = 16777216 and h = 64 and cs = 0 and rest = "replicate 8 0" and x = 0 and y = 0 and n = "Some 0" and req_comp = 4]
    header_validation [where c = 4 and flip = False and m = "\<lambda>n. Some (replicate n 0)" and w = 16777216 and h = 64 and cs = 0 and rest = "replicate 8 0" and x = 0 and y = 0 and n = "Some 0" and req_comp = 259]
    header_validation [where c = 5 and flip = False and m = "\<lambda>n. Some (replicate n 0)" and w = 1 and h = 1 and cs = 0 and rest = "replicate 7 0" and x = 0 and y = 0 and n = "Some 0" and req_comp = 0]
    header_validation [where c = 3 and flip = False and m = "\<lambda>n. Some (replicate n 0)" and w = 1 and h = 1 and cs = 0 and rest = "replicate 8 0" and x = 0 and y = 0 and n = "Some 0" and req_comp = 0]
  by (simp add: KOI_MAX_DIMENSIONS_def INT_MAX_def)

text \<open>
  The claim as stated takes the header's channels for the size test.  With 4 channels in
  the file, 3 asked for, width 2^24 and height 40 the product 4 * 2^24 * 40 is beyond
  \<^verbatim>\<open>INT_MAX\<close>, and the decoder passes the test and asks the allocator for 3 * 2^24 * 40
  bytes: an allocator that declines exactly that size makes it fail with \<^verbatim>\<open>outofmem\<close>.
\<close>

theorem header_validation_counterexample:
  "koi_load_from_memory False (\<lambda>n. if n = 2013265920 then None else Some [])
       (qoi_header 16777216 40 4 0 @ replicate 8 0) 22 0 0 (Some 0) 3
     = Some (Inl Outofmem, 0, 0, Some 0)
   \<and> INT_MAX < 4 * 16777216 * 40"
  using qoi_load_mem_alloc [of "koi__start_mem (koi__context_new ()) (qoi_header 16777216 40 4 0 @ replicate 8 0) 22"
        16777216 40 4 0 "replicate 8 0" 3 3 "\<lambda>n. if n = 2013265920 then None else Some []" 0 0 "Some 0"]
      start_mem_stream(1) [of "koi__context_new ()" "qoi_header 16777216 40 4 0 @ replicate 8 0"]
      load_main_mem [of "replicate 8 0" "\<lambda>n. if n = 2013265920 then None else Some []" "koi__context_new ()" 16777216 40 4 0 0 0 "Some 0" 3]
  by (simp add: koi_load_from_memory_def koi__load_and_postprocess_8bit_def start_mem_stream INT_MAX_def)

section \<open>Failure leaves the outputs alone (C10)\<close>



section \<open>A buffer that is only a header (C7)\<close>

text \<open>
  C7, as the code has it.  For every buffer of 14 bytes that is a header with channels
  3 or 4 and colorspace 0 or 1, \<^verbatim>\<open>koi_info_from_memory\<close> returns 1 and stores, where the
  caller gave a place, the channels and the width and height fields converted from
  \<^verbatim>\<open>koi__uint32\<close> to \<^verbatim>\<open>int\<close>: the field's own value when that is below 2^31.
  \<^verbatim>\<open>koi_load_from_memory\<close> on the same buffer returns \<^verbatim>\<open>NULL\<close>, since
  \<^verbatim>\<open>koi__qoi_test_raw\<close> asks for 14 + 8 bytes.
\<close>

theorem header_only_info_load:
  assumes "c = 3 \<or> c = 4" and "cs = 0 \<or> cs = 1"
  shows "koi_info_from_memory (qoi_header w h c cs) 14 x y n =
           Some (Inr 1, map_option (\<lambda>_. sint w) x, map_option (\<lambda>_. sint h) y,
                 map_option (\<lambda>_. uint c) n)
       \<and> (uint w < 2147483648 \<longrightarrow> sint w = uint w)
       \<and> (uint h < 2147483648 \<longrightarrow> sint h = uint h)
       \<and> koi_load_from_memory flip m (qoi_header w h c cs) 14 x1 y1 n1 req_comp =
           Some (Inl Unknown_image_type, x1, y1, n1)"
  using info_header_only [OF assms] load_header_only sint_uint_small by blast

theorem header_only_info_load_witness:
  "koi_info_from_memory (qoi_header 640 480 4 1) 14 (Some 0) (Some 0) (Some 0) =
     Some (Inr 1, Some 640, Some 480, Some 4)
   \<and> koi_load_from_memory False (\<lambda>n. Some (replicate n 0)) (qoi_header 640 480 4 1) 14 0 0 (Some 0) 0 =
     Some (Inl Unknown_image_type, 0, 0, Some 0)"
  using header_only_info_load [of 4 1 640 480 "Some 0" "Some 0" "Some 0" False
      "\<lambda>n. Some (replicate n 0)" 0 0 "Some 0" 0]
  by simp

text \<open>
  The claim as stated fails for a width field of 2^31 or more: the \<^verbatim>\<open>int\<close> that
  \<^verbatim>\<open>koi_info_from_memory\<close> reports is negative.
\<close>

theorem header_only_info_counterexample:
  "koi_info_from_memory (qoi_header 0x80000000 1 3 0) 14 (Some 0) (Some 0) (Some 0) =
     Some (Inr 1, Some (- 2147483648), Some 1, Some 3)
   \<and> uint (0x80000000 :: 32 word) \<noteq> - 2147483648"
  using info_header_only [of 3 0 "0x80000000" 1 "Some 0" "Some 0" "Some 0"]
  by simp

section \<open>The input stream (C9)\<close>

lemma get8_exhausted:
  "\<not> read_from_callbacks s \<Longrightarrow> img_buffer_end s \<le> img_buffer s \<Longrightarrow> koi__get8 s = (0, s)"
  by (simp add: koi__get8_def)

lemma get8_n_exhausted:
  "\<not> read_from_callbacks s \<Longrightarrow> img_buffer_end s \<le> img_buffer s \<Longrightarrow>
   koi__get8_n k s = (replicate k 0, s)"
  by (induction k) (simp_all add: get8_exhausted)

lemma refill_inv:
  assumes "io_read s = Some rd" "0 \<le> fst (snd (rd (io_user_data s) (buflen s)))"
  shows "img_buffer (koi__refill_buffer s) \<le> img_buffer_end (koi__refill_buffer s)"
    and "io_read (koi__refill_buffer s) = io_read s"
    and "img_buffer (koi__refill_buffer s) = 0"
    and "0 < img_buffer_end (koi__refill_buffer s)"
  using assms
  by (auto simp add: koi__refill_buffer_def Let_def split: prod.splits)

lemma get8_inv:
  assumes "img_buffer s \<le> img_buffer_end s"
    and "read_from_callbacks s \<and> img_buffer s = img_buffer_end s \<longrightarrow>
         (\<exists>rd. io_read s = Some rd \<and> 0 \<le> fst (snd (rd (io_user_data s) (buflen s))))"
  shows "img_buffer (snd (koi__get8 s)) \<le> img_buffer_end (snd (koi__get8 s))"
proof (cases "img_buffer s < img_buffer_end s")
  case True
  then show ?thesis by (simp add: koi__get8_def)
next
  case False
  then have e: "img_buffer s = img_buffer_end s" using assms(1) by simp
  show ?thesis
  proof (cases "read_from_callbacks s")
    case True
    then obtain rd where r: "io_read s = Some rd" "0 \<le> fst (snd (rd (io_user_data s) (buflen s)))"
      using assms(2) e by blast
    show ?thesis
      using False True refill_inv(3,4) [OF r]
      by (simp add: koi__get8_def Let_def)
  next
    case f: False
    then show ?thesis using False assms(1) by (simp add: koi__get8_def)
  qed
qed

lemma start_callbacks_inv:
  assumes "0 \<le> fst (snd (c user 128))"
  shows "img_buffer (koi__start_callbacks s c user) \<le> img_buffer_end (koi__start_callbacks s c user)"
    and "io_read (koi__start_callbacks s c user) = Some c"
proof -
  let ?s0 = "s\<lparr>io_read := Some c, io_user_data := user, buflen := 128,
                read_from_callbacks := True, callback_already_read := 0,
                img_region := Buffer_start, img_buffer := 0, img_buffer_original := 0\<rparr>"
  have r: "io_read ?s0 = Some c" "0 \<le> fst (snd (c (io_user_data ?s0) (buflen ?s0)))"
    using assms by simp_all
  show "img_buffer (koi__start_callbacks s c user) \<le> img_buffer_end (koi__start_callbacks s c user)"
    using refill_inv(1) [OF r] by (simp add: koi__start_callbacks_def Let_def)
  show "io_read (koi__start_callbacks s c user) = Some c"
    using refill_inv(2) [OF r] by (simp add: koi__start_callbacks_def Let_def)
qed

text \<open>
  The state a refill leaves when the callback has returned 0: a zero byte at the start of
  \<^verbatim>\<open>buffer_start\<close>, the cursor on it, the end after it, and no more refills.
\<close>

lemma eof_state:
  assumes "\<not> read_from_callbacks s" "img_region s = Buffer_start" "img_buffer s = 0"
    "img_buffer_end s = 1" "buffer_start s ! 0 = 0"
  shows "koi__get8_n k s = (replicate k 0, if k = 0 then s else s\<lparr>img_buffer := 1\<rparr>)"
proof (cases k)
  case 0
  then show ?thesis by simp
next
  case (Suc j)
  have g: "koi__get8 s = (0, s\<lparr>img_buffer := 1\<rparr>)"
    using assms by (simp add: koi__get8_def koi__deref_def)
  have "koi__get8_n j (s\<lparr>img_buffer := 1\<rparr>) = (replicate j 0, s\<lparr>img_buffer := 1\<rparr>)"
    by (rule get8_n_exhausted) (use assms in simp_all)
  then show ?thesis using Suc g by simp
qed

lemma refill_eof:
  assumes "io_read s = Some rd" "fst (snd (rd (io_user_data s) (buflen s))) = 0"
    "length (buffer_start s) = 128"
  shows "\<not> read_from_callbacks (koi__refill_buffer s)"
    and "img_region (koi__refill_buffer s) = Buffer_start"
    and "img_buffer (koi__refill_buffer s) = 0"
    and "img_buffer_end (koi__refill_buffer s) = 1"
    and "buffer_start (koi__refill_buffer s) ! 0 = 0"
  using assms
  by (auto simp add: koi__refill_buffer_def Let_def split: prod.splits)

lemma start_callbacks_eof:
  assumes "fst (snd (c user 128)) = 0" "length (buffer_start s) = 128"
  shows "koi__get8_n k (koi__start_callbacks s c user) =
           (replicate k 0,
            if k = 0 then koi__start_callbacks s c user
            else (koi__start_callbacks s c user)\<lparr>img_buffer := 1\<rparr>)"
proof -
  let ?s0 = "s\<lparr>io_read := Some c, io_user_data := user, buflen := 128,
                read_from_callbacks := True, callback_already_read := 0,
                img_region := Buffer_start, img_buffer := 0, img_buffer_original := 0\<rparr>"
  have r: "io_read ?s0 = Some c" "fst (snd (c (io_user_data ?s0) (buflen ?s0))) = 0"
    "length (buffer_start ?s0) = 128"
    using assms by simp_all
  note e = refill_eof [OF r]
  show ?thesis
    by (rule eof_state) (use e in \<open>simp_all add: koi__start_callbacks_def Let_def\<close>)
qed

lemma get8_eof:
  assumes "io_read s = Some rd" "fst (snd (rd (io_user_data s) (buflen s))) = 0"
    "read_from_callbacks s" "img_buffer s = img_buffer_end s" "length (buffer_start s) = 128"
  shows "fst (koi__get8 s) = 0"
    and "koi__get8_n k (snd (koi__get8 s)) = (replicate k 0, snd (koi__get8 s))"
proof -
  note e = refill_eof [OF assms(1,2,5)]
  have g: "koi__get8 s = (0, (koi__refill_buffer s)\<lparr>img_buffer := 1\<rparr>)"
    using assms(3,4) e by (simp add: koi__get8_def Let_def koi__deref_def)
  show "fst (koi__get8 s) = 0" using g by simp
  show "koi__get8_n k (snd (koi__get8 s)) = (replicate k 0, snd (koi__get8 s))"
    unfolding g snd_conv by (rule get8_n_exhausted) (use e in simp_all)
qed

text \<open>
  Claim C9, with what the code leaves to its callers.  For a length \<open>len\<close> that is not
  negative, \<^verbatim>\<open>koi__start_mem\<close> leaves the cursor \<^verbatim>\<open>img_buffer\<close> at or before
  \<^verbatim>\<open>img_buffer_end\<close>.  Where the read callback returns an \<^verbatim>\<open>int\<close> that is not negative,
  \<^verbatim>\<open>koi__start_callbacks\<close> and \<^verbatim>\<open>koi__refill_buffer\<close> leave it so, and \<^verbatim>\<open>koi__get8\<close> keeps
  it so (the callback matters only when the call refills).  Once the cursor of a memory
  stream is at the end, any number \<open>k\<close> of \<^verbatim>\<open>koi__get8\<close> calls return 0 and leave the
  context as it is.  Once the read callback has returned 0, in a context whose
  \<^verbatim>\<open>buffer_start\<close> is its array of 128 bytes: after \<^verbatim>\<open>koi__refill_buffer\<close> and after
  \<^verbatim>\<open>koi__start_callbacks\<close>, any number of \<^verbatim>\<open>koi__get8\<close> calls return 0 and change nothing
  but the cursor, which the first of them moves over the zero byte that the refill stored;
  and when it is a \<^verbatim>\<open>koi__get8\<close> that refilled, that call returns 0 and any number of
  calls after it return 0 and leave the context as it is.
\<close>

theorem stream_invariant:
  "(0 \<le> len \<longrightarrow>
      img_buffer (koi__start_mem sa buf len) \<le> img_buffer_end (koi__start_mem sa buf len) \<and>
      \<not> read_from_callbacks (koi__start_mem sa buf len))
   \<and> (0 \<le> fst (snd (c user 128)) \<longrightarrow>
        img_buffer (koi__start_callbacks sa c user) \<le> img_buffer_end (koi__start_callbacks sa c user) \<and>
        io_read (koi__start_callbacks sa c user) = Some c)
   \<and> (io_read sr = Some rd \<and> 0 \<le> fst (snd (rd (io_user_data sr) (buflen sr))) \<longrightarrow>
        img_buffer (koi__refill_buffer sr) \<le> img_buffer_end (koi__refill_buffer sr) \<and>
        io_read (koi__refill_buffer sr) = io_read sr)
   \<and> (img_buffer sg \<le> img_buffer_end sg \<and>
       (read_from_callbacks sg \<and> img_buffer sg = img_buffer_end sg \<longrightarrow>
          (\<exists>rg. io_read sg = Some rg \<and> 0 \<le> fst (snd (rg (io_user_data sg) (buflen sg))))) \<longrightarrow>
        img_buffer (snd (koi__get8 sg)) \<le> img_buffer_end (snd (koi__get8 sg)))
   \<and> (\<not> read_from_callbacks sm \<and> img_buffer sm = img_buffer_end sm \<longrightarrow>
        koi__get8_n k sm = (replicate k 0, sm))
   \<and> (io_read se = Some re \<and> fst (snd (re (io_user_data se) (buflen se))) = 0 \<and>
       length (buffer_start se) = 128 \<longrightarrow>
        koi__get8_n k (koi__refill_buffer se) =
          (replicate k 0,
           if k = 0 then koi__refill_buffer se else (koi__refill_buffer se)\<lparr>img_buffer := 1\<rparr>))
   \<and> (fst (snd (c0 user0 128)) = 0 \<and> length (buffer_start sb) = 128 \<longrightarrow>
        koi__get8_n k (koi__start_callbacks sb c0 user0) =
          (replicate k 0,
           if k = 0 then koi__start_callbacks sb c0 user0
           else (koi__start_callbacks sb c0 user0)\<lparr>img_buffer := 1\<rparr>))
   \<and> (io_read sc = Some rc \<and> fst (snd (rc (io_user_data sc) (buflen sc))) = 0 \<and>
       read_from_callbacks sc \<and> img_buffer sc = img_buffer_end sc \<and> length (buffer_start sc) = 128 \<longrightarrow>
        fst (koi__get8 sc) = 0 \<and>
        koi__get8_n k (snd (koi__get8 sc)) = (replicate k 0, snd (koi__get8 sc)))"
proof -
  have a: "0 \<le> len \<longrightarrow>
      img_buffer (koi__start_mem sa buf len) \<le> img_buffer_end (koi__start_mem sa buf len) \<and>
      \<not> read_from_callbacks (koi__start_mem sa buf len)"
    by (simp add: koi__start_mem_def)
  have b: "0 \<le> fst (snd (c user 128)) \<longrightarrow>
        img_buffer (koi__start_callbacks sa c user) \<le> img_buffer_end (koi__start_callbacks sa c user) \<and>
        io_read (koi__start_callbacks sa c user) = Some c"
    using start_callbacks_inv [of c user sa] by blast
  have r: "io_read sr = Some rd \<and> 0 \<le> fst (snd (rd (io_user_data sr) (buflen sr))) \<longrightarrow>
        img_buffer (koi__refill_buffer sr) \<le> img_buffer_end (koi__refill_buffer sr) \<and>
        io_read (koi__refill_buffer sr) = io_read sr"
    using refill_inv(1,2) [of sr rd] by blast
  have g: "img_buffer sg \<le> img_buffer_end sg \<and>
       (read_from_callbacks sg \<and> img_buffer sg = img_buffer_end sg \<longrightarrow>
          (\<exists>rg. io_read sg = Some rg \<and> 0 \<le> fst (snd (rg (io_user_data sg) (buflen sg))))) \<longrightarrow>
        img_buffer (snd (koi__get8 sg)) \<le> img_buffer_end (snd (koi__get8 sg))"
    using get8_inv [of sg] by blast
  have e: "\<not> read_from_callbacks sm \<and> img_buffer sm = img_buffer_end sm \<longrightarrow>
        koi__get8_n k sm = (replicate k 0, sm)"
    by (simp add: get8_n_exhausted)
  have f1: "io_read se = Some re \<and> fst (snd (re (io_user_data se) (buflen se))) = 0 \<and>
       length (buffer_start se) = 128 \<longrightarrow>
        koi__get8_n k (koi__refill_buffer se) =
          (replicate k 0,
           if k = 0 then koi__refill_buffer se else (koi__refill_buffer se)\<lparr>img_buffer := 1\<rparr>)"
  proof (intro impI, elim conjE)
    assume h: "io_read se = Some re" "fst (snd (re (io_user_data se) (buflen se))) = 0"
      "length (buffer_start se) = 128"
    show "koi__get8_n k (koi__refill_buffer se) =
          (replicate k 0,
           if k = 0 then koi__refill_buffer se else (koi__refill_buffer se)\<lparr>img_buffer := 1\<rparr>)"
      by (rule eof_state) (rule refill_eof [OF h])+
  qed
  have f2: "fst (snd (c0 user0 128)) = 0 \<and> length (buffer_start sb) = 128 \<longrightarrow>
        koi__get8_n k (koi__start_callbacks sb c0 user0) =
          (replicate k 0,
           if k = 0 then koi__start_callbacks sb c0 user0
           else (koi__start_callbacks sb c0 user0)\<lparr>img_buffer := 1\<rparr>)"
    using start_callbacks_eof [of c0 user0 sb k] by blast
  have f3: "io_read sc = Some rc \<and> fst (snd (rc (io_user_data sc) (buflen sc))) = 0 \<and>
       read_from_callbacks sc \<and> img_buffer sc = img_buffer_end sc \<and> length (buffer_start sc) = 128 \<longrightarrow>
        fst (koi__get8 sc) = 0 \<and>
        koi__get8_n k (snd (koi__get8 sc)) = (replicate k 0, snd (koi__get8 sc))"
    using get8_eof(1) [of sc rc] get8_eof(2) [of sc rc k] by blast
  show ?thesis
    using a b r g e f1 f2 f3 by (intro conjI)
qed

text \<open>
  The theorem at a memory stream of two bytes and at an empty one, at a callback that
  returns 0 at once, and at a refill that reads one byte.
\<close>

theorem stream_invariant_witness:
  "img_buffer (koi__start_mem (koi__context_new ()) [1, 2] 2)
     \<le> img_buffer_end (koi__start_mem (koi__context_new ()) [1, 2] 2)
   \<and> img_buffer (koi__start_callbacks (koi__context_new ()) (\<lambda>u n. ([], 0, u)) ())
     \<le> img_buffer_end (koi__start_callbacks (koi__context_new ()) (\<lambda>u n. ([], 0, u)) ())
   \<and> img_buffer (koi__refill_buffer ((koi__context_new ())\<lparr>io_read := Some (\<lambda>u n. ([7], 1, u))\<rparr>))
     \<le> img_buffer_end (koi__refill_buffer ((koi__context_new ())\<lparr>io_read := Some (\<lambda>u n. ([7], 1, u))\<rparr>))
   \<and> img_buffer (snd (koi__get8 (koi__start_mem (koi__context_new ()) [1, 2] 2)))
     \<le> img_buffer_end (snd (koi__get8 (koi__start_mem (koi__context_new ()) [1, 2] 2)))
   \<and> koi__get8_n 3 (koi__start_mem (koi__context_new ()) [] 0)
     = ([0, 0, 0], koi__start_mem (koi__context_new ()) [] 0)
   \<and> koi__get8_n 3 (koi__refill_buffer ((koi__context_new ())\<lparr>io_read := Some (\<lambda>u n. ([], 0, u))\<rparr>))
     = ([0, 0, 0],
        (koi__refill_buffer ((koi__context_new ())\<lparr>io_read := Some (\<lambda>u n. ([], 0, u))\<rparr>))\<lparr>img_buffer := 1\<rparr>)
   \<and> koi__get8_n 3 (koi__start_callbacks (koi__context_new ()) (\<lambda>u n. ([], 0, u)) ())
     = ([0, 0, 0], (koi__start_callbacks (koi__context_new ()) (\<lambda>u n. ([], 0, u)) ())\<lparr>img_buffer := 1\<rparr>)
   \<and> fst (koi__get8 ((koi__context_new ())\<lparr>io_read := Some (\<lambda>u n. ([], 0, u)), read_from_callbacks := True\<rparr>)) = 0
   \<and> koi__get8_n 3 (snd (koi__get8 ((koi__context_new ())\<lparr>io_read := Some (\<lambda>u n. ([], 0, u)), read_from_callbacks := True\<rparr>)))
     = ([0, 0, 0], snd (koi__get8 ((koi__context_new ())\<lparr>io_read := Some (\<lambda>u n. ([], 0, u)), read_from_callbacks := True\<rparr>)))"
  using stream_invariant [where len = 2 and sa = "koi__context_new ()" and buf = "[1, 2]"
      and c = "\<lambda>u n. ([], 0, u)" and user = "()"
      and sr = "(koi__context_new ())\<lparr>io_read := Some (\<lambda>u n. ([7], 1, u))\<rparr>"
      and rd = "\<lambda>u n. ([7], 1, u)"
      and sg = "koi__start_mem (koi__context_new ()) [1, 2] 2"
      and sm = "koi__start_mem (koi__context_new ()) [] 0" and k = 3
      and se = "(koi__context_new ())\<lparr>io_read := Some (\<lambda>u n. ([], 0, u))\<rparr>"
      and re = "\<lambda>u n. ([], 0, u)"
      and sb = "koi__context_new ()" and ?c0.0 = "\<lambda>u n. ([], 0, u)" and ?user0.0 = "()"
      and sc = "(koi__context_new ())\<lparr>io_read := Some (\<lambda>u n. ([], 0, u)), read_from_callbacks := True\<rparr>"
      and rc = "\<lambda>u n. ([], 0, u)"]
  by (simp add: koi__start_mem_def koi__context_new_def numeral_3_eq_3)

text \<open>
  The claim as stated has no condition on the length or on the callback.  The code tests
  neither: \<^verbatim>\<open>koi__start_mem\<close> with the length -1 leaves the end before the cursor, and so
  does a refill whose callback returns -1.
\<close>

theorem stream_invariant_counterexample:
  "img_buffer_end (koi__start_mem (koi__context_new ()) [] (- 1))
     < img_buffer (koi__start_mem (koi__context_new ()) [] (- 1))
   \<and> img_buffer_end (koi__refill_buffer ((koi__context_new ())\<lparr>io_read := Some (\<lambda>u n. ([], - 1, u))\<rparr>))
     < img_buffer (koi__refill_buffer ((koi__context_new ())\<lparr>io_read := Some (\<lambda>u n. ([], - 1, u))\<rparr>))"
  by (simp add: koi__start_mem_def koi__refill_buffer_def koi__context_new_def)

section \<open>The writer's buffer and the encoder's steps\<close>

lemma take_update1:
  "n < length xs \<Longrightarrow> take (Suc n) (xs[n := a]) = take n xs @ [a]"
  by (simp add: take_Suc_conv_app_nth)

lemma take_update3:
  "n + 3 \<le> length xs \<Longrightarrow>
   take (n + 3) (xs[n := a, n + 1 := b, n + 2 := c]) = take n xs @ [a, b, c]"
proof -
  assume l: "n + 3 \<le> length xs"
  have "take (Suc (Suc (Suc n))) (xs[n := a, Suc n := b, Suc (Suc n) := c]) = take n xs @ [a, b, c]"
    using l by (simp add: take_Suc_conv_app_nth)
  then show ?thesis by (simp add: eval_nat_numeral)
qed

lemma flush_written:
  "func_out (koiw__write_flush s) = written s" "buf_used (koiw__write_flush s) = 0"
  "buffer (koiw__write_flush s) = buffer s"
  by (simp_all add: koiw__write_flush_def written_def func_def)

lemma write1_written:
  assumes "wctx_ok s"
  shows "written (koiw__write1 s a) = written s @ [a]" "wctx_ok (koiw__write1 s a)"
proof -
  show "written (koiw__write1 s a) = written s @ [a]"
  proof (cases "buf_used s + 1 > 64")
    case True
    then have "buf_used s = 64" using assms by (simp add: wctx_ok_def)
    then show ?thesis
      using assms take_update1 [of 0 "buffer s" a]
      by (simp add: koiw__write1_def koiw__write_flush_def func_def written_def wctx_ok_def)
  next
    case False
    then show ?thesis
      using assms by (simp add: koiw__write1_def written_def wctx_ok_def take_update1)
  qed
  show "wctx_ok (koiw__write1 s a)"
    using assms by (auto simp add: koiw__write1_def koiw__write_flush_def func_def wctx_ok_def)
qed

lemma write3_written:
  assumes "wctx_ok s"
  shows "written (koiw__write3 s a b c) = written s @ [a, b, c]" "wctx_ok (koiw__write3 s a b c)"
proof -
  show "written (koiw__write3 s a b c) = written s @ [a, b, c]"
  proof (cases "buf_used s + 3 > 64")
    case True
    then have "buf_used s \<noteq> 0" by simp
    then show ?thesis
      using assms True take_update3 [of 0 "buffer s" a b c]
      by (simp add: koiw__write3_def koiw__write_flush_def func_def written_def wctx_ok_def Let_def)
  next
    case False
    then show ?thesis
      using assms take_update3 [of "buf_used s" "buffer s" a b c]
      by (simp add: koiw__write3_def written_def wctx_ok_def Let_def)
  qed
  show "wctx_ok (koiw__write3 s a b c)"
    using assms by (auto simp add: koiw__write3_def koiw__write_flush_def func_def wctx_ok_def Let_def)
qed

lemma write_pixel_written:
  assumes "wctx_ok s"
  shows "written (koiw__write_pixel s 1 0 0 1 (color px)) = written s"
    "written (koiw__write_pixel s 1 3 0 1 (color px)) = written s @ [px_r px, px_g px, px_b px]"
    "written (koiw__write_pixel s 1 4 1 1 (color px)) = written s @ [px_r px, px_g px, px_b px, px_a px]"
    "wctx_ok (koiw__write_pixel s 1 0 0 1 (color px))"
    "wctx_ok (koiw__write_pixel s 1 3 0 1 (color px))"
    "wctx_ok (koiw__write_pixel s 1 4 1 1 (color px))"
  using assms
  by (simp_all add: koiw__write_pixel_def color_def write3_written write1_written)

lemma op_run_view:
  assumes "wctx_ok (e_ctx st)"
  shows "enc_view (koiw__qoi_op_run st run) =
           (0, e_prev_px st, e_index st, written (e_ctx st) @ [0xc0 OR (run - 1)],
            e_run_ops st @ [0xc0 OR (run - 1)])"
    and "wctx_ok (e_ctx (koiw__qoi_op_run st run))"
  using assms by (simp_all add: koiw__qoi_op_run_def enc_view_def Let_def write1_written)

lemma list_update_same: "xs ! i = v \<Longrightarrow> xs[i := v] = xs"
  by auto

lemma op_color_view:
  assumes "wctx_ok (e_ctx st)"
  shows "enc_view (koiw__qoi_op_color prev px st) =
           (e_run st, e_prev_px st, (e_index st)[KOIW_QOI_COLOR_HASH px AND (64 - 1) := px],
            written (e_ctx st) @ qoi_color_bytes prev px (e_index st), e_run_ops st)"
    and "wctx_ok (e_ctx (koiw__qoi_op_color prev px st))"
proof -
  show "enc_view (koiw__qoi_op_color prev px st) =
           (e_run st, e_prev_px st, (e_index st)[KOIW_QOI_COLOR_HASH px AND (64 - 1) := px],
            written (e_ctx st) @ qoi_color_bytes prev px (e_index st), e_run_ops st)"
  proof (cases "e_index st ! (KOIW_QOI_COLOR_HASH px AND (64 - 1)) = px")
    case True
    then show ?thesis
      using assms
      by (simp add: koiw__qoi_op_color_def qoi_color_bytes_def enc_view_def Let_def
            write1_written list_update_same)
  next
    case False
    then show ?thesis
      using assms
      by (simp add: koiw__qoi_op_color_def qoi_color_bytes_def enc_view_def Let_def
            write1_written write_pixel_written)
  qed
  show "wctx_ok (e_ctx (koiw__qoi_op_color prev px st))"
    using assms
    by (simp add: koiw__qoi_op_color_def Let_def write1_written write_pixel_written)
qed

lemma encode_px_view:
  assumes "wctx_ok (e_ctx st)"
  shows "enc_view (koiw__qoi_encode_px is_last px st) = qoi_px_step is_last px (enc_view st)"
    and "wctx_ok (e_ctx (koiw__qoi_encode_px is_last px st))"
proof -
  note r = op_run_view [OF assms, of "e_run st"]
  note c0 = op_color_view [OF assms, of "e_prev_px st" px]
  note c1 = op_color_view [OF r(2), of "e_prev_px st" px]
  have rv: "e_run (koiw__qoi_op_run st (e_run st)) = 0"
      "e_prev_px (koiw__qoi_op_run st (e_run st)) = e_prev_px st"
      "e_index (koiw__qoi_op_run st (e_run st)) = e_index st"
      "e_run_ops (koiw__qoi_op_run st (e_run st)) = e_run_ops st @ [0xc0 OR (e_run st - 1)]"
      "written (e_ctx (koiw__qoi_op_run st (e_run st))) = written (e_ctx st) @ [0xc0 OR (e_run st - 1)]"
    using r(1) by (simp_all add: enc_view_def)
  show "enc_view (koiw__qoi_encode_px is_last px st) = qoi_px_step is_last px (enc_view st)"
  proof (cases "px = e_prev_px st")
    case True
    then show ?thesis
      using op_run_view(1) [OF assms, of "e_run st + 1"]
      by (simp add: koiw__qoi_encode_px_def Let_def enc_view_def)
  next
    case False
    show ?thesis
    proof (cases "e_run st > 0")
      case True
      then show ?thesis
        using False c1(1) rv
        by (simp add: koiw__qoi_encode_px_def Let_def enc_view_def)
    next
      case f: False
      then show ?thesis
        using False c0(1)
        by (simp add: koiw__qoi_encode_px_def Let_def enc_view_def word_gt_0)
    qed
  qed
  show "wctx_ok (e_ctx (koiw__qoi_encode_px is_last px st))"
    using assms
    by (auto simp add: koiw__qoi_encode_px_def Let_def op_run_view(2) op_color_view(2))
qed

lemma body_pixel:
  assumes c: "ncomp = 3 \<or> ncomp = 4" and x: "0 < x" and y: "0 \<le> y"
    and k: "k < nat (x * y)" and l: "length data = nat (x * y * ncomp)"
  shows "koiw__qoi_body False x y ncomp data k st =
           Some (koiw__qoi_encode_px (k = nat (x * y) - 1) (qoi_pixel_at ncomp data k) st)"
proof -
  have off: "int k div x * x * ncomp + int k mod x * ncomp = int k * ncomp"
    by (metis div_mult_mod_eq distrib_right)
  have "int k + 1 \<le> x * y" using k by linarith
  then have "(int k + 1) * ncomp \<le> x * y * ncomp" using c by (intro mult_right_mono) auto
  then have b: "int k * ncomp + ncomp \<le> int (length data)"
    using l c x y by (simp add: distrib_right)
  have e: "(if False then y - 1 else 0) + int k div x * (if False then - 1 else 1) = int k div x"
    by simp
  have body: "koiw__qoi_body False x y ncomp data k st =
      (if int k * ncomp < 0 then None
       else case koi_read_qoi_pixel ncomp (ncomp = 2 \<or> ncomp = 4) (drop (nat (int k * ncomp)) data) of
              None \<Rightarrow> None
            | Some px \<Rightarrow> Some (koiw__qoi_encode_px (k = nat (x * y) - 1) px st))"
    unfolding koiw__qoi_body_def Let_def e off ..
  from c show ?thesis
  proof
    assume c3: "ncomp = 3"
    have n: "nat (int k * 3) = 3 * k" by (simp add: nat_mult_distrib)
    have "3 * k + 3 \<le> length data" using b c3 by simp
    then show ?thesis
      unfolding body unfolding c3 n
      by (simp add: koi_read_qoi_pixel_def qoi_pixel_at_def add.commute)
  next
    assume c4: "ncomp = 4"
    have n: "nat (int k * 4) = 4 * k" by (simp add: nat_mult_distrib)
    have "4 * k + 4 \<le> length data" using b c4 by simp
    then show ?thesis
      unfolding body unfolding c4 n
      by (simp add: koi_read_qoi_pixel_def qoi_pixel_at_def add.commute)
  qed
qed

lemma loop_view:
  assumes c: "ncomp = 3 \<or> ncomp = 4" and x: "0 < x" and y: "0 \<le> y"
    and l: "length data = nat (x * y * ncomp)" and ok: "wctx_ok (e_ctx st0)"
    and n: "n \<le> nat (x * y)"
  shows "\<exists>st. koiw__qoi_loop False x y ncomp data st0 n = Some st
            \<and> enc_view st = qoi_view_after (qoi_pixel_at ncomp data) (nat (x * y)) (enc_view st0) n
            \<and> wctx_ok (e_ctx st)"
  using n
proof (induction n)
  case 0
  then show ?case using ok by simp
next
  case (Suc n)
  then obtain st where st: "koiw__qoi_loop False x y ncomp data st0 n = Some st"
    "enc_view st = qoi_view_after (qoi_pixel_at ncomp data) (nat (x * y)) (enc_view st0) n"
    "wctx_ok (e_ctx st)" by auto
  have k: "n < nat (x * y)" using Suc.prems by simp
  show ?case
    using st body_pixel [OF c x y k l, of st] encode_px_view [OF st(3)]
    by simp
qed

section \<open>The encoded stream\<close>

lemma KOIW_UCHAR_eq: "KOIW_UCHAR x = word_of_int x"
proof -
  have "x AND 255 = take_bit 8 x" by (simp add: take_bit_eq_mask mask_eq_exp_minus_1)
  then show ?thesis by (simp add: KOIW_UCHAR_def word_of_int_eq_iff)
qed

lemma put32be_bytes: "koiw__put32be s w = func s (be32_bytes w)"
  by (simp add: koiw__put32be_def be32_bytes_def KOIW_UCHAR_eq del: drop_bit_word_numeral)

lemma func_func: "func (func s a) b = func s (a @ b)"
  by (simp add: func_def)

lemma write_header:
  "koiw__writef s True ''1111 44 11''
     [of_char CHR ''q'', of_char CHR ''o'', of_char CHR ''i'', of_char CHR ''f'', x, y, c, cs]
   = func s (qoi_header (word_of_int x) (word_of_int y) (word_of_int c) (word_of_int cs))"
  by (simp add: koiw__writef_def koiw__put8_def put32be_bytes func_func KOIW_UCHAR_eq qoi_header_def
        be32_bytes_def del: drop_bit_word_numeral)

lemma write_trailer:
  "koiw__writef s True ''11111111'' [0, 0, 0, 0, 0, 0, 0, 1] = func s qoi_trailer"
  by (simp add: koiw__writef_def koiw__put8_def func_func KOIW_UCHAR_eq qoi_trailer_def)

lemma encode_to_func:
  assumes c: "ncomp = 3 \<or> ncomp = 4" and x: "0 < x" and y: "0 \<le> y"
    and l: "length data = nat (x * y * ncomp)" and m: "x * y * ncomp \<le> INT_MAX"
  shows "koi_write_qoi_to_func False cs x y ncomp data =
     Some (Inr (view_out (qoi_view_after (qoi_pixel_at ncomp data) (nat (x * y))
                  (0, Pixel 0 0 0 255, replicate 64 (Pixel 0 0 0 0),
                   qoi_header (word_of_int x) (word_of_int y) (word_of_int ncomp)
                     (if cs \<noteq> 0 then 1 else 0), [])
                  (nat (x * y)))
                @ qoi_trailer))"
proof -
  let ?h = "qoi_header (word_of_int x) (word_of_int y) (word_of_int ncomp) (if cs \<noteq> 0 then 1 else 0)"
  let ?s1 = "func koi__write_context_zero ?h"
  have ok: "wctx_ok (e_ctx (koiw__qoi_state_init ?s1))"
    by (simp add: koiw__qoi_state_init_def wctx_ok_def func_def koi__write_context_zero_def)
  have v0: "enc_view (koiw__qoi_state_init ?s1) =
      (0, Pixel 0 0 0 255, replicate 64 (Pixel 0 0 0 0), ?h, [])"
    by (simp add: koiw__qoi_state_init_def enc_view_def written_def func_def koi__write_context_zero_def)
  obtain st where st: "koiw__qoi_loop False x y ncomp data (koiw__qoi_state_init ?s1) (nat (x * y)) = Some st"
    "enc_view st = qoi_view_after (qoi_pixel_at ncomp data) (nat (x * y))
                     (enc_view (koiw__qoi_state_init ?s1)) (nat (x * y))"
    "wctx_ok (e_ctx st)"
    using loop_view [OF c x y l ok order_refl] by blast
  have nn: "0 \<le> x * y" using x y by simp
  have "x * y * 1 \<le> x * y * ncomp" using c nn by (intro mult_left_mono) auto
  then have xy: "x * y \<le> INT_MAX" using m by simp
  have g: "\<not> (y < 0 \<or> x < 0)" "\<not> (x * y > INT_MAX \<or> x * y * ncomp > INT_MAX)"
    using x y m xy by simp_all
  have hd: "(if ncomp = 2 \<or> ncomp = 4 then 4 else (3::int)) = ncomp" using c by auto
  have w: "written (e_ctx st) = view_out (qoi_view_after (qoi_pixel_at ncomp data) (nat (x * y))
                     (enc_view (koiw__qoi_state_init ?s1)) (nat (x * y)))"
    unfolding st(2) [symmetric] by (simp add: enc_view_def view_out_def)
  have cs': "(word_of_int (if cs \<noteq> 0 then 1 else 0) :: koiw_uc) = (if cs \<noteq> 0 then 1 else 0)" by simp
  have fin: "func_out (func (koiw__write_flush (e_ctx st)) qoi_trailer) = written (e_ctx st) @ qoi_trailer"
    by (simp add: func_def flush_written)
  show ?thesis
    unfolding koi_write_qoi_to_func_def koi_write_qoi_core_def Let_def hd write_header cs'
    using g st(1)
    by (simp add: write_trailer fin w [unfolded v0])
qed

lemma qoi_view_after_numeral:
  "qoi_view_after pix len v (numeral k) =
     qoi_px_step (pred_numeral k = len - 1) (pix (pred_numeral k))
       (qoi_view_after pix len v (pred_numeral k))"
  by (simp add: numeral_eq_Suc)

lemma hash_mod: "KOIW_QOI_COLOR_HASH px AND (64 - 1) = KOIW_QOI_COLOR_HASH px mod 64"
proof -
  have a: "mask 6 = (63::nat)" by (simp add: mask_eq_exp_minus_1)
  have "KOIW_QOI_COLOR_HASH px AND mask 6 = take_bit 6 (KOIW_QOI_COLOR_HASH px)"
    by (simp only: take_bit_eq_mask)
  then have "KOIW_QOI_COLOR_HASH px AND 63 = KOIW_QOI_COLOR_HASH px mod 2 ^ 6"
    unfolding a by (simp only: take_bit_eq_mod)
  then show ?thesis by simp
qed

lemma enc_6:
  "koi_write_qoi_to_func False 0 1 1 3 [12, 34, 56] =
     Some (Inr [0x71, 0x6f, 0x69, 0x66, 0, 0, 0, 1, 0, 0, 0, 1, 3, 0, 0xFE, 0x0C, 0x22, 0x38,
                0, 0, 0, 0, 0, 0, 0, 1])"
proof -
  have "koi_write_qoi_to_func False 0 1 1 3 [12, 34, 56] =
     Some (Inr (view_out (qoi_view_after (qoi_pixel_at 3 [12, 34, 56]) (nat (1 * 1))
                  (0, Pixel 0 0 0 255, replicate 64 (Pixel 0 0 0 0),
                   qoi_header (word_of_int 1) (word_of_int 1) (word_of_int 3)
                     (if (0::int) \<noteq> 0 then 1 else 0), [])
                  (nat (1 * 1)))
                @ qoi_trailer))"
    by (rule encode_to_func) (simp_all add: INT_MAX_def)
  then show ?thesis
    by (simp add: qoi_pixel_at_def qoi_color_bytes_def hash_mod KOIW_QOI_COLOR_HASH_def view_out_def
          qoi_header_def be32_bytes_def qoi_trailer_def KOIW_UCHAR_eq)
qed

lemma enc_2:
  "koi_write_qoi_to_func False 0 2 1 4 [10, 20, 30, 255, 10, 20, 30, 255] =
     Some (Inr [0x71, 0x6f, 0x69, 0x66, 0, 0, 0, 2, 0, 0, 0, 1, 4, 0, 0xFE, 10, 20, 30, 0xC0,
                0, 0, 0, 0, 0, 0, 0, 1])"
proof -
  have "koi_write_qoi_to_func False 0 2 1 4 [10, 20, 30, 255, 10, 20, 30, 255] =
     Some (Inr (view_out (qoi_view_after (qoi_pixel_at 4 [10, 20, 30, 255, 10, 20, 30, 255]) (nat (2 * 1))
                  (0, Pixel 0 0 0 255, replicate 64 (Pixel 0 0 0 0),
                   qoi_header (word_of_int 2) (word_of_int 1) (word_of_int 4)
                     (if (0::int) \<noteq> 0 then 1 else 0), [])
                  (nat (2 * 1)))
                @ qoi_trailer))"
    by (rule encode_to_func) (simp_all add: INT_MAX_def)
  then show ?thesis
    by (simp add: qoi_view_after_numeral qoi_pixel_at_def qoi_color_bytes_def hash_mod
          KOIW_QOI_COLOR_HASH_def view_out_def
          qoi_header_def be32_bytes_def qoi_trailer_def KOIW_UCHAR_eq)
qed

section \<open>Runs, colour ops and small images\<close>

lemma nth_concat_replicate4:
  "k < n \<Longrightarrow> j < 4 \<Longrightarrow> concat (replicate n [a, b, c, d]) ! (4 * k + j) = [a, b, c, d] ! j"
proof (induction n arbitrary: k)
  case 0
  then show ?case by simp
next
  case (Suc n)
  show ?case
  proof (cases k)
    case 0
    have "j = 0 \<or> j = 1 \<or> j = 2 \<or> j = 3" using Suc.prems(2) by arith
    then show ?thesis using 0 by auto
  next
    case (Suc k')
    then have "k' < n" using Suc.prems by simp
    from Suc.IH [OF this Suc.prems(2)] show ?thesis
      using Suc by (simp add: nth_append)
  qed
qed

lemma pixel_at_replicate4:
  "k < n \<Longrightarrow> qoi_pixel_at 4 (concat (replicate n [a, b, c, d])) k = Pixel a b c d"
  using nth_concat_replicate4 [of k n 0 a b c d] nth_concat_replicate4 [of k n 1 a b c d]
    nth_concat_replicate4 [of k n 2 a b c d] nth_concat_replicate4 [of k n 3 a b c d]
  by (simp add: qoi_pixel_at_def)

lemma length_concat_replicate4: "length (concat (replicate n [a, b, c, d])) = 4 * n"
  by (induction n) simp_all

lemma enc_3:
  "koi_write_qoi_to_func False 0 64 1 4 (concat (replicate 64 [0, 0, 0, 255])) =
     Some (Inr [0x71, 0x6f, 0x69, 0x66, 0, 0, 0, 64, 0, 0, 0, 1, 4, 0, 0xFD, 0xC1,
                0, 0, 0, 0, 0, 0, 0, 1])"
proof -
  have "koi_write_qoi_to_func False 0 64 1 4 (concat (replicate 64 [0, 0, 0, 255])) =
     Some (Inr (view_out (qoi_view_after (qoi_pixel_at 4 (concat (replicate 64 [0, 0, 0, 255]))) (nat (64 * 1))
                  (0, Pixel 0 0 0 255, replicate 64 (Pixel 0 0 0 0),
                   qoi_header (word_of_int 64) (word_of_int 1) (word_of_int 4)
                     (if (0::int) \<noteq> 0 then 1 else 0), [])
                  (nat (64 * 1)))
                @ qoi_trailer))"
    by (rule encode_to_func) (simp_all add: INT_MAX_def length_concat_replicate4)
  then show ?thesis
    by (simp add: qoi_view_after_numeral pixel_at_replicate4 view_out_def
          qoi_header_def be32_bytes_def qoi_trailer_def)
qed

lemma op_color_run:
  "e_run (koiw__qoi_op_color prev px st) = e_run st"
  "e_run_ops (koiw__qoi_op_color prev px st) = e_run_ops st"
  by (simp_all add: koiw__qoi_op_color_def Let_def split: prod.splits)

lemma word8_le_cases:
  fixes v :: "8 word"
  assumes "unat v \<le> 61"
  shows "v \<in> set (map of_nat [0..<62])"
proof -
  have "unat v \<in> set [0..<62]" using assms by simp
  then have "of_nat (unat v) \<in> (of_nat :: nat \<Rightarrow> 8 word) ` set [0..<62]" by (rule imageI)
  then show ?thesis by simp
qed

lemma run_byte_all:
  "\<forall>v \<in> set (map of_nat [0..<62]). (0xC0 :: 8 word) \<le> 0xC0 OR v \<and> 0xC0 OR v \<le> 0xFD
       \<and> unat ((0xC0 OR v) AND 0x3F) + 1 \<le> 62
       \<and> (v \<noteq> 0 \<longrightarrow> unat (v - 1) \<le> 60) \<and> (v + 1 \<noteq> 62 \<longrightarrow> unat (v + 1) \<le> 61)"
  by code_simp

lemma run_byte:
  fixes v :: "8 word"
  assumes "unat v \<le> 61"
  shows "0xC0 \<le> 0xC0 OR v" "0xC0 OR v \<le> 0xFD" "unat ((0xC0 OR v) AND 0x3F) + 1 \<le> 62"
    "v \<noteq> 0 \<Longrightarrow> unat (v - 1) \<le> 60" "v + 1 \<noteq> 62 \<Longrightarrow> unat (v + 1) \<le> 61"
  using run_byte_all word8_le_cases [OF assms] by blast+

lemma encode_px_run_cap:
  assumes "unat (e_run st) \<le> 61"
    and "\<forall>b\<in>set (e_run_ops st). 0xC0 \<le> b \<and> b \<le> 0xFD \<and> unat (b AND 0x3F) + 1 \<le> 62"
  shows "unat (e_run (koiw__qoi_encode_px is_last px st)) \<le> 61
       \<and> (\<forall>b\<in>set (e_run_ops (koiw__qoi_encode_px is_last px st)).
             0xC0 \<le> b \<and> b \<le> 0xFD \<and> unat (b AND 0x3F) + 1 \<le> 62)"
proof (cases "px = e_prev_px st")
  case True
  then show ?thesis
    using assms run_byte [OF assms(1)]
    by (auto simp add: koiw__qoi_encode_px_def koiw__qoi_op_run_def Let_def)
next
  case False
  show ?thesis
  proof (cases "e_run st > 0")
    case True
    then have nz: "e_run st \<noteq> 0" by auto
    have "unat (e_run st - 1) \<le> 61" using run_byte(4) [OF assms(1) nz] by simp
    from run_byte(1,2,3) [OF this] show ?thesis
      using False True assms(2)
      by (auto simp add: koiw__qoi_encode_px_def koiw__qoi_op_run_def Let_def op_color_run)
  next
    case f: False
    then show ?thesis
      using False assms
      by (auto simp add: koiw__qoi_encode_px_def Let_def op_color_run)
  qed
qed

lemma loop_run_cap:
  assumes "koiw__qoi_loop flip x y ncomp data (koiw__qoi_state_init s) n = Some st"
  shows "unat (e_run st) \<le> 61
       \<and> (\<forall>b\<in>set (e_run_ops st). 0xC0 \<le> b \<and> b \<le> 0xFD \<and> unat (b AND 0x3F) + 1 \<le> 62)"
  using assms
proof (induction n arbitrary: st)
  case 0
  then show ?case by (auto simp add: koiw__qoi_state_init_def)
next
  case (Suc n)
  then obtain st1 where st1: "koiw__qoi_loop flip x y ncomp data (koiw__qoi_state_init s) n = Some st1"
    "koiw__qoi_body flip x y ncomp data n st1 = Some st"
    by (auto split: option.splits)
  from st1(2) obtain px l where "st = koiw__qoi_encode_px l px st1"
    by (auto simp add: koiw__qoi_body_def Let_def split: if_splits option.splits)
  then show ?case
    using encode_px_run_cap [of st1 l px] Suc.IH [OF st1(1)] by blast
qed

text \<open>
  Claim C3.  Every byte that \<^verbatim>\<open>koi_write_qoi_core\<close> emits as a RUN op, for any image and after
  any number of pixels, lies between \<open>0xC0\<close> and \<open>0xFD\<close>: the run length it encodes, its low
  six bits plus one, is at most 62.  The 64 by 1 image of 4 channels whose pixels are all
  \<open>(0, 0, 0, 255)\<close>, with the flip off and colour space 0, is encoded as the header, the byte
  \<open>0xFD\<close>, the byte \<open>0xC1\<close> and the trailer.
\<close>

theorem run_cap:
  "(koiw__qoi_loop flip x y ncomp data (koiw__qoi_state_init s) n = Some st \<longrightarrow>
      (\<forall>b\<in>set (e_run_ops st). 0xC0 \<le> b \<and> b \<le> 0xFD \<and> unat (b AND 0x3F) + 1 \<le> 62))
   \<and> koi_write_qoi_to_func False 0 64 1 4 (concat (replicate 64 [0, 0, 0, 255])) =
       Some (Inr ([0x71, 0x6f, 0x69, 0x66, 0, 0, 0, 64, 0, 0, 0, 1, 4, 0] @ [0xFD] @ [0xC1]
                  @ [0, 0, 0, 0, 0, 0, 0, 1]))"
  using loop_run_cap [of flip x y ncomp data s n st] enc_3 by simp

text \<open>The theorem at the 64 by 1 image: its RUN bytes are \<open>0xFD\<close> and \<open>0xC1\<close>.\<close>

theorem run_cap_witness:
  "\<exists>st. koiw__qoi_loop False 64 1 4 (concat (replicate 64 [0, 0, 0, 255]))
           (koiw__qoi_state_init koi__write_context_zero) 64 = Some st
        \<and> e_run_ops st = [0xFD, 0xC1]
        \<and> list_all (\<lambda>b. 0xC0 \<le> b \<and> b \<le> 0xFD) (e_run_ops st)"
proof -
  have ok: "wctx_ok (e_ctx (koiw__qoi_state_init koi__write_context_zero))"
    by (simp add: koiw__qoi_state_init_def wctx_ok_def koi__write_context_zero_def)
  have "\<exists>st. koiw__qoi_loop False 64 1 4 (concat (replicate 64 [0, 0, 0, 255]))
           (koiw__qoi_state_init koi__write_context_zero) 64 = Some st
        \<and> enc_view st = qoi_view_after (qoi_pixel_at 4 (concat (replicate 64 [0, 0, 0, 255]))) (nat (64 * 1))
             (enc_view (koiw__qoi_state_init koi__write_context_zero)) 64
        \<and> wctx_ok (e_ctx st)"
    by (rule loop_view [OF _ _ _ _ ok]) (simp_all add: length_concat_replicate4)
  then obtain st where st: "koiw__qoi_loop False 64 1 4 (concat (replicate 64 [0, 0, 0, 255]))
           (koiw__qoi_state_init koi__write_context_zero) 64 = Some st"
     "enc_view st = qoi_view_after (qoi_pixel_at 4 (concat (replicate 64 [0, 0, 0, 255]))) (nat (64 * 1))
             (enc_view (koiw__qoi_state_init koi__write_context_zero)) 64"
    by blast
  have "e_run_ops st = [0xFD, 0xC1]"
    using st(2)
    by (simp add: enc_view_def koiw__qoi_state_init_def qoi_view_after_numeral pixel_at_replicate4)
  moreover have "\<forall>b\<in>set (e_run_ops st). 0xC0 \<le> b \<and> b \<le> 0xFD \<and> unat (b AND 0x3F) + 1 \<le> 62"
    using run_cap [of False 64 1 4 "concat (replicate 64 [0, 0, 0, 255])" koi__write_context_zero 64 st] st(1)
    by blast
  ultimately show ?thesis using st(1) by (auto simp add: list_all_iff)
qed

text \<open>
  Claim C4.  At a pixel that differs from the previous one and misses the index, after the
  byte of a pending run if there is one: a pixel at \<open>dr = 1\<close>, \<open>dg = 0\<close>, \<open>db = -1\<close> with the
  same alpha is written as the single DIFF byte \<open>0x79\<close> (tag \<open>0x40\<close>); a pixel at \<open>dr = 11\<close>,
  \<open>dg = 10\<close>, \<open>db = 9\<close> with the same alpha is written as the two LUMA bytes \<open>0xAA 0x97\<close>
  (tag \<open>0x80\<close>); a pixel whose alpha differs is written as the five bytes of an RGBA op,
  \<open>0xFF\<close> and its four components, whatever its colour.
\<close>

theorem op_preference:
  assumes "wctx_ok (e_ctx st)" and "e_prev_px st = Pixel r g b a"
    and "e_index st ! (KOIW_QOI_COLOR_HASH px AND (64 - 1)) \<noteq> px"
  shows "(px = Pixel (r + 1) g (b - 1) a \<longrightarrow>
            written (e_ctx (koiw__qoi_encode_px is_last px st)) =
              written (e_ctx st) @ (if e_run st > 0 then [0xc0 OR (e_run st - 1)] else []) @ [0x79])
       \<and> (px = Pixel (r + 11) (g + 10) (b + 9) a \<longrightarrow>
            written (e_ctx (koiw__qoi_encode_px is_last px st)) =
              written (e_ctx st) @ (if e_run st > 0 then [0xc0 OR (e_run st - 1)] else []) @ [0xAA, 0x97])
       \<and> (px_a px \<noteq> a \<longrightarrow>
            written (e_ctx (koiw__qoi_encode_px is_last px st)) =
              written (e_ctx st) @ (if e_run st > 0 then [0xc0 OR (e_run st - 1)] else [])
                @ [0xFF, px_r px, px_g px, px_b px, px_a px])
       \<and> (0x79 :: koiw_uc) AND 0xC0 = 0x40 \<and> (0xAA :: koiw_uc) AND 0xC0 = 0x80"
proof -
  have v: "written (e_ctx (koiw__qoi_encode_px is_last px st)) =
      view_out (qoi_px_step is_last px (e_run st, Pixel r g b a, e_index st, written (e_ctx st), e_run_ops st))"
  proof -
    have e: "view_out (enc_view (koiw__qoi_encode_px is_last px st)) =
        view_out (qoi_px_step is_last px (enc_view st))"
      using encode_px_view(1) [OF assms(1), of is_last px] by (rule arg_cong)
    have l: "view_out (enc_view (koiw__qoi_encode_px is_last px st)) =
        written (e_ctx (koiw__qoi_encode_px is_last px st))"
      by (simp add: enc_view_def view_out_def)
    have r: "enc_view st = (e_run st, Pixel r g b a, e_index st, written (e_ctx st), e_run_ops st)"
      using assms(2) by (simp add: enc_view_def)
    show ?thesis using e unfolding l r .
  qed
  have d1: "(r + 1) - r = (1 :: koiw_uc)" "(b - 1) - b = (-1 :: koiw_uc)" by simp_all
  have d2: "(r + 11) - r = (11 :: koiw_uc)" "(g + 10) - g = (10 :: koiw_uc)" "(b + 9) - b = (9 :: koiw_uc)"
    by simp_all
  have n1: "r + 1 \<noteq> r" by simp
  have n2: "r + 11 \<noteq> r" by simp
  show ?thesis
    unfolding v using assms(3)
    by (auto simp add: view_out_def qoi_color_bytes_def d1 d2 n1 n2)
qed

text \<open>The three cases at the encoder's initial state, where the previous pixel is \<open>(0, 0, 0, 255)\<close>.\<close>

theorem op_preference_witness:
  "written (e_ctx (koiw__qoi_encode_px False (Pixel 1 0 255 255)
      (koiw__qoi_state_init koi__write_context_zero))) = [0x79]
   \<and> written (e_ctx (koiw__qoi_encode_px False (Pixel 11 10 9 255)
      (koiw__qoi_state_init koi__write_context_zero))) = [0xAA, 0x97]
   \<and> written (e_ctx (koiw__qoi_encode_px False (Pixel 0 0 0 7)
      (koiw__qoi_state_init koi__write_context_zero))) = [0xFF, 0, 0, 0, 7]"
  using op_preference [of "koiw__qoi_state_init koi__write_context_zero" 0 0 0 255 "Pixel 1 0 255 255" False]
    op_preference [of "koiw__qoi_state_init koi__write_context_zero" 0 0 0 255 "Pixel 11 10 9 255" False]
    op_preference [of "koiw__qoi_state_init koi__write_context_zero" 0 0 0 255 "Pixel 0 0 0 7" False]
  by (simp add: koiw__qoi_state_init_def wctx_ok_def koi__write_context_zero_def written_def hash_mod
      KOIW_QOI_COLOR_HASH_def)

text \<open>
  Claim C2.  The 2 by 1 image of 4 channels whose two pixels are \<open>(10, 20, 30, 255)\<close>, with the
  flip off and colour space 0, is encoded as the 14 bytes of the header, the RGB op
  \<open>0xFE 10 20 30\<close> for the first pixel (its alpha is that of the initial previous pixel, 255),
  the RUN byte \<open>0xC0\<close> and the 8 bytes of the trailer.
\<close>

theorem two_pixels_encoding:
  "koi_write_qoi_to_func False 0 2 1 4 [10, 20, 30, 255, 10, 20, 30, 255] =
     Some (Inr (qoi_header 2 1 4 0 @ [0xFE, 10, 20, 30] @ [0xC0] @ qoi_trailer))"
  using enc_2 by (simp add: qoi_header_def be32_bytes_def qoi_trailer_def)

text \<open>The stream does not hold an RGBA op for the first pixel.\<close>

theorem two_pixels_rgba_counterexample:
  "koi_write_qoi_to_func False 0 2 1 4 [10, 20, 30, 255, 10, 20, 30, 255] \<noteq>
     Some (Inr (qoi_header 2 1 4 0 @ [0xFF, 10, 20, 30, 255] @ [0xC0] @ qoi_trailer))"
  using enc_2 by (simp add: qoi_header_def be32_bytes_def qoi_trailer_def)

section \<open>Decoding what the encoder wrote\<close>

lemma word8_all: "(v :: 8 word) \<in> set (map of_nat [0..<256])"
proof -
  have "unat v < 256" using unsigned_less [of v] by simp
  then have "unat v \<in> set [0..<256]" by simp
  then have "of_nat (unat v) \<in> (of_nat :: nat \<Rightarrow> 8 word) ` set [0..<256]" by (rule imageI)
  then show ?thesis by simp
qed

lemma diff_range_all:
  "\<forall>d \<in> set (map of_nat [0..<256]). sint (d :: 8 word) > -3 \<and> sint d < 2 \<longrightarrow>
     d + 2 \<in> set (map of_nat [0..<4])"
  by code_simp

lemma luma_g_range_all:
  "\<forall>d \<in> set (map of_nat [0..<256]). sint (d :: 8 word) > -33 \<and> sint d < 32 \<longrightarrow>
     d + 32 \<in> set (map of_nat [0..<64])"
  by code_simp

lemma luma_d_range_all:
  "\<forall>d \<in> set (map of_nat [0..<256]). sint (d :: 8 word) > -9 \<and> sint d < 8 \<longrightarrow>
     d + 8 \<in> set (map of_nat [0..<16])"
  by code_simp

lemma diff_byte_all:
  "\<forall>a \<in> set (map of_nat [0..<4]). \<forall>b \<in> set (map of_nat [0..<4]). \<forall>c \<in> set (map of_nat [0..<4]).
     (0x40 OR push_bit 4 a OR push_bit 2 b OR c :: 8 word) \<noteq> 0xfe
   \<and> (0x40 OR push_bit 4 a OR push_bit 2 b OR c :: 8 word) \<noteq> 0xff
   \<and> (0x40 OR push_bit 4 a OR push_bit 2 b OR c :: 8 word) AND 0xc0 = 0x40
   \<and> drop_bit 4 ((0x40 OR push_bit 4 a OR push_bit 2 b OR c :: 8 word) XOR 0x40) AND 0x03 = a
   \<and> drop_bit 2 ((0x40 OR push_bit 4 a OR push_bit 2 b OR c :: 8 word) XOR 0x40) AND 0x03 = b
   \<and> ((0x40 OR push_bit 4 a OR push_bit 2 b OR c :: 8 word) XOR 0x40) AND 0x03 = c"
  by code_simp

lemma luma_tag_all:
  "\<forall>v \<in> set (map of_nat [0..<64]).
     (0x80 OR v :: 8 word) \<noteq> 0xfe \<and> (0x80 OR v :: 8 word) \<noteq> 0xff
   \<and> (0x80 OR v :: 8 word) AND 0xc0 = 0x80 \<and> ((0x80 OR v :: 8 word) XOR 0x80) = v"
  by code_simp

lemma luma_d2_all:
  "\<forall>a \<in> set (map of_nat [0..<16]). \<forall>b \<in> set (map of_nat [0..<16]).
     drop_bit 4 (push_bit 4 a OR b :: 8 word) AND 0x0f = a \<and> (push_bit 4 a OR b :: 8 word) AND 0x0f = b"
  by code_simp

lemma index_tag_all:
  "\<forall>k \<in> set [0..<64].
     (of_nat k :: 8 word) \<noteq> 0xfe \<and> (of_nat k :: 8 word) \<noteq> 0xff
   \<and> (of_nat k :: 8 word) AND 0xc0 = 0 \<and> unat (of_nat k :: 8 word) = k"
  by code_simp

lemma run_tag_all:
  "\<forall>v \<in> set (map of_nat [0..<62]).
     (0xc0 OR v :: 8 word) \<noteq> 0xfe \<and> (0xc0 OR v :: 8 word) \<noteq> 0xff
   \<and> (0xc0 OR v :: 8 word) AND 0xc0 = 0xc0
   \<and> unat (((0xc0 OR v :: 8 word) XOR 0xc0) + 1) = Suc (unat v)"
  by code_simp

lemma diff_byte:
  fixes dr dg db :: "8 word"
  assumes "sint dr > -3" "sint dr < 2" "sint dg > -3" "sint dg < 2" "sint db > -3" "sint db < 2"
  defines "t \<equiv> 0x40 OR push_bit 4 (dr + 2) OR push_bit 2 (dg + 2) OR (db + 2)"
  shows "t \<noteq> 0xfe" "t \<noteq> 0xff" "t AND 0xc0 = 0x40"
    "drop_bit 4 (t XOR 0x40) AND 0x03 = dr + 2"
    "drop_bit 2 (t XOR 0x40) AND 0x03 = dg + 2"
    "(t XOR 0x40) AND 0x03 = db + 2"
proof -
  have a: "dr + 2 \<in> set (map of_nat [0..<4])" using diff_range_all word8_all [of dr] assms(1,2) by blast
  have b: "dg + 2 \<in> set (map of_nat [0..<4])" using diff_range_all word8_all [of dg] assms(3,4) by blast
  have c: "db + 2 \<in> set (map of_nat [0..<4])" using diff_range_all word8_all [of db] assms(5,6) by blast
  show "t \<noteq> 0xfe" "t \<noteq> 0xff" "t AND 0xc0 = 0x40"
    "drop_bit 4 (t XOR 0x40) AND 0x03 = dr + 2"
    "drop_bit 2 (t XOR 0x40) AND 0x03 = dg + 2"
    "(t XOR 0x40) AND 0x03 = db + 2"
    unfolding t_def using diff_byte_all a b c by blast+
qed

lemma luma_bytes:
  fixes dg drg dbg :: "8 word"
  assumes "sint drg > -9" "sint drg < 8" "sint dg > -33" "sint dg < 32" "sint dbg > -9" "sint dbg < 8"
  defines "t \<equiv> 0x80 OR (dg + 32)" and "d2 \<equiv> push_bit 4 (drg + 8) OR (dbg + 8)"
  shows "t \<noteq> 0xfe" "t \<noteq> 0xff" "t AND 0xc0 = 0x80" "(t XOR 0x80) = dg + 32"
    "drop_bit 4 d2 AND 0x0f = drg + 8" "d2 AND 0x0f = dbg + 8"
proof -
  have a: "dg + 32 \<in> set (map of_nat [0..<64])" using luma_g_range_all word8_all [of dg] assms(3,4) by blast
  have b: "drg + 8 \<in> set (map of_nat [0..<16])" using luma_d_range_all word8_all [of drg] assms(1,2) by blast
  have c: "dbg + 8 \<in> set (map of_nat [0..<16])" using luma_d_range_all word8_all [of dbg] assms(5,6) by blast
  show "t \<noteq> 0xfe" "t \<noteq> 0xff" "t AND 0xc0 = 0x80" "(t XOR 0x80) = dg + 32"
    unfolding t_def using luma_tag_all a by blast+
  show "drop_bit 4 d2 AND 0x0f = drg + 8" "d2 AND 0x0f = dbg + 8"
    unfolding d2_def using luma_d2_all b c by blast+
qed

lemma index_tag:
  assumes "k < 64"
  shows "(of_nat k :: 8 word) \<noteq> 0xfe" "(of_nat k :: 8 word) \<noteq> 0xff"
    "(of_nat k :: 8 word) AND 0xc0 = 0" "unat (of_nat k :: 8 word) = k"
proof -
  have "k \<in> set [0..<64]" using assms by simp
  then show "(of_nat k :: 8 word) \<noteq> 0xfe" "(of_nat k :: 8 word) \<noteq> 0xff"
    "(of_nat k :: 8 word) AND 0xc0 = 0" "unat (of_nat k :: 8 word) = k"
    using index_tag_all by blast+
qed

lemma run_tag:
  fixes v :: "8 word"
  assumes "unat v \<le> 61"
  shows "0xc0 OR v \<noteq> 0xfe" "0xc0 OR v \<noteq> 0xff" "(0xc0 OR v) AND 0xc0 = 0xc0"
    "unat (((0xc0 OR v) XOR 0xc0) + 1) = Suc (unat v)"
  using run_tag_all word8_le_cases [OF assms] by blast+

lemma get8_seq:
  assumes "mem_stream s (pre @ bs @ rest)" "j < length bs"
  shows "koi__get8 (s\<lparr>img_buffer := int (length pre) + int j\<rparr>) =
           (bs ! j, s\<lparr>img_buffer := int (length pre) + int j + 1\<rparr>)"
proof -
  have m: "mem_stream (s\<lparr>img_buffer := int (length pre) + int j\<rparr>) (pre @ bs @ rest)"
    using assms(1) by simp
  have "koi__get8 (s\<lparr>img_buffer := int (length pre) + int j\<rparr>) =
      ((pre @ bs @ rest) ! (length pre + j),
       s\<lparr>img_buffer := int (length pre) + int j\<rparr>\<lparr>img_buffer := int (Suc (length pre + j))\<rparr>)"
    by (rule get8_mem [OF m]) (use assms(2) in simp_all)
  then show ?thesis using assms(2) by (simp add: nth_append)
qed

lemma store_agree:
  assumes "c = 3 \<or> c = 4" "agree (i * c) out data" "(i + 1) * c \<le> length data"
  shows "\<exists>out'. koi__qoi_store_px c (qoi_pixel_at (int c) data i) (i * c) out = Some (i * c + c - 1, out')
           \<and> agree ((i + 1) * c) out' data"
proof -
  have l: "length out = length data" and a: "\<And>j. j < i * c \<Longrightarrow> out ! j = data ! j"
    using assms(2) by (simp_all add: agree_def)
  from assms(1) show ?thesis
  proof
    assume c: "c = 3"
    have m: "i * 3 = 3 * i" by simp
    have j: "\<And>j. j < 3 * i + 3 \<Longrightarrow> j < 3 * i \<or> j = 3 * i \<or> j = 3 * i + 1 \<or> j = 3 * i + 2" by arith
    show ?thesis
      using assms(3) l a j unfolding c m
      by (auto simp add: agree_def koi__qoi_store_px_def qoi_pixel_at_def nth_list_update)
  next
    assume c: "c = 4"
    have m: "i * 4 = 4 * i" by simp
    have j: "\<And>j. j < 4 * i + 4 \<Longrightarrow> j < 4 * i \<or> j = 4 * i \<or> j = 4 * i + 1 \<or> j = 4 * i + 2 \<or> j = 4 * i + 3" by arith
    show ?thesis
      using assms(3) l a j unfolding c m
      by (auto simp add: agree_def koi__qoi_store_px_def qoi_pixel_at_def nth_list_update)
  qed
qed

lemma emit_agree:
  assumes "c = 3 \<or> c = 4" "agree (i * c) out data" "(i + 1) * c \<le> length data"
    and "px = qoi_pixel_at (int c) data i"
  shows "\<exists>out'. koi__qoi_emit c \<lparr>d_s = s, d_out = out, d_prev_px = px, d_index = idx, d_i = i\<rparr> =
           Some \<lparr>d_s = s, d_out = out', d_prev_px = px,
                 d_index = idx[KOI_QOI_COLOR_HASH px mod 64 := px], d_i = i\<rparr>
         \<and> agree ((i + 1) * c) out' data"
proof -
  from store_agree [OF assms(1,2,3)] obtain out' where
    o: "koi__qoi_store_px c px (i * c) out = Some (i * c + c - 1, out')" "agree ((i + 1) * c) out' data"
    unfolding assms(4) by blast
  show ?thesis
    using o by (auto simp add: koi__qoi_emit_def Let_def)
qed

lemma hash_mod63: "KOIW_QOI_COLOR_HASH px AND 63 = KOIW_QOI_COLOR_HASH px mod 64"
  using hash_mod [of px] by simp

lemma hash_lt: "KOIW_QOI_COLOR_HASH px mod 64 < 64"
  by simp

lemma hash_same: "KOI_QOI_COLOR_HASH px = KOIW_QOI_COLOR_HASH px"
  by (simp add: KOI_QOI_COLOR_HASH_def KOIW_QOI_COLOR_HASH_def)

lemma idx_rel_hit:
  assumes "idx_rel idxe idxd" "idxe ! (KOIW_QOI_COLOR_HASH px mod 64) = px"
  shows "idxd ! (KOIW_QOI_COLOR_HASH px mod 64) = px"
proof -
  let ?k = "KOIW_QOI_COLOR_HASH px mod 64"
  have "idxe ! ?k = idxd ! ?k \<or> (?k = 53 \<and> idxe ! ?k = Pixel 0 0 0 0 \<and> idxd ! ?k = Pixel 0 0 0 255)"
    using assms(1) hash_lt [of px] unfolding idx_rel_def by blast
  then show ?thesis
  proof
    assume "idxe ! ?k = idxd ! ?k" then show ?thesis using assms(2) by simp
  next
    assume a: "?k = 53 \<and> idxe ! ?k = Pixel 0 0 0 0 \<and> idxd ! ?k = Pixel 0 0 0 255"
    then have "px = Pixel 0 0 0 0" using assms(2) by simp
    then have "?k = 0" by (simp add: KOIW_QOI_COLOR_HASH_def)
    then show ?thesis using a by simp
  qed
qed

lemma dec_color_emit:
  assumes ms: "mem_stream s (pre @ qoi_color_bytes prev px idxe @ rest)"
    and rel: "idx_rel idxe idxd"
  shows "koi__qoi_decode_op c
           \<lparr>d_s = s\<lparr>img_buffer := int (length pre)\<rparr>, d_out = out, d_prev_px = prev,
            d_index = idxd, d_i = i\<rparr> =
         koi__qoi_emit c
           \<lparr>d_s = s\<lparr>img_buffer := int (length pre) + int (length (qoi_color_bytes prev px idxe))\<rparr>,
            d_out = out, d_prev_px = px, d_index = idxd, d_i = i\<rparr>"
proof -
  obtain r g b a where px: "px = Pixel r g b a" by (cases px)
  obtain r0 g0 b0 a0 where prev: "prev = Pixel r0 g0 b0 a0" by (cases prev)
  let ?k = "KOIW_QOI_COLOR_HASH px mod 64"
  let ?cb = "qoi_color_bytes prev px idxe"
  note g = get8_seq [OF ms]
  show ?thesis
  proof (cases "idxe ! ?k = px")
    case True
    have cb: "?cb = [of_nat ?k]"
      using True by (simp add: qoi_color_bytes_def hash_mod63 KOIW_UCHAR_eq Let_def)
    have g0: "koi__get8 (s\<lparr>img_buffer := int (length pre)\<rparr>) =
        (of_nat ?k, s\<lparr>img_buffer := int (length pre) + 1\<rparr>)"
      using g [of 0] by (simp add: cb)
    note t = index_tag [OF hash_lt [of px]]
    have h: "idxd ! ?k = px" by (rule idx_rel_hit [OF rel True])
    show ?thesis
      unfolding koi__qoi_decode_op_def Let_def
      by (simp add: g0 t h cb)
  next
    case miss: False
    show ?thesis
    proof (cases "a = a0")
      case False
      have cb: "?cb = [0xff, r, g, b, a]"
        using miss False by (simp add: qoi_color_bytes_def hash_mod63 px prev Let_def)
      have g0: "koi__get8 (s\<lparr>img_buffer := int (length pre)\<rparr>) =
          (0xff, s\<lparr>img_buffer := int (length pre) + 1\<rparr>)"
        using g [of 0] by (simp add: cb)
      have g1: "koi__get8 (s\<lparr>img_buffer := int (length pre) + 1\<rparr>) =
          (r, s\<lparr>img_buffer := int (length pre) + 2\<rparr>)"
        using g [of 1] by (simp add: cb)
      have g2: "koi__get8 (s\<lparr>img_buffer := int (length pre) + 2\<rparr>) =
          (g, s\<lparr>img_buffer := int (length pre) + 3\<rparr>)"
        using g [of 2] by (simp add: cb)
      have g3: "koi__get8 (s\<lparr>img_buffer := int (length pre) + 3\<rparr>) =
          (b, s\<lparr>img_buffer := int (length pre) + 4\<rparr>)"
        using g [of 3] by (simp add: cb)
      have g4: "koi__get8 (s\<lparr>img_buffer := int (length pre) + 4\<rparr>) =
          (a, s\<lparr>img_buffer := int (length pre) + 5\<rparr>)"
        using g [of 4] by (simp add: cb)
      have L: "int (length ?cb) = 5" by (simp add: cb)
      show ?thesis
        unfolding koi__qoi_decode_op_def Let_def L
        by (simp add: g0 g1 g2 g3 g4 px)
    next
      case same: True
      define dr dg db where "dr = r - r0" and "dg = g - g0" and "db = b - b0"
      show ?thesis
      proof (cases "sint dr > -3 \<and> sint dr < 2 \<and> sint dg > -3 \<and> sint dg < 2 \<and> sint db > -3 \<and> sint db < 2")
        case True
        define t where "t = 0x40 OR push_bit 4 (dr + 2) OR push_bit 2 (dg + 2) OR (db + 2)"
        have cb: "?cb = [t]"
          using miss same True
          by (simp add: qoi_color_bytes_def hash_mod63 px prev dr_def dg_def db_def t_def Let_def)
        have g0: "koi__get8 (s\<lparr>img_buffer := int (length pre)\<rparr>) =
            (t, s\<lparr>img_buffer := int (length pre) + 1\<rparr>)"
          using g [of 0] by (simp add: cb)
        from True have T: "sint dr > -3" "sint dr < 2" "sint dg > -3" "sint dg < 2"
          "sint db > -3" "sint db < 2" by simp_all
        note d0 = diff_byte [OF T, folded t_def]
        note d = d0 d0 [simplified]
        have e: "r0 + dr = r" "g0 + dg = g" "b0 + db = b"
          by (simp_all add: dr_def dg_def db_def)
        have L: "int (length ?cb) = 1" by (simp add: cb)
        show ?thesis
          unfolding koi__qoi_decode_op_def Let_def L
          by (simp add: g0 d px prev same e)
      next
        case nd: False
        define drg dbg where "drg = dr - dg" and "dbg = db - dg"
        show ?thesis
        proof (cases "sint drg > -9 \<and> sint drg < 8 \<and> sint dg > -33 \<and> sint dg < 32 \<and> sint dbg > -9 \<and> sint dbg < 8")
          case True
          define t where "t = 0x80 OR (dg + 32)"
          define d2 where "d2 = push_bit 4 (drg + 8) OR (dbg + 8)"
          have cb: "?cb = [t, d2]"
            using miss same nd True
            by (simp add: qoi_color_bytes_def hash_mod63 px prev dr_def dg_def db_def drg_def dbg_def
                t_def d2_def Let_def)
          have g0: "koi__get8 (s\<lparr>img_buffer := int (length pre)\<rparr>) =
              (t, s\<lparr>img_buffer := int (length pre) + 1\<rparr>)"
            using g [of 0] by (simp add: cb)
          have g1: "koi__get8 (s\<lparr>img_buffer := int (length pre) + 1\<rparr>) =
              (d2, s\<lparr>img_buffer := int (length pre) + 2\<rparr>)"
            using g [of 1] by (simp add: cb)
          from True have T: "sint drg > -9" "sint drg < 8" "sint dg > -33" "sint dg < 32"
            "sint dbg > -9" "sint dbg < 8" by simp_all
          note d0 = luma_bytes [OF T, folded t_def d2_def]
          note d = d0 d0 [simplified]
          have e: "r0 + (dg + drg) = r" "g0 + dg = g" "b0 + (dg + dbg) = b"
            by (simp_all add: dr_def dg_def db_def drg_def dbg_def)
          have L: "int (length ?cb) = 2" by (simp add: cb)
          show ?thesis
            unfolding koi__qoi_decode_op_def Let_def L
            by (simp add: g0 g1 d px prev same e)
        next
          case False
          have cb: "?cb = [0xfe, r, g, b]"
            using miss same nd False
            by (simp add: qoi_color_bytes_def hash_mod63 px prev dr_def dg_def db_def drg_def dbg_def Let_def)
          have g0: "koi__get8 (s\<lparr>img_buffer := int (length pre)\<rparr>) =
              (0xfe, s\<lparr>img_buffer := int (length pre) + 1\<rparr>)"
            using g [of 0] by (simp add: cb)
          have g1: "koi__get8 (s\<lparr>img_buffer := int (length pre) + 1\<rparr>) =
              (r, s\<lparr>img_buffer := int (length pre) + 2\<rparr>)"
            using g [of 1] by (simp add: cb)
          have g2: "koi__get8 (s\<lparr>img_buffer := int (length pre) + 2\<rparr>) =
              (g, s\<lparr>img_buffer := int (length pre) + 3\<rparr>)"
            using g [of 2] by (simp add: cb)
          have g3: "koi__get8 (s\<lparr>img_buffer := int (length pre) + 3\<rparr>) =
              (b, s\<lparr>img_buffer := int (length pre) + 4\<rparr>)"
            using g [of 3] by (simp add: cb)
          have L: "int (length ?cb) = 4" by (simp add: cb)
          show ?thesis
            unfolding koi__qoi_decode_op_def Let_def L
            by (simp add: g0 g1 g2 g3 px prev same)
        qed
      qed
    qed
  qed
qed

lemma run_loop_agree:
  assumes c: "c = 3 \<or> c = 4"
  shows "agree (i * c) out data \<Longrightarrow> (i + r + 1) * c \<le> length data \<Longrightarrow>
     (\<forall>k. i \<le> k \<and> k \<le> i + r \<longrightarrow> qoi_pixel_at (int c) data k = px) \<Longrightarrow>
     \<exists>out'. koi__qoi_run_loop c px (Suc r) (i, i * c, out) = Some (i + r, (i + r) * c + c - 1, out')
           \<and> agree ((i + r + 1) * c) out' data"
proof (induction r arbitrary: i out)
  case 0
  have le: "(i + 1) * c \<le> length data" using 0(2) by simp
  have px: "qoi_pixel_at (int c) data i = px" using 0(3) by simp
  from store_agree [OF c 0(1) le] obtain out' where
    o: "koi__qoi_store_px c px (i * c) out = Some (i * c + c - 1, out')" "agree ((i + 1) * c) out' data"
    unfolding px by blast
  show ?case using o by simp
next
  case (Suc r)
  have "(i + 1) * c \<le> (i + Suc r + 1) * c" by (rule mult_le_mono1) simp
  then have le: "(i + 1) * c \<le> length data" using Suc(3) by (rule le_trans)
  have px: "qoi_pixel_at (int c) data i = px" using Suc(4) by simp
  from store_agree [OF c Suc(2) le] obtain out1 where
    o: "koi__qoi_store_px c px (i * c) out = Some (i * c + c - 1, out1)" "agree ((i + 1) * c) out1 data"
    unfolding px by blast
  have le2: "((i + 1) + r + 1) * c \<le> length data" using Suc(3) by simp
  have all2: "\<forall>k. i + 1 \<le> k \<and> k \<le> (i + 1) + r \<longrightarrow> qoi_pixel_at (int c) data k = px"
    using Suc(4) by simp
  from Suc.IH [OF o(2) le2 all2] obtain out' where
    r: "koi__qoi_run_loop c px (Suc r) (i + 1, (i + 1) * c, out1) = Some (i + 1 + r, (i + 1 + r) * c + c - 1, out')"
      "agree ((i + 1 + r + 1) * c) out' data"
    by blast
  have pos: "i * c + c - 1 + 1 = (i + 1) * c" using c by auto
  have "koi__qoi_run_loop c px (Suc (Suc r)) (i, i * c, out) =
      koi__qoi_run_loop c px (Suc r) (i + 1, (i + 1) * c, out1)"
    using o(1) pos by simp
  then show ?case using r by (simp add: add.commute add.left_commute)
qed

lemma dec_run:
  assumes ms: "mem_stream s (pre @ [0xc0 OR v] @ rest)" and v: "unat v \<le> 61"
    and c: "c = 3 \<or> c = 4" and ag: "agree (i * c) out data"
    and le: "(i + unat v + 1) * c \<le> length data"
    and same: "\<forall>k. i \<le> k \<and> k \<le> i + unat v \<longrightarrow> qoi_pixel_at (int c) data k = prev"
  shows "\<exists>out'. koi__qoi_decode_op c
           \<lparr>d_s = s\<lparr>img_buffer := int (length pre)\<rparr>, d_out = out, d_prev_px = prev,
            d_index = idxd, d_i = i\<rparr> =
         Some \<lparr>d_s = s\<lparr>img_buffer := int (length pre) + 1\<rparr>, d_out = out', d_prev_px = prev,
               d_index = idxd[KOIW_QOI_COLOR_HASH prev mod 64 := prev], d_i = i + unat v\<rparr>
         \<and> agree ((i + unat v + 1) * c) out' data"
proof -
  define t where "t = 0xc0 OR v"
  have g0: "koi__get8 (s\<lparr>img_buffer := int (length pre)\<rparr>) =
      (t, s\<lparr>img_buffer := int (length pre) + 1\<rparr>)"
    using get8_seq [OF ms, of 0] by (simp add: t_def)
  note t0 = run_tag [OF v, folded t_def]
  note t = t0 t0 [simplified]
  from run_loop_agree [OF c ag le same] obtain out' where
    r: "koi__qoi_run_loop c prev (Suc (unat v)) (i, i * c, out) =
          Some (i + unat v, (i + unat v) * c + c - 1, out')"
       "agree ((i + unat v + 1) * c) out' data"
    by blast
  have h: "KOI_QOI_COLOR_HASH prev AND 63 = KOIW_QOI_COLOR_HASH prev mod 64"
    by (simp add: hash_same hash_mod63)
  have "koi__qoi_decode_op c
           \<lparr>d_s = s\<lparr>img_buffer := int (length pre)\<rparr>, d_out = out, d_prev_px = prev,
            d_index = idxd, d_i = i\<rparr> =
         Some \<lparr>d_s = s\<lparr>img_buffer := int (length pre) + 1\<rparr>, d_out = out', d_prev_px = prev,
               d_index = idxd[KOIW_QOI_COLOR_HASH prev mod 64 := prev], d_i = i + unat v\<rparr>"
    unfolding koi__qoi_decode_op_def Let_def
    by (simp add: g0 t r(1) h del: koi__qoi_run_loop.simps)
  then show ?thesis using r(2) by blast
qed

lemma idx_rel_upd:
  assumes "idx_rel ie idd"
  shows "idx_rel (ie[k := p]) (idd[k := p])"
  unfolding idx_rel_def
proof (intro conjI allI impI)
  show "length (ie[k := p]) = 64" "length (idd[k := p]) = 64"
    using assms by (simp_all add: idx_rel_def)
next
  fix j :: nat assume j: "j < 64"
  have l: "length ie = 64" "length idd = 64" using assms by (simp_all add: idx_rel_def)
  have o: "ie ! j = idd ! j \<or> (j = 53 \<and> ie ! j = Pixel 0 0 0 0 \<and> idd ! j = Pixel 0 0 0 255)"
    using assms j unfolding idx_rel_def by blast
  show "ie[k := p] ! j = idd[k := p] ! j \<or>
        (j = 53 \<and> ie[k := p] ! j = Pixel 0 0 0 0 \<and> idd[k := p] ! j = Pixel 0 0 0 255)"
  proof (cases "j = k")
    case True
    then show ?thesis using j l by simp
  next
    case False
    then show ?thesis using o by simp
  qed
qed

lemma idx_rel_run:
  assumes "idx_rel ie idd"
    and "ie ! (KOIW_QOI_COLOR_HASH prev mod 64) = prev \<or> (prev = Pixel 0 0 0 255 \<and> ie ! 53 = Pixel 0 0 0 0)"
  shows "idx_rel ie (idd[KOIW_QOI_COLOR_HASH prev mod 64 := prev])"
  using assms(2)
proof
  assume a: "ie ! (KOIW_QOI_COLOR_HASH prev mod 64) = prev"
  have "idx_rel (ie[KOIW_QOI_COLOR_HASH prev mod 64 := prev]) (idd[KOIW_QOI_COLOR_HASH prev mod 64 := prev])"
    using assms(1) by (rule idx_rel_upd)
  moreover have "ie[KOIW_QOI_COLOR_HASH prev mod 64 := prev] = ie"
    using a by (metis list_update_id)
  ultimately show ?thesis by simp
next
  assume a: "prev = Pixel 0 0 0 255 \<and> ie ! 53 = Pixel 0 0 0 0"
  then have h: "KOIW_QOI_COLOR_HASH prev mod 64 = 53" by (simp add: KOIW_QOI_COLOR_HASH_def)
  show ?thesis
    unfolding h idx_rel_def
  proof (intro conjI allI impI)
    show "length ie = 64" "length (idd[53 := prev]) = 64"
      using assms(1) by (simp_all add: idx_rel_def)
  next
    fix j :: nat assume j: "j < 64"
    have l: "length ie = 64" "length idd = 64" using assms(1) by (simp_all add: idx_rel_def)
    have o: "ie ! j = idd ! j \<or> (j = 53 \<and> ie ! j = Pixel 0 0 0 0 \<and> idd ! j = Pixel 0 0 0 255)"
      using assms(1) j unfolding idx_rel_def by blast
    show "ie ! j = idd[53 := prev] ! j \<or>
          (j = 53 \<and> ie ! j = Pixel 0 0 0 0 \<and> idd[53 := prev] ! j = Pixel 0 0 0 255)"
    proof (cases "j = 53")
      case True
      then show ?thesis using a l by simp
    next
      case False
      then show ?thesis using o by simp
    qed
  qed
qed

lemma dec_loop_run:
  assumes ms: "mem_stream s (pre @ [0xc0 OR v] @ rest)" and v: "unat v \<le> 61"
    and c: "c = 3 \<or> c = 4" and ag: "agree (i * c) out data"
    and len: "length data = N * c" and lt: "i + unat v < N"
    and same: "\<forall>k. i \<le> k \<and> k \<le> i + unat v \<longrightarrow> qoi_pixel_at (int c) data k = prev"
  shows "\<exists>out'. koi__qoi_decode_loop N c
           \<lparr>d_s = s\<lparr>img_buffer := int (length pre)\<rparr>, d_out = out, d_prev_px = prev,
            d_index = idxd, d_i = i\<rparr> =
         koi__qoi_decode_loop N c
           \<lparr>d_s = s\<lparr>img_buffer := int (length pre) + 1\<rparr>, d_out = out', d_prev_px = prev,
            d_index = idxd[KOIW_QOI_COLOR_HASH prev mod 64 := prev], d_i = i + unat v + 1\<rparr>
         \<and> agree ((i + unat v + 1) * c) out' data"
proof -
  have "(i + unat v + 1) \<le> N" using lt by simp
  then have "(i + unat v + 1) * c \<le> N * c" by (rule mult_le_mono1)
  then have le: "(i + unat v + 1) * c \<le> length data" using len by simp
  from dec_run [OF ms v c ag le same, of idxd] obtain out' where
    d: "koi__qoi_decode_op c
           \<lparr>d_s = s\<lparr>img_buffer := int (length pre)\<rparr>, d_out = out, d_prev_px = prev,
            d_index = idxd, d_i = i\<rparr> =
         Some \<lparr>d_s = s\<lparr>img_buffer := int (length pre) + 1\<rparr>, d_out = out', d_prev_px = prev,
               d_index = idxd[KOIW_QOI_COLOR_HASH prev mod 64 := prev], d_i = i + unat v\<rparr>"
       "agree ((i + unat v + 1) * c) out' data"
    by blast
  have i: "i < N" using lt by simp
  have "koi__qoi_decode_loop N c
           \<lparr>d_s = s\<lparr>img_buffer := int (length pre)\<rparr>, d_out = out, d_prev_px = prev,
            d_index = idxd, d_i = i\<rparr> =
         koi__qoi_decode_loop N c
           \<lparr>d_s = s\<lparr>img_buffer := int (length pre) + 1\<rparr>, d_out = out', d_prev_px = prev,
            d_index = idxd[KOIW_QOI_COLOR_HASH prev mod 64 := prev], d_i = i + unat v + 1\<rparr>"
    by (subst koi__qoi_decode_loop.simps) (simp add: i d(1))
  then show ?thesis using d(2) by blast
qed

lemma dec_loop_color:
  assumes ms: "mem_stream s (pre @ qoi_color_bytes prev px idxe @ rest)"
    and rel: "idx_rel idxe idxd"
    and c: "c = 3 \<or> c = 4" and ag: "agree (i * c) out data"
    and len: "length data = N * c" and lt: "i < N"
    and px: "px = qoi_pixel_at (int c) data i"
  shows "\<exists>out'. koi__qoi_decode_loop N c
           \<lparr>d_s = s\<lparr>img_buffer := int (length pre)\<rparr>, d_out = out, d_prev_px = prev,
            d_index = idxd, d_i = i\<rparr> =
         koi__qoi_decode_loop N c
           \<lparr>d_s = s\<lparr>img_buffer := int (length pre) + int (length (qoi_color_bytes prev px idxe))\<rparr>,
            d_out = out', d_prev_px = px,
            d_index = idxd[KOIW_QOI_COLOR_HASH px mod 64 := px], d_i = i + 1\<rparr>
         \<and> agree ((i + 1) * c) out' data"
proof -
  have "(i + 1) \<le> N" using lt by simp
  then have "(i + 1) * c \<le> N * c" by (rule mult_le_mono1)
  then have le: "(i + 1) * c \<le> length data" using len by simp
  note e = dec_color_emit [OF ms rel, of c out i]
  from emit_agree [OF c ag le px,
      of "s\<lparr>img_buffer := int (length pre) + int (length (qoi_color_bytes prev px idxe))\<rparr>" idxd]
  obtain out' where
    d: "koi__qoi_emit c
          \<lparr>d_s = s\<lparr>img_buffer := int (length pre) + int (length (qoi_color_bytes prev px idxe))\<rparr>,
           d_out = out, d_prev_px = px, d_index = idxd, d_i = i\<rparr> =
        Some \<lparr>d_s = s\<lparr>img_buffer := int (length pre) + int (length (qoi_color_bytes prev px idxe))\<rparr>,
              d_out = out', d_prev_px = px,
              d_index = idxd[KOI_QOI_COLOR_HASH px mod 64 := px], d_i = i\<rparr>"
       "agree ((i + 1) * c) out' data"
    by blast
  have "koi__qoi_decode_loop N c
           \<lparr>d_s = s\<lparr>img_buffer := int (length pre)\<rparr>, d_out = out, d_prev_px = prev,
            d_index = idxd, d_i = i\<rparr> =
         koi__qoi_decode_loop N c
           \<lparr>d_s = s\<lparr>img_buffer := int (length pre) + int (length (qoi_color_bytes prev px idxe))\<rparr>,
            d_out = out', d_prev_px = px,
            d_index = idxd[KOIW_QOI_COLOR_HASH px mod 64 := px], d_i = i + 1\<rparr>"
    by (subst koi__qoi_decode_loop.simps) (simp add: lt e d(1) hash_same)
  then show ?thesis using d(2) by blast
qed

lemma run_suc_all:
  "\<forall>v \<in> set (map of_nat [0..<62]). unat ((v :: 8 word) + 1) = Suc (unat v)
      \<and> (v \<noteq> 0 \<longrightarrow> Suc (unat (v - 1)) = unat v)"
  by code_simp

lemma run_suc:
  fixes v :: "8 word"
  assumes "unat v \<le> 61"
  shows "unat (v + 1) = Suc (unat v)" "v \<noteq> 0 \<Longrightarrow> Suc (unat (v - 1)) = unat v"
  using run_suc_all word8_le_cases [OF assms] by blast+

lemma sim:
  fixes data hdr :: "koi_uc list" and c N :: nat
  assumes c: "c = 3 \<or> c = 4" and len: "length data = N * c"
  shows "n \<le> N \<Longrightarrow> \<exists>run prev idx ops rops.
      qoi_view_after (qoi_pixel_at (int c) data) N
        (0, Pixel 0 0 0 255, replicate 64 (Pixel 0 0 0 0), hdr, []) n = (run, prev, idx, hdr @ ops, rops)
    \<and> unat run \<le> 61 \<and> unat run \<le> n \<and> (n = N \<longrightarrow> run = 0)
    \<and> (\<forall>k. n - unat run \<le> k \<and> k < n \<longrightarrow> qoi_pixel_at (int c) data k = prev)
    \<and> length idx = 64
    \<and> (idx ! (KOIW_QOI_COLOR_HASH prev mod 64) = prev \<or> (prev = Pixel 0 0 0 255 \<and> idx ! 53 = Pixel 0 0 0 0))
    \<and> (\<forall>(s :: 'u koi__context) rest out0.
          mem_stream s (hdr @ ops @ rest) \<and> length out0 = length data \<longrightarrow>
          (\<exists>out idxd.
              koi__qoi_decode_loop N c
                \<lparr>d_s = s\<lparr>img_buffer := int (length hdr)\<rparr>, d_out = out0, d_prev_px = Pixel 0 0 0 255,
                 d_index = replicate 64 (Pixel 0 0 0 0), d_i = 0\<rparr>
              = koi__qoi_decode_loop N c
                  \<lparr>d_s = s\<lparr>img_buffer := int (length (hdr @ ops))\<rparr>, d_out = out, d_prev_px = prev,
                   d_index = idxd, d_i = n - unat run\<rparr>
            \<and> agree ((n - unat run) * c) out data \<and> idx_rel idx idxd))"
proof (induction n)
  case 0
  let ?i0 = "replicate 64 (Pixel 0 0 0 0)"
  have V: "qoi_view_after (qoi_pixel_at (int c) data) N (0, Pixel 0 0 0 255, ?i0, hdr, []) 0
      = (0, Pixel 0 0 0 255, ?i0, hdr @ [], [])" by simp
  have A: "unat (0 :: koiw_uc) \<le> 61" by simp
  have B: "unat (0 :: koiw_uc) \<le> 0" by simp
  have C: "0 = N \<longrightarrow> (0 :: koiw_uc) = 0" by simp
  have D: "\<forall>k. 0 - unat (0 :: koiw_uc) \<le> k \<and> k < 0 \<longrightarrow> qoi_pixel_at (int c) data k = Pixel 0 0 0 255"
    by simp
  have E: "length ?i0 = 64" by simp
  have F: "?i0 ! (KOIW_QOI_COLOR_HASH (Pixel 0 0 0 255) mod 64) = Pixel 0 0 0 255
      \<or> (Pixel 0 0 0 255 = Pixel 0 0 0 255 \<and> ?i0 ! 53 = Pixel 0 0 0 0)" by simp
  have G: "\<forall>(s :: 'u koi__context) rest out0.
          mem_stream s (hdr @ [] @ rest) \<and> length out0 = length data \<longrightarrow>
          (\<exists>out idxd.
              koi__qoi_decode_loop N c
                \<lparr>d_s = s\<lparr>img_buffer := int (length hdr)\<rparr>, d_out = out0, d_prev_px = Pixel 0 0 0 255,
                 d_index = ?i0, d_i = 0\<rparr>
              = koi__qoi_decode_loop N c
                  \<lparr>d_s = s\<lparr>img_buffer := int (length (hdr @ []))\<rparr>, d_out = out, d_prev_px = Pixel 0 0 0 255,
                   d_index = idxd, d_i = 0 - unat (0 :: koiw_uc)\<rparr>
            \<and> agree ((0 - unat (0 :: koiw_uc)) * c) out data \<and> idx_rel ?i0 idxd)"
  proof (intro allI impI)
    fix s :: "'u koi__context" and rest out0 :: "koi_uc list"
    assume h: "mem_stream s (hdr @ [] @ rest) \<and> length out0 = length data"
    have 1: "agree ((0 - unat (0 :: koiw_uc)) * c) out0 data" using h by (simp add: agree_def)
    have 2: "idx_rel ?i0 ?i0" by (simp add: idx_rel_def)
    have 3: "koi__qoi_decode_loop N c
                \<lparr>d_s = s\<lparr>img_buffer := int (length hdr)\<rparr>, d_out = out0, d_prev_px = Pixel 0 0 0 255,
                 d_index = ?i0, d_i = 0\<rparr>
              = koi__qoi_decode_loop N c
                  \<lparr>d_s = s\<lparr>img_buffer := int (length (hdr @ []))\<rparr>, d_out = out0, d_prev_px = Pixel 0 0 0 255,
                   d_index = ?i0, d_i = 0 - unat (0 :: koiw_uc)\<rparr>" by simp
    show "\<exists>out idxd.
              koi__qoi_decode_loop N c
                \<lparr>d_s = s\<lparr>img_buffer := int (length hdr)\<rparr>, d_out = out0, d_prev_px = Pixel 0 0 0 255,
                 d_index = ?i0, d_i = 0\<rparr>
              = koi__qoi_decode_loop N c
                  \<lparr>d_s = s\<lparr>img_buffer := int (length (hdr @ []))\<rparr>, d_out = out, d_prev_px = Pixel 0 0 0 255,
                   d_index = idxd, d_i = 0 - unat (0 :: koiw_uc)\<rparr>
            \<and> agree ((0 - unat (0 :: koiw_uc)) * c) out data \<and> idx_rel ?i0 idxd"
      using 1 2 3 by blast
  qed
  show ?case
    by (intro exI conjI, rule V, rule A, rule B, rule C, rule D, rule E, rule F, rule G)
next
  case (Suc n)
  let ?pix = "qoi_pixel_at (int c) data"
  let ?v0 = "(0 :: koiw_uc, Pixel 0 0 0 255, replicate 64 (Pixel 0 0 0 0), hdr, [] :: koiw_uc list)"
  have nN: "n < N" and nle: "n \<le> N" using Suc.prems by simp_all
  from Suc.IH [OF nle] obtain run prev idx ops rops where
    V0: "qoi_view_after ?pix N ?v0 n = (run, prev, idx, hdr @ ops, rops)"
    and A0: "unat run \<le> 61" and B0: "unat run \<le> n"
    and D0: "\<forall>k. n - unat run \<le> k \<and> k < n \<longrightarrow> ?pix k = prev"
    and E0: "length idx = 64"
    and F0: "idx ! (KOIW_QOI_COLOR_HASH prev mod 64) = prev \<or> (prev = Pixel 0 0 0 255 \<and> idx ! 53 = Pixel 0 0 0 0)"
    and G0: "\<forall>(s :: 'u koi__context) rest out0.
          mem_stream s (hdr @ ops @ rest) \<and> length out0 = length data \<longrightarrow>
          (\<exists>out idxd.
              koi__qoi_decode_loop N c
                \<lparr>d_s = s\<lparr>img_buffer := int (length hdr)\<rparr>, d_out = out0, d_prev_px = Pixel 0 0 0 255,
                 d_index = replicate 64 (Pixel 0 0 0 0), d_i = 0\<rparr>
              = koi__qoi_decode_loop N c
                  \<lparr>d_s = s\<lparr>img_buffer := int (length (hdr @ ops))\<rparr>, d_out = out, d_prev_px = prev,
                   d_index = idxd, d_i = n - unat run\<rparr>
            \<and> agree ((n - unat run) * c) out data \<and> idx_rel idx idxd)"
    by blast
  define px where "px = ?pix n"
  have step: "qoi_view_after ?pix N ?v0 (Suc n) = qoi_px_step (n = N - 1) px (run, prev, idx, hdr @ ops, rops)"
    by (simp add: V0 px_def)
  show ?case
  proof (cases "px = prev")
    case True
    show ?thesis
    proof (cases "run + 1 = 62 \<or> n = N - 1")
      case emit: True
      define b where "b = 0xc0 OR run"
      have V: "qoi_view_after ?pix N ?v0 (Suc n) = (0, prev, idx, hdr @ (ops @ [b]), rops @ [b])"
        unfolding step using True emit by (simp add: b_def)
      have A: "unat (0 :: koiw_uc) \<le> 61" by simp
      have B: "unat (0 :: koiw_uc) \<le> Suc n" by simp
      have C: "Suc n = N \<longrightarrow> (0 :: koiw_uc) = 0" by simp
      have D: "\<forall>k. Suc n - unat (0 :: koiw_uc) \<le> k \<and> k < Suc n \<longrightarrow> ?pix k = prev" by auto
      have G: "\<forall>(s :: 'u koi__context) rest out0.
          mem_stream s (hdr @ (ops @ [b]) @ rest) \<and> length out0 = length data \<longrightarrow>
          (\<exists>out idxd.
              koi__qoi_decode_loop N c
                \<lparr>d_s = s\<lparr>img_buffer := int (length hdr)\<rparr>, d_out = out0, d_prev_px = Pixel 0 0 0 255,
                 d_index = replicate 64 (Pixel 0 0 0 0), d_i = 0\<rparr>
              = koi__qoi_decode_loop N c
                  \<lparr>d_s = s\<lparr>img_buffer := int (length (hdr @ (ops @ [b])))\<rparr>, d_out = out, d_prev_px = prev,
                   d_index = idxd, d_i = Suc n - unat (0 :: koiw_uc)\<rparr>
            \<and> agree ((Suc n - unat (0 :: koiw_uc)) * c) out data \<and> idx_rel idx idxd)"
      proof (intro allI impI)
        fix s :: "'u koi__context" and rest out0 :: "koi_uc list"
        assume h: "mem_stream s (hdr @ (ops @ [b]) @ rest) \<and> length out0 = length data"
        then have ms0: "mem_stream s (hdr @ ops @ ([b] @ rest))" and l0: "length out0 = length data"
          by simp_all
        from G0 ms0 l0 obtain out idxd where
          g: "koi__qoi_decode_loop N c
                \<lparr>d_s = s\<lparr>img_buffer := int (length hdr)\<rparr>, d_out = out0, d_prev_px = Pixel 0 0 0 255,
                 d_index = replicate 64 (Pixel 0 0 0 0), d_i = 0\<rparr>
              = koi__qoi_decode_loop N c
                  \<lparr>d_s = s\<lparr>img_buffer := int (length (hdr @ ops))\<rparr>, d_out = out, d_prev_px = prev,
                   d_index = idxd, d_i = n - unat run\<rparr>"
          and ag: "agree ((n - unat run) * c) out data" and rel: "idx_rel idx idxd"
          by blast
        have ms1: "mem_stream s ((hdr @ ops) @ [0xc0 OR run] @ rest)" using ms0 by (simp add: b_def)
        have lt: "(n - unat run) + unat run < N" using B0 nN by simp
        have same: "\<forall>k. n - unat run \<le> k \<and> k \<le> (n - unat run) + unat run \<longrightarrow> ?pix k = prev"
        proof (intro allI impI)
          fix k assume k: "n - unat run \<le> k \<and> k \<le> (n - unat run) + unat run"
          then have "k < n \<or> k = n" using B0 by auto
          then show "?pix k = prev" using D0 k True px_def by auto
        qed
        from dec_loop_run [OF ms1 A0 c ag len lt same, of idxd] obtain out' where
          d: "koi__qoi_decode_loop N c
               \<lparr>d_s = s\<lparr>img_buffer := int (length (hdr @ ops))\<rparr>, d_out = out, d_prev_px = prev,
                d_index = idxd, d_i = n - unat run\<rparr> =
             koi__qoi_decode_loop N c
               \<lparr>d_s = s\<lparr>img_buffer := int (length (hdr @ ops)) + 1\<rparr>, d_out = out', d_prev_px = prev,
                d_index = idxd[KOIW_QOI_COLOR_HASH prev mod 64 := prev], d_i = (n - unat run) + unat run + 1\<rparr>"
          and ag': "agree (((n - unat run) + unat run + 1) * c) out' data"
          by blast
        have i': "(n - unat run) + unat run + 1 = Suc n - unat (0 :: koiw_uc)" using B0 by simp
        have p': "int (length (hdr @ ops)) + 1 = int (length (hdr @ (ops @ [b])))" by simp
        have 1: "koi__qoi_decode_loop N c
                \<lparr>d_s = s\<lparr>img_buffer := int (length hdr)\<rparr>, d_out = out0, d_prev_px = Pixel 0 0 0 255,
                 d_index = replicate 64 (Pixel 0 0 0 0), d_i = 0\<rparr>
              = koi__qoi_decode_loop N c
                  \<lparr>d_s = s\<lparr>img_buffer := int (length (hdr @ (ops @ [b])))\<rparr>, d_out = out', d_prev_px = prev,
                   d_index = idxd[KOIW_QOI_COLOR_HASH prev mod 64 := prev], d_i = Suc n - unat (0 :: koiw_uc)\<rparr>"
          using g d unfolding i' p' by simp
        have 2: "agree ((Suc n - unat (0 :: koiw_uc)) * c) out' data" using ag' unfolding i' .
        have 3: "idx_rel idx (idxd[KOIW_QOI_COLOR_HASH prev mod 64 := prev])"
          using rel F0 by (rule idx_rel_run)
        show "\<exists>out idxd.
              koi__qoi_decode_loop N c
                \<lparr>d_s = s\<lparr>img_buffer := int (length hdr)\<rparr>, d_out = out0, d_prev_px = Pixel 0 0 0 255,
                 d_index = replicate 64 (Pixel 0 0 0 0), d_i = 0\<rparr>
              = koi__qoi_decode_loop N c
                  \<lparr>d_s = s\<lparr>img_buffer := int (length (hdr @ (ops @ [b])))\<rparr>, d_out = out, d_prev_px = prev,
                   d_index = idxd, d_i = Suc n - unat (0 :: koiw_uc)\<rparr>
            \<and> agree ((Suc n - unat (0 :: koiw_uc)) * c) out data \<and> idx_rel idx idxd"
          using 1 2 3 by blast
      qed
      show ?thesis
        by (intro exI conjI, rule V, rule A, rule B, rule C, rule D, rule E0, rule F0, rule G)
    next
      case keep: False
      have V: "qoi_view_after ?pix N ?v0 (Suc n) = (run + 1, prev, idx, hdr @ ops, rops)"
        unfolding step using True keep by simp
      have u: "unat (run + 1) = Suc (unat run)" by (rule run_suc(1) [OF A0])
      have A: "unat (run + 1) \<le> 61" using run_byte(5) [OF A0] keep by simp
      have B: "unat (run + 1) \<le> Suc n" using B0 u by simp
      have C: "Suc n = N \<longrightarrow> run + 1 = 0" using keep by auto
      have D: "\<forall>k. Suc n - unat (run + 1) \<le> k \<and> k < Suc n \<longrightarrow> ?pix k = prev"
      proof (intro allI impI)
        fix k assume k: "Suc n - unat (run + 1) \<le> k \<and> k < Suc n"
        then have "n - unat run \<le> k" using u by simp
        moreover have "k < n \<or> k = n" using k by auto
        ultimately show "?pix k = prev" using D0 True px_def by auto
      qed
      have i': "Suc n - unat (run + 1) = n - unat run" using u by simp
      have G: "\<forall>(s :: 'u koi__context) rest out0.
          mem_stream s (hdr @ ops @ rest) \<and> length out0 = length data \<longrightarrow>
          (\<exists>out idxd.
              koi__qoi_decode_loop N c
                \<lparr>d_s = s\<lparr>img_buffer := int (length hdr)\<rparr>, d_out = out0, d_prev_px = Pixel 0 0 0 255,
                 d_index = replicate 64 (Pixel 0 0 0 0), d_i = 0\<rparr>
              = koi__qoi_decode_loop N c
                  \<lparr>d_s = s\<lparr>img_buffer := int (length (hdr @ ops))\<rparr>, d_out = out, d_prev_px = prev,
                   d_index = idxd, d_i = Suc n - unat (run + 1)\<rparr>
            \<and> agree ((Suc n - unat (run + 1)) * c) out data \<and> idx_rel idx idxd)"
        unfolding i' by (rule G0)
      show ?thesis
        by (intro exI conjI, rule V, rule A, rule B, rule C, rule D, rule E0, rule F0, rule G)
    qed
  next
    case False
    define fl where "fl = (if run > 0 then [0xc0 OR (run - 1)] else [])"
    define cb where "cb = qoi_color_bytes prev px idx"
    define h where "h = KOIW_QOI_COLOR_HASH px mod 64"
    have V: "qoi_view_after ?pix N ?v0 (Suc n) = (0, px, idx[h := px], hdr @ (ops @ fl @ cb), rops @ fl)"
      unfolding step using False by (simp add: fl_def cb_def h_def hash_mod63)
    have A: "unat (0 :: koiw_uc) \<le> 61" by simp
    have B: "unat (0 :: koiw_uc) \<le> Suc n" by simp
    have C: "Suc n = N \<longrightarrow> (0 :: koiw_uc) = 0" by simp
    have D: "\<forall>k. Suc n - unat (0 :: koiw_uc) \<le> k \<and> k < Suc n \<longrightarrow> ?pix k = px" by auto
    have E: "length (idx[h := px]) = 64" using E0 by simp
    have hl: "h < 64" unfolding h_def by simp
    have F: "idx[h := px] ! (KOIW_QOI_COLOR_HASH px mod 64) = px
        \<or> (px = Pixel 0 0 0 255 \<and> idx[h := px] ! 53 = Pixel 0 0 0 0)"
      using hl E0 by (simp add: h_def)
    have M: "\<exists>out idxd.
              koi__qoi_decode_loop N c
                \<lparr>d_s = s\<lparr>img_buffer := int (length hdr)\<rparr>, d_out = out0, d_prev_px = Pixel 0 0 0 255,
                 d_index = replicate 64 (Pixel 0 0 0 0), d_i = 0\<rparr>
              = koi__qoi_decode_loop N c
                  \<lparr>d_s = s\<lparr>img_buffer := int (length (hdr @ ops @ fl))\<rparr>, d_out = out, d_prev_px = prev,
                   d_index = idxd, d_i = n\<rparr>
            \<and> agree (n * c) out data \<and> idx_rel idx idxd"
      if ms: "mem_stream s (hdr @ ops @ (fl @ rest'))" and l0: "length out0 = length data"
      for s :: "'u koi__context" and rest' out0 :: "koi_uc list"
    proof -
      from G0 ms l0 obtain out idxd where
        g: "koi__qoi_decode_loop N c
              \<lparr>d_s = s\<lparr>img_buffer := int (length hdr)\<rparr>, d_out = out0, d_prev_px = Pixel 0 0 0 255,
               d_index = replicate 64 (Pixel 0 0 0 0), d_i = 0\<rparr>
            = koi__qoi_decode_loop N c
                \<lparr>d_s = s\<lparr>img_buffer := int (length (hdr @ ops))\<rparr>, d_out = out, d_prev_px = prev,
                 d_index = idxd, d_i = n - unat run\<rparr>"
        and ag: "agree ((n - unat run) * c) out data" and rel: "idx_rel idx idxd"
        by blast
      show ?thesis
      proof (cases "run > 0")
        case True
        then have rn: "run \<noteq> 0" by auto
        have fl: "fl = [0xc0 OR (run - 1)]" using True by (simp add: fl_def)
        have u: "Suc (unat (run - 1)) = unat run" by (rule run_suc(2) [OF A0 rn])
        have v61: "unat (run - 1) \<le> 61" using u A0 by simp
        have ms1: "mem_stream s ((hdr @ ops) @ [0xc0 OR (run - 1)] @ rest')" using ms by (simp add: fl)
        have lt: "(n - unat run) + unat (run - 1) < N" using B0 nN u by simp
        have same: "\<forall>k. n - unat run \<le> k \<and> k \<le> (n - unat run) + unat (run - 1) \<longrightarrow> ?pix k = prev"
        proof (intro allI impI)
          fix k assume k: "n - unat run \<le> k \<and> k \<le> (n - unat run) + unat (run - 1)"
          then have "k < n" using B0 u by arith
          then show "?pix k = prev" using D0 k by simp
        qed
        from dec_loop_run [OF ms1 v61 c ag len lt same, of idxd] obtain out' where
          d: "koi__qoi_decode_loop N c
               \<lparr>d_s = s\<lparr>img_buffer := int (length (hdr @ ops))\<rparr>, d_out = out, d_prev_px = prev,
                d_index = idxd, d_i = n - unat run\<rparr> =
             koi__qoi_decode_loop N c
               \<lparr>d_s = s\<lparr>img_buffer := int (length (hdr @ ops)) + 1\<rparr>, d_out = out', d_prev_px = prev,
                d_index = idxd[KOIW_QOI_COLOR_HASH prev mod 64 := prev],
                d_i = (n - unat run) + unat (run - 1) + 1\<rparr>"
          and ag': "agree (((n - unat run) + unat (run - 1) + 1) * c) out' data"
          by blast
        have i': "(n - unat run) + unat (run - 1) + 1 = n" using B0 u by simp
        have p': "int (length (hdr @ ops)) + 1 = int (length (hdr @ ops @ fl))" by (simp add: fl)
        have 1: "koi__qoi_decode_loop N c
                \<lparr>d_s = s\<lparr>img_buffer := int (length hdr)\<rparr>, d_out = out0, d_prev_px = Pixel 0 0 0 255,
                 d_index = replicate 64 (Pixel 0 0 0 0), d_i = 0\<rparr>
              = koi__qoi_decode_loop N c
                  \<lparr>d_s = s\<lparr>img_buffer := int (length (hdr @ ops @ fl))\<rparr>, d_out = out', d_prev_px = prev,
                   d_index = idxd[KOIW_QOI_COLOR_HASH prev mod 64 := prev], d_i = n\<rparr>"
          using g d unfolding i' p' by simp
        have 2: "agree (n * c) out' data" using ag' unfolding i' .
        have 3: "idx_rel idx (idxd[KOIW_QOI_COLOR_HASH prev mod 64 := prev])"
          using rel F0 by (rule idx_rel_run)
        show ?thesis using 1 2 3 by blast
      next
        case False
        then have r0: "run = 0" by (simp add: word_gt_0)
        have fl: "fl = []" using False by (simp add: fl_def)
        show ?thesis using g ag rel unfolding fl r0 by auto
      qed
    qed
    have G: "\<forall>(s :: 'u koi__context) rest out0.
          mem_stream s (hdr @ (ops @ fl @ cb) @ rest) \<and> length out0 = length data \<longrightarrow>
          (\<exists>out idxd.
              koi__qoi_decode_loop N c
                \<lparr>d_s = s\<lparr>img_buffer := int (length hdr)\<rparr>, d_out = out0, d_prev_px = Pixel 0 0 0 255,
                 d_index = replicate 64 (Pixel 0 0 0 0), d_i = 0\<rparr>
              = koi__qoi_decode_loop N c
                  \<lparr>d_s = s\<lparr>img_buffer := int (length (hdr @ (ops @ fl @ cb)))\<rparr>, d_out = out, d_prev_px = px,
                   d_index = idxd, d_i = Suc n - unat (0 :: koiw_uc)\<rparr>
            \<and> agree ((Suc n - unat (0 :: koiw_uc)) * c) out data \<and> idx_rel (idx[h := px]) idxd)"
    proof (intro allI impI)
      fix s :: "'u koi__context" and rest out0 :: "koi_uc list"
      assume hy: "mem_stream s (hdr @ (ops @ fl @ cb) @ rest) \<and> length out0 = length data"
      then have ms0: "mem_stream s (hdr @ ops @ (fl @ (cb @ rest)))" and l0: "length out0 = length data"
        by simp_all
      from M [OF ms0 l0] obtain out idxd where
        g: "koi__qoi_decode_loop N c
              \<lparr>d_s = s\<lparr>img_buffer := int (length hdr)\<rparr>, d_out = out0, d_prev_px = Pixel 0 0 0 255,
               d_index = replicate 64 (Pixel 0 0 0 0), d_i = 0\<rparr>
            = koi__qoi_decode_loop N c
                \<lparr>d_s = s\<lparr>img_buffer := int (length (hdr @ ops @ fl))\<rparr>, d_out = out, d_prev_px = prev,
                 d_index = idxd, d_i = n\<rparr>"
        and ag: "agree (n * c) out data" and rel: "idx_rel idx idxd"
        by blast
      have ms1: "mem_stream s ((hdr @ ops @ fl) @ qoi_color_bytes prev px idx @ rest)"
        using ms0 by (simp add: cb_def)
      from dec_loop_color [OF ms1 rel c ag len nN px_def] obtain out' where
        d: "koi__qoi_decode_loop N c
             \<lparr>d_s = s\<lparr>img_buffer := int (length (hdr @ ops @ fl))\<rparr>, d_out = out, d_prev_px = prev,
              d_index = idxd, d_i = n\<rparr> =
           koi__qoi_decode_loop N c
             \<lparr>d_s = s\<lparr>img_buffer := int (length (hdr @ ops @ fl)) + int (length (qoi_color_bytes prev px idx))\<rparr>,
              d_out = out', d_prev_px = px,
              d_index = idxd[KOIW_QOI_COLOR_HASH px mod 64 := px], d_i = n + 1\<rparr>"
        and ag': "agree ((n + 1) * c) out' data"
        by blast
      have i': "n + 1 = Suc n - unat (0 :: koiw_uc)" by simp
      have p': "int (length (hdr @ ops @ fl)) + int (length (qoi_color_bytes prev px idx))
          = int (length (hdr @ (ops @ fl @ cb)))" by (simp add: cb_def)
      have 1: "koi__qoi_decode_loop N c
              \<lparr>d_s = s\<lparr>img_buffer := int (length hdr)\<rparr>, d_out = out0, d_prev_px = Pixel 0 0 0 255,
               d_index = replicate 64 (Pixel 0 0 0 0), d_i = 0\<rparr>
            = koi__qoi_decode_loop N c
                \<lparr>d_s = s\<lparr>img_buffer := int (length (hdr @ (ops @ fl @ cb)))\<rparr>, d_out = out', d_prev_px = px,
                 d_index = idxd[h := px], d_i = Suc n - unat (0 :: koiw_uc)\<rparr>"
        using g d unfolding i' p' h_def by simp
      have 2: "agree ((Suc n - unat (0 :: koiw_uc)) * c) out' data" using ag' unfolding i' .
      have 3: "idx_rel (idx[h := px]) (idxd[h := px])" using rel by (rule idx_rel_upd)
      show "\<exists>out idxd.
              koi__qoi_decode_loop N c
                \<lparr>d_s = s\<lparr>img_buffer := int (length hdr)\<rparr>, d_out = out0, d_prev_px = Pixel 0 0 0 255,
                 d_index = replicate 64 (Pixel 0 0 0 0), d_i = 0\<rparr>
              = koi__qoi_decode_loop N c
                  \<lparr>d_s = s\<lparr>img_buffer := int (length (hdr @ (ops @ fl @ cb)))\<rparr>, d_out = out, d_prev_px = px,
                   d_index = idxd, d_i = Suc n - unat (0 :: koiw_uc)\<rparr>
            \<and> agree ((Suc n - unat (0 :: koiw_uc)) * c) out data \<and> idx_rel (idx[h := px]) idxd"
        using 1 2 3 by blast
    qed
    show ?thesis
      by (intro exI conjI, rule V, rule A, rule B, rule C, rule D, rule E, rule F, rule G)
  qed
qed

lemma agree_all:
  assumes "agree k out data" "k = length data"
  shows "out = data"
  using assms by (auto simp add: agree_def intro: nth_equalityI)

lemma decode_encoded:
  fixes data hdr :: "koi_uc list" and c N :: nat and s :: "'u koi__context"
  assumes c: "c = 3 \<or> c = 4" and len: "length data = N * c"
  shows "\<exists>ops. view_out (qoi_view_after (qoi_pixel_at (int c) data) N
                   (0, Pixel 0 0 0 255, replicate 64 (Pixel 0 0 0 0), hdr, []) N) = hdr @ ops
           \<and> (\<forall>(s :: 'u koi__context) rest out0.
                 mem_stream s (hdr @ ops @ rest) \<and> length out0 = length data \<longrightarrow>
                 (\<exists>st. koi__qoi_decode_loop N c
                         \<lparr>d_s = s\<lparr>img_buffer := int (length hdr)\<rparr>, d_out = out0,
                          d_prev_px = Pixel 0 0 0 255, d_index = replicate 64 (Pixel 0 0 0 0), d_i = 0\<rparr>
                       = Some st \<and> d_out st = data))"
proof -
  from sim [OF c len, of N hdr, where ?'u = 'u] obtain run prev idx ops rops where
    V: "qoi_view_after (qoi_pixel_at (int c) data) N
          (0, Pixel 0 0 0 255, replicate 64 (Pixel 0 0 0 0), hdr, []) N = (run, prev, idx, hdr @ ops, rops)"
    and C: "N = N \<longrightarrow> run = 0"
    and G: "\<forall>(s :: 'u koi__context) rest out0.
          mem_stream s (hdr @ ops @ rest) \<and> length out0 = length data \<longrightarrow>
          (\<exists>out idxd.
              koi__qoi_decode_loop N c
                \<lparr>d_s = s\<lparr>img_buffer := int (length hdr)\<rparr>, d_out = out0, d_prev_px = Pixel 0 0 0 255,
                 d_index = replicate 64 (Pixel 0 0 0 0), d_i = 0\<rparr>
              = koi__qoi_decode_loop N c
                  \<lparr>d_s = s\<lparr>img_buffer := int (length (hdr @ ops))\<rparr>, d_out = out, d_prev_px = prev,
                   d_index = idxd, d_i = N - unat run\<rparr>
            \<and> agree ((N - unat run) * c) out data \<and> idx_rel idx idxd)"
    by blast
  have r0: "run = 0" using C by simp
  have 1: "view_out (qoi_view_after (qoi_pixel_at (int c) data) N
                   (0, Pixel 0 0 0 255, replicate 64 (Pixel 0 0 0 0), hdr, []) N) = hdr @ ops"
    unfolding V by (simp add: view_out_def)
  have 2: "\<forall>(s :: 'u koi__context) rest out0.
                 mem_stream s (hdr @ ops @ rest) \<and> length out0 = length data \<longrightarrow>
                 (\<exists>st. koi__qoi_decode_loop N c
                         \<lparr>d_s = s\<lparr>img_buffer := int (length hdr)\<rparr>, d_out = out0,
                          d_prev_px = Pixel 0 0 0 255, d_index = replicate 64 (Pixel 0 0 0 0), d_i = 0\<rparr>
                       = Some st \<and> d_out st = data)"
  proof (intro allI impI)
    fix s :: "'u koi__context" and rest out0 :: "koi_uc list"
    assume h: "mem_stream s (hdr @ ops @ rest) \<and> length out0 = length data"
    from G h obtain out idxd where
      g: "koi__qoi_decode_loop N c
                \<lparr>d_s = s\<lparr>img_buffer := int (length hdr)\<rparr>, d_out = out0, d_prev_px = Pixel 0 0 0 255,
                 d_index = replicate 64 (Pixel 0 0 0 0), d_i = 0\<rparr>
              = koi__qoi_decode_loop N c
                  \<lparr>d_s = s\<lparr>img_buffer := int (length (hdr @ ops))\<rparr>, d_out = out, d_prev_px = prev,
                   d_index = idxd, d_i = N - unat run\<rparr>"
      and ag: "agree ((N - unat run) * c) out data"
      by blast
    have o: "out = data" using ag len by (intro agree_all [of "(N - unat run) * c"]) (simp_all add: r0)
    have e: "koi__qoi_decode_loop N c
                  \<lparr>d_s = s\<lparr>img_buffer := int (length (hdr @ ops))\<rparr>, d_out = out, d_prev_px = prev,
                   d_index = idxd, d_i = N - unat run\<rparr>
        = Some \<lparr>d_s = s\<lparr>img_buffer := int (length (hdr @ ops))\<rparr>, d_out = out, d_prev_px = prev,
                   d_index = idxd, d_i = N - unat run\<rparr>"
      by (subst koi__qoi_decode_loop.simps) (simp add: r0)
    show "\<exists>st. koi__qoi_decode_loop N c
                         \<lparr>d_s = s\<lparr>img_buffer := int (length hdr)\<rparr>, d_out = out0,
                          d_prev_px = Pixel 0 0 0 255, d_index = replicate 64 (Pixel 0 0 0 0), d_i = 0\<rparr>
                       = Some st \<and> d_out st = data"
      unfolding g e using o by simp
  qed
  show ?thesis using 1 2 by blast
qed

lemma uint_small32:
  "0 \<le> k \<Longrightarrow> k \<le> 16777216 \<Longrightarrow> uint (word_of_int k :: 32 word) = k"
  by (simp add: uint_word_of_int take_bit_int_eq_self)

lemma uint_int32:
  "0 \<le> k \<Longrightarrow> k \<le> INT_MAX \<Longrightarrow> uint (word_of_int k :: 32 word) = k"
  by (simp add: uint_word_of_int take_bit_int_eq_self INT_MAX_def)

lemma load_main_of_encode:
  fixes w h c r :: int
  assumes c: "c = 3 \<or> c = 4" and w: "1 \<le> w" "w \<le> 16777216" and h: "1 \<le> h" "h \<le> 16777216"
    and sz: "c * w * h \<le> INT_MAX" and P: "length P = nat (w * h * c)"
    and al: "m (nat (c * w * h)) = Some buf0" "length buf0 = nat (c * w * h)"
    and r: "r = 0 \<or> r = c"
  shows "\<exists>enc. koi_write_qoi_to_func False cs w h c P = Some (Inr enc)
         \<and> koi__load_main m (koi__start_mem (koi__context_new ()) enc (int (length enc))) x y n r
             = Some (Inr P, w, h, map_option (\<lambda>_. c) n)"
proof -
  define N where "N = nat (w * h)"
  define cn where "cn = nat c"
  define hdr where "hdr = qoi_header (word_of_int w) (word_of_int h) (word_of_int c) (if cs \<noteq> 0 then 1 else 0)"
  have cn: "cn = 3 \<or> cn = 4" and ic: "int cn = c" using c by (auto simp add: cn_def)
  have wh: "0 \<le> w * h" using w h by simp
  have len: "length P = N * cn"
    using P wh c by (auto simp add: N_def cn_def nat_mult_distrib)
  have m1: "w * h * c \<le> INT_MAX" using sz by (simp add: mult.commute mult.left_commute)
  have enc: "koi_write_qoi_to_func False cs w h c P =
     Some (Inr (view_out (qoi_view_after (qoi_pixel_at c P) N
                  (0, Pixel 0 0 0 255, replicate 64 (Pixel 0 0 0 0), hdr, []) N) @ qoi_trailer))"
    unfolding N_def hdr_def
    by (rule encode_to_func [OF c _ _ P m1]) (use w h in simp_all)
  from decode_encoded [OF cn len, of hdr, where ?'u = unit] obtain ops where
    v: "view_out (qoi_view_after (qoi_pixel_at (int cn) P) N
             (0, Pixel 0 0 0 255, replicate 64 (Pixel 0 0 0 0), hdr, []) N) = hdr @ ops"
    and d: "\<forall>(s :: unit koi__context) rest out0.
                 mem_stream s (hdr @ ops @ rest) \<and> length out0 = length P \<longrightarrow>
                 (\<exists>st. koi__qoi_decode_loop N cn
                         \<lparr>d_s = s\<lparr>img_buffer := int (length hdr)\<rparr>, d_out = out0,
                          d_prev_px = Pixel 0 0 0 255, d_index = replicate 64 (Pixel 0 0 0 0), d_i = 0\<rparr>
                       = Some st \<and> d_out st = P)"
    by blast
  define rest where "rest = ops @ qoi_trailer"
  define e where "e = hdr @ rest"
  have enc': "koi_write_qoi_to_func False cs w h c P = Some (Inr e)"
    unfolding enc e_def rest_def using v ic by simp
  have r8: "8 \<le> length rest" by (simp add: rest_def qoi_trailer_def)
  have le: "int (length e) = 14 + int (length rest)" by (simp add: e_def hdr_def)
  let ?s = "koi__start_mem (koi__context_new ()) e (14 + int (length rest))"
  have ms: "mem_stream ?s (hdr @ rest)" "img_buffer ?s = 0"
    using start_mem_stream(1) [of "koi__context_new ()" e] le
    by (simp_all add: start_mem_stream e_def)
  have uw: "uint (word_of_int w :: 32 word) = w" and uh: "uint (word_of_int h :: 32 word) = h"
    using w h by (simp_all add: uint_small32)
  have c8: "(word_of_int c :: koi_uc) = 3 \<or> (word_of_int c :: koi_uc) = 4" using c by auto
  have uc: "uint (word_of_int c :: koi_uc) = c" using c by auto
  have whm: "w * h \<le> INT_MAX"
  proof -
    have "1 * (w * h) \<le> c * (w * h)" using c wh by (intro mult_right_mono) auto
    then show ?thesis using sz by (simp add: mult.assoc)
  qed
  have un: "unat (word_of_int h * word_of_int w :: 32 word) = N"
  proof -
    have e1: "(word_of_int h * word_of_int w :: 32 word) = word_of_int (w * h)"
      by (simp add: mult.commute)
    have e2: "uint (word_of_int (w * h) :: 32 word) = w * h"
      using wh whm by (rule uint_int32)
    have "unat (word_of_int (w * h) :: 32 word) = nat (uint (word_of_int (w * h) :: 32 word))"
      by (rule unat_eq_nat_uint)
    then show ?thesis unfolding e1 e2 N_def .
  qed
  have q: "koi__qoi_load m ?s x y n r =
     (case m (nat (c * uint (word_of_int w :: 32 word) * uint (word_of_int h :: 32 word))) of
        None \<Rightarrow> Some (Inl Outofmem, x, y, n)
      | Some out \<Rightarrow>
          (case koi__qoi_decode_loop (unat (word_of_int h * word_of_int w :: 32 word)) (nat c)
                  \<lparr>d_s = ?s\<lparr>img_buffer := 14, img_x := word_of_int w, img_y := word_of_int h,
                           img_n := uint (word_of_int c :: koi_uc)\<rparr>,
                   d_out = out, d_prev_px = Pixel 0 0 0 255,
                   d_index = replicate 64 (Pixel 0 0 0 0), d_i = 0\<rparr> of
             None \<Rightarrow> None
           | Some st \<Rightarrow>
               (case (if r \<noteq> 0 \<and> r \<noteq> c then
                        koi__convert_format m (d_out st) c r (word_of_int w) (word_of_int h)
                      else Some (Inr (d_out st))) of
                  None \<Rightarrow> None
                | Some (Inl e) \<Rightarrow> Some (Inl e, x, y, n)
                | Some (Inr out1) \<Rightarrow>
                    Some (Inr out1, uint (word_of_int w :: 32 word), uint (word_of_int h :: 32 word),
                          map_option (\<lambda>_. uint (word_of_int c :: koi_uc)) n))))"
    by (rule qoi_load_mem_alloc [OF ms [unfolded hdr_def] _ _ c8])
       (use c r w h sz uw uh uc in \<open>auto simp add: mult.assoc\<close>)
  let ?s1 = "?s\<lparr>img_x := word_of_int w, img_y := word_of_int h, img_n := c\<rparr>"
  have ms1: "mem_stream ?s1 (hdr @ ops @ qoi_trailer)" using ms(1) by (simp add: rest_def)
  have l0: "length buf0 = length P" using al(2) P by (simp add: mult.commute mult.left_commute)
  from d ms1 l0 obtain st where
    st: "koi__qoi_decode_loop N cn
           \<lparr>d_s = ?s1\<lparr>img_buffer := int (length hdr)\<rparr>, d_out = buf0,
            d_prev_px = Pixel 0 0 0 255, d_index = replicate 64 (Pixel 0 0 0 0), d_i = 0\<rparr>
         = Some st" "d_out st = P"
    by blast
  have s1: "?s1\<lparr>img_buffer := int (length hdr)\<rparr> =
      ?s\<lparr>img_buffer := 14, img_x := word_of_int w, img_y := word_of_int h, img_n := c\<rparr>"
    by (simp add: hdr_def)
  have ld: "koi__qoi_load m ?s x y n r = Some (Inr P, w, h, map_option (\<lambda>_. c) n)"
    unfolding q uw uh uc un al(1) option.case cn_def [symmetric]
    using st r unfolding s1 by auto
  have "koi__load_main m (koi__start_mem (koi__context_new ()) e (int (length e))) x y n r
             = Some (Inr P, w, h, map_option (\<lambda>_. c) n)"
    unfolding le
    using load_main_mem [OF r8, of m "koi__context_new ()" "word_of_int w" "word_of_int h" "word_of_int c"
        "if cs \<noteq> 0 then 1 else 0" x y n r] ld
    by (simp add: e_def hdr_def)
  then show ?thesis using enc' by blast
qed

lemma decode_of_encode:
  fixes w h c r :: int
  assumes c: "c = 3 \<or> c = 4" and w: "1 \<le> w" "w \<le> 16777216" and h: "1 \<le> h" "h \<le> 16777216"
    and sz: "c * w * h \<le> INT_MAX" and P: "length P = nat (w * h * c)"
    and al: "m (nat (c * w * h)) = Some buf0" "length buf0 = nat (c * w * h)"
    and r: "r = 0 \<or> r = c"
  shows "\<exists>enc. koi_write_qoi_to_func False cs w h c P = Some (Inr enc)
         \<and> koi_load_from_memory False m enc (int (length enc)) x y n r
             = Some (Inr P, w, h, map_option (\<lambda>_. c) n)"
proof -
  from load_main_of_encode [where m = m and cs = cs and x = x and y = y and n = n, OF assms] obtain enc where
    e: "koi_write_qoi_to_func False cs w h c P = Some (Inr enc)"
       "koi__load_main m (koi__start_mem (koi__context_new ()) enc (int (length enc))) x y n r
             = Some (Inr P, w, h, map_option (\<lambda>_. c) n)"
    by blast
  have "koi_load_from_memory False m enc (int (length enc)) x y n r
             = Some (Inr P, w, h, map_option (\<lambda>_. c) n)"
    by (simp add: koi_load_from_memory_def koi__load_and_postprocess_8bit_def e(2))
  then show ?thesis using e(1) by blast
qed

section \<open>Round trip (C1) and the single pixel (C6)\<close>

lemma color_bytes_length: "length (qoi_color_bytes prev px idx) \<le> 5"
  by (simp add: qoi_color_bytes_def Let_def)

lemma px_step_length:
  "length (view_out (qoi_px_step l px v)) \<le> length (view_out v) + 6"
proof -
  obtain run prev idx out rops where v: "v = (run, prev, idx, out, rops)" by (cases v)
  show ?thesis
    unfolding v using color_bytes_length [of prev px idx]
    by (simp add: view_out_def)
qed

lemma view_after_length:
  "length (view_out (qoi_view_after pix N v n)) \<le> length (view_out v) + 6 * n"
proof (induction n)
  case 0
  then show ?case by simp
next
  case (Suc n)
  show ?case
    using px_step_length [of "n = N - 1" "pix n" "qoi_view_after pix N v n"] Suc by simp
qed

text \<open>
  Claim C1, with the limits of the decoder.  For an image of \<open>c\<close> = 3 or 4 channels whose
  width \<open>w\<close> and height \<open>h\<close> are between 1 and \<^verbatim>\<open>KOI_MAX_DIMENSIONS\<close> = 2^24 with
  \<open>c * w * h\<close> within \<^verbatim>\<open>INT_MAX\<close>, given as its \<open>w * h * c\<close> bytes \<open>P\<close>:
  \<^verbatim>\<open>koi_write_qoi_to_func\<close>, flip off and any colour space setting, produces a stream, and
  when the length of that stream fits the \<^verbatim>\<open>int\<close> that \<^verbatim>\<open>koi_load_from_memory\<close> takes,
  decoding it with \<^verbatim>\<open>desired_channels\<close> = \<open>c\<close>, flip off and an allocator that returns the
  \<open>c * w * h\<close> bytes asked for, returns exactly \<open>P\<close>, with the width \<open>w\<close>, the height \<open>h\<close>
  and \<open>c\<close> as the channels in the file.
\<close>

theorem round_trip:
  fixes w h c :: int
  assumes "c = 3 \<or> c = 4" and "1 \<le> w" and "w \<le> KOI_MAX_DIMENSIONS"
    and "1 \<le> h" and "h \<le> KOI_MAX_DIMENSIONS"
    and "c * w * h \<le> INT_MAX" and "length P = nat (w * h * c)"
    and "m (nat (c * w * h)) = Some buf0" and "length buf0 = nat (c * w * h)"
  shows "\<exists>enc. koi_write_qoi_to_func False cs w h c P = Some (Inr enc)
         \<and> (int (length enc) \<le> INT_MAX \<longrightarrow>
              koi_load_from_memory False m enc (int (length enc)) x y n c
                = Some (Inr P, w, h, map_option (\<lambda>_. c) n))"
proof -
  have w: "w \<le> 16777216" and h: "h \<le> 16777216"
    using assms(3,5) by (simp_all add: KOI_MAX_DIMENSIONS_def)
  have r: "c = 0 \<or> c = c" by simp
  from decode_of_encode [where m = m and cs = cs and x = x and y = y and n = n,
      OF assms(1,2) w assms(4) h assms(6,7,8,9) r]
  show ?thesis by blast
qed

text \<open>The theorem at the image of 2 by 1 pixels \<open>(10, 20, 30, 255)\<close>, whose stream has a RUN op.\<close>

theorem round_trip_witness:
  "koi_load_from_memory False (\<lambda>n. Some (replicate n 0))
       [0x71, 0x6f, 0x69, 0x66, 0, 0, 0, 2, 0, 0, 0, 1, 4, 0, 0xFE, 10, 20, 30, 0xC0,
        0, 0, 0, 0, 0, 0, 0, 1] 27 0 0 (Some 0) 4
     = Some (Inr [10, 20, 30, 255, 10, 20, 30, 255], 2, 1, Some 4)"
  using round_trip [where c = 4 and w = 2 and h = 1 and P = "[10, 20, 30, 255, 10, 20, 30, 255]"
      and m = "\<lambda>n. Some (replicate n 0)" and ?buf0.0 = "replicate 8 0" and cs = 0
      and x = 0 and y = 0 and n = "Some 0"] enc_2
  by (simp add: INT_MAX_def KOI_MAX_DIMENSIONS_def)

text \<open>
  The claim as stated takes every width and height from 1 on.  The encoder accepts the
  image of 16777217 by 1 black pixels of 3 channels; its stream fits an \<^verbatim>\<open>int\<close>, and the
  decoder rejects it as \<^verbatim>\<open>too large\<close>, the width being above \<^verbatim>\<open>KOI_MAX_DIMENSIONS\<close>.
\<close>

theorem round_trip_counterexample:
  "\<exists>enc. koi_write_qoi_to_func False 0 16777217 1 3 (replicate 50331651 0) = Some (Inr enc)
     \<and> int (length enc) \<le> INT_MAX
     \<and> koi_load_from_memory False (\<lambda>n. Some (replicate n 0)) enc (int (length enc)) 0 0 (Some 0) 3
         = Some (Inl Too_large, 0, 0, Some 0)"
proof -
  define hdr :: "koi_uc list" where "hdr = qoi_header (word_of_int 16777217) (word_of_int 1) (word_of_int 3) 0"
  define P :: "koi_uc list" where "P = replicate 50331651 0"
  define N :: nat where "N = 16777217"
  have enc: "koi_write_qoi_to_func False 0 16777217 1 3 P =
     Some (Inr (view_out (qoi_view_after (qoi_pixel_at 3 P) (nat (16777217 * 1))
                  (0, Pixel 0 0 0 255, replicate 64 (Pixel 0 0 0 0),
                   qoi_header (word_of_int 16777217) (word_of_int 1) (word_of_int 3)
                     (if (0 :: int) \<noteq> 0 then 1 else 0), [])
                  (nat (16777217 * 1)))
                @ qoi_trailer))"
    by (rule encode_to_func) (simp_all add: INT_MAX_def P_def)
  have c: "(3 :: nat) = 3 \<or> (3 :: nat) = 4" by simp
  have len: "length P = N * 3" by (simp add: P_def N_def)
  from decode_encoded [OF c len, of hdr, where ?'u = unit] obtain ops where
    v: "view_out (qoi_view_after (qoi_pixel_at (int 3) P) N
             (0, Pixel 0 0 0 255, replicate 64 (Pixel 0 0 0 0), hdr, []) N) = hdr @ ops"
    by blast
  have lb: "length (hdr @ ops) \<le> 14 + 6 * N"
    using view_after_length [of "qoi_pixel_at (int 3) P" N
        "(0, Pixel 0 0 0 255, replicate 64 (Pixel 0 0 0 0), hdr, [])" N]
    unfolding v by (simp add: view_out_def hdr_def)
  define rest where "rest = ops @ qoi_trailer"
  have e: "koi_write_qoi_to_func False 0 16777217 1 3 P = Some (Inr (hdr @ rest))"
    using enc v by (simp add: N_def hdr_def rest_def)
  have r8: "8 \<le> length rest" by (simp add: rest_def qoi_trailer_def)
  have le: "int (length (hdr @ rest)) = 14 + int (length rest)" by (simp add: hdr_def)
  have small: "int (length (hdr @ rest)) \<le> INT_MAX"
    using lb by (simp add: rest_def qoi_trailer_def INT_MAX_def N_def)
  let ?s = "koi__start_mem (koi__context_new ()) (hdr @ rest) (14 + int (length rest))"
  have ms: "mem_stream ?s (hdr @ rest)" "img_buffer ?s = 0"
    using start_mem_stream(1) [of "koi__context_new ()" "hdr @ rest"] le
    by (simp_all add: start_mem_stream)
  have big: "16777216 < uint (word_of_int 16777217 :: 32 word) \<or> 16777216 < uint (word_of_int 1 :: 32 word)"
    by simp
  have c3: "(word_of_int 3 :: koi_uc) = 3 \<or> (word_of_int 3 :: koi_uc) = 4" by simp
  have cs0: "(0 :: koi_uc) = 0 \<or> (0 :: koi_uc) = 1" by simp
  have q: "koi__qoi_load (\<lambda>n. Some (replicate n 0)) ?s 0 0 (Some 0) 3 = Some (Inl Too_large, 0, 0, Some 0)"
    using qoi_load_mem_any(3) [OF ms [unfolded hdr_def] c3 cs0 big,
        where m = "\<lambda>n. Some (replicate n 0)" and x = 0 and y = 0 and n = "Some 0" and req_comp = 3]
    by (simp add: hdr_def)
  have "koi_load_from_memory False (\<lambda>n. Some (replicate n 0)) (hdr @ rest) (int (length (hdr @ rest)))
          0 0 (Some 0) 3 = Some (Inl Too_large, 0, 0, Some 0)"
    unfolding le koi_load_from_memory_def koi__load_and_postprocess_8bit_def
    using load_main_mem [OF r8, of "\<lambda>n. Some (replicate n 0)" "koi__context_new ()"
        "word_of_int 16777217" "word_of_int 1" "word_of_int 3" 0 0 0 "Some 0" 3] q
    by (simp add: hdr_def)
  then show ?thesis using e small unfolding P_def by blast
qed

text \<open>
  Claim C6, with the count of the bytes it lists.  The 1 by 1 image of 3 channels with the
  pixel \<open>(12, 34, 56)\<close>, flip off and colour space 0, is encoded as 26 bytes: \<open>q o i f\<close>,
  \<open>00 00 00 01\<close>, \<open>00 00 00 01\<close>, \<open>03\<close>, \<open>00\<close>, the RGB op \<open>FE 0C 22 38\<close> and the trailer
  \<open>00 00 00 00 00 00 00 01\<close>.  Decoding these bytes, flip off, with \<^verbatim>\<open>desired_channels\<close> 3 or
  0 and an allocator that returns the 3 bytes asked for, returns the pixel \<open>(12, 34, 56)\<close>
  with width 1, height 1 and 3 channels in the file.
\<close>

theorem single_pixel_rgb:
  assumes "m 3 = Some buf0" and "length buf0 = 3"
  shows "koi_write_qoi_to_func False 0 1 1 3 [12, 34, 56] =
           Some (Inr [0x71, 0x6f, 0x69, 0x66, 0, 0, 0, 1, 0, 0, 0, 1, 3, 0, 0xFE, 0x0C, 0x22, 0x38,
                      0, 0, 0, 0, 0, 0, 0, 1])
       \<and> length [0x71, 0x6f, 0x69, 0x66, 0, 0, 0, 1, 0, 0, 0, 1, 3, 0, 0xFE, 0x0C, 0x22, 0x38,
                 0, 0, 0, 0, 0, 0, 0, 1 :: koi_uc] = 26
       \<and> koi_load_from_memory False m
            [0x71, 0x6f, 0x69, 0x66, 0, 0, 0, 1, 0, 0, 0, 1, 3, 0, 0xFE, 0x0C, 0x22, 0x38,
             0, 0, 0, 0, 0, 0, 0, 1] 26 x y n 3
           = Some (Inr [12, 34, 56], 1, 1, map_option (\<lambda>_. 3) n)
       \<and> koi_load_from_memory False m
            [0x71, 0x6f, 0x69, 0x66, 0, 0, 0, 1, 0, 0, 0, 1, 3, 0, 0xFE, 0x0C, 0x22, 0x38,
             0, 0, 0, 0, 0, 0, 0, 1] 26 x y n 0
           = Some (Inr [12, 34, 56], 1, 1, map_option (\<lambda>_. 3) n)"
proof -
  have a: "(3 :: int) = 3 \<or> (3 :: int) = 4" "(1 :: int) \<le> 1" "(1 :: int) \<le> 16777216"
    "(3 :: int) * 1 * 1 \<le> INT_MAX" "length [12, 34, 56 :: koi_uc] = nat (1 * 1 * 3)"
    "m (nat (3 * 1 * 1)) = Some buf0" "length buf0 = nat (3 * 1 * 1)"
    using assms by (simp_all add: INT_MAX_def)
  have r3: "(3 :: int) = 0 \<or> (3 :: int) = 3" and r0: "(0 :: int) = 0 \<or> (0 :: int) = 3" by simp_all
  note d3 = decode_of_encode [where m = m and cs = 0 and x = x and y = y and n = n and r = 3,
      OF a(1,2,3,2,3,4,5,6,7) r3]
  note d0 = decode_of_encode [where m = m and cs = 0 and x = x and y = y and n = n and r = 0,
      OF a(1,2,3,2,3,4,5,6,7) r0]
  show ?thesis using d3 d0 enc_6 by simp
qed

text \<open>The theorem with an allocator that returns zeros.\<close>

theorem single_pixel_rgb_witness:
  "koi_load_from_memory False (\<lambda>n. Some (replicate n 0))
       [0x71, 0x6f, 0x69, 0x66, 0, 0, 0, 1, 0, 0, 0, 1, 3, 0, 0xFE, 0x0C, 0x22, 0x38,
        0, 0, 0, 0, 0, 0, 0, 1] 26 0 0 (Some 0) 3
     = Some (Inr [12, 34, 56], 1, 1, Some 3)
   \<and> koi_load_from_memory False (\<lambda>n. Some (replicate n 0))
       [0x71, 0x6f, 0x69, 0x66, 0, 0, 0, 1, 0, 0, 0, 1, 3, 0, 0xFE, 0x0C, 0x22, 0x38,
        0, 0, 0, 0, 0, 0, 0, 1] 26 0 0 None 0
     = Some (Inr [12, 34, 56], 1, 1, None)"
  using single_pixel_rgb [where m = "\<lambda>n. Some (replicate n 0)" and ?buf0.0 = "replicate 3 0"
      and x = 0 and y = 0 and n = "Some 0"]
    single_pixel_rgb [where m = "\<lambda>n. Some (replicate n 0)" and ?buf0.0 = "replicate 3 0"
      and x = 0 and y = 0 and n = None]
  by simp

text \<open>The stream of the claim's image has 26 bytes, not 22.\<close>

theorem single_pixel_length_counterexample:
  "\<exists>bs. koi_write_qoi_to_func False 0 1 1 3 [12, 34, 56] = Some (Inr bs)
      \<and> length bs = 26 \<and> length bs \<noteq> 22"
  using enc_6 by simp

section \<open>Widening to 16 bits (C8)\<close>

lemma fold_update_upt:
  assumes "n \<le> length e0"
  shows "length (fold (\<lambda>i e. e[i := f i]) [0..<n] e0) = length e0
       \<and> (\<forall>i<n. fold (\<lambda>i e. e[i := f i]) [0..<n] e0 ! i = f i)"
  using assms
proof (induction n)
  case 0
  then show ?case by simp
next
  case (Suc n)
  then show ?case
    by (auto simp add: nth_list_update less_Suc_eq)
qed

lemma promote_value:
  fixes v :: "8 word"
  shows "unat (word_of_int (push_bit 8 (uint v) + uint v) :: 16 word) = 257 * unat v"
proof -
  have "unat v < 256" using unsigned_less [of v, where ?'a = nat] by simp
  then have b: "257 * unat v < 65536" by simp
  have "push_bit 8 (uint v) + uint v = int (257 * unat v)"
    by (simp add: push_bit_eq_mult)
  then have "(word_of_int (push_bit 8 (uint v) + uint v) :: 16 word) = word_of_nat (257 * unat v)"
    by (simp only: of_int_of_nat_eq)
  then show ?thesis using b by (simp add: unat_of_nat take_bit_nat_eq_self del: of_nat_mult)
qed

lemma promote_or:
  fixes v :: "8 word"
  shows "(word_of_int (push_bit 8 (uint v) + uint v) :: 16 word) = push_bit 8 (ucast v) OR ucast v"
proof -
  have "(push_bit 8 (ucast v) + ucast v :: 16 word) = push_bit 8 (ucast v) OR ucast v"
    by (rule disjunctive_add) (auto simp add: bit_simps dest: bit_imp_le_length)
  moreover have "(word_of_int (push_bit 8 (uint v) + uint v) :: 16 word) = push_bit 8 (ucast v) + ucast v"
    by (simp add: push_bit_eq_mult)
  ultimately show ?thesis by simp
qed

lemma convert_8_to_16_total:
  assumes "0 \<le> w * h * channels" "w * h * channels * 2 \<le> INT_MAX"
    "w * h * channels \<le> int (length orig)"
    "m16 (nat (w * h * channels * 2)) = Some e0" "int (length e0) = w * h * channels"
  shows "koi__convert_8_to_16 m16 orig w h channels =
     Some (Inr (fold (\<lambda>i e. e[i := word_of_int (push_bit 8 (uint (orig ! i)) + uint (orig ! i))])
                  [0..<nat (w * h * channels)] e0))"
  using assms by (simp add: koi__convert_8_to_16_def Let_def)

text \<open>
  Claim C8.  \<^verbatim>\<open>koi__convert_8_to_16\<close> on a block \<open>orig\<close> of at least \<^verbatim>\<open>w * h * channels\<close>
  bytes, that product not negative and its double within \<^verbatim>\<open>int\<close>, with an allocator that
  returns the \<^verbatim>\<open>w * h * channels\<close> 16-bit cells asked for: it returns a block of that many
  components, and every one of them is its 8-bit source \<open>v\<close> mapped to \<^verbatim>\<open>(v << 8) | v\<close>,
  which is \<open>257 * v\<close>.  This block, flipped when the setting is on, is what
  \<^verbatim>\<open>koi__load_and_postprocess_16bit\<close> returns when the loader has produced \<open>orig\<close> with
  the sizes \<open>w\<close> and \<open>h\<close> and \<open>channels\<close> is \<^verbatim>\<open>req_comp\<close>, or \<^verbatim>\<open>*comp\<close> when that is 0.
\<close>

theorem promotion_8_to_16:
  assumes "0 \<le> w * h * channels" and "w * h * channels * 2 \<le> INT_MAX"
    and "w * h * channels \<le> int (length orig)"
    and "m16 (nat (w * h * channels * 2)) = Some e0" and "int (length e0) = w * h * channels"
  shows "\<exists>enlarged.
           koi__convert_8_to_16 m16 orig w h channels = Some (Inr enlarged)
         \<and> length enlarged = nat (w * h * channels)
         \<and> (\<forall>i<nat (w * h * channels).
               enlarged ! i = push_bit 8 (ucast (orig ! i)) OR ucast (orig ! i)
             \<and> unat (enlarged ! i) = 257 * unat (orig ! i))
         \<and> (koi__load_main m s x y n req_comp = Some (Inr orig, w, h, n1)
              \<and> (if req_comp = 0 then n1 else Some req_comp) = Some channels \<longrightarrow>
            koi__load_and_postprocess_16bit flip m m16 s x y n req_comp =
              Some (Inr (if flip then koi__vertical_flip 1024 enlarged w h channels else enlarged),
                    w, h, n1))"
proof -
  let ?n = "nat (w * h * channels)"
  let ?f = "\<lambda>i. (word_of_int (push_bit 8 (uint (orig ! i)) + uint (orig ! i)) :: 16 word)"
  define enlarged where "enlarged = fold (\<lambda>i e. e[i := ?f i]) [0..<?n] e0"
  have cv: "koi__convert_8_to_16 m16 orig w h channels = Some (Inr enlarged)"
    unfolding enlarged_def using assms by (rule convert_8_to_16_total)
  have le: "?n \<le> length e0" using assms(5) by simp
  have l0: "length e0 = ?n" using assms(5) by simp
  note fu = fold_update_upt [OF le, of ?f, folded enlarged_def]
  have len: "length enlarged = ?n" using fu l0 by (simp only:)
  have val: "enlarged ! i = ?f i" if "i < ?n" for i using fu that by blast
  have vals: "\<forall>i<?n. enlarged ! i = push_bit 8 (ucast (orig ! i)) OR ucast (orig ! i)
             \<and> unat (enlarged ! i) = 257 * unat (orig ! i)"
  proof (intro allI impI conjI)
    fix i assume i: "i < ?n"
    show "enlarged ! i = push_bit 8 (ucast (orig ! i)) OR ucast (orig ! i)"
      unfolding val [OF i] by (rule promote_or)
    show "unat (enlarged ! i) = 257 * unat (orig ! i)"
      unfolding val [OF i] by (rule promote_value)
  qed
  have lp: "koi__load_main m s x y n req_comp = Some (Inr orig, w, h, n1)
              \<and> (if req_comp = 0 then n1 else Some req_comp) = Some channels \<longrightarrow>
            koi__load_and_postprocess_16bit flip m m16 s x y n req_comp =
              Some (Inr (if flip then koi__vertical_flip 1024 enlarged w h channels else enlarged),
                    w, h, n1)"
    using cv by (auto simp add: koi__load_and_postprocess_16bit_def)
  show ?thesis
    using cv len vals lp by blast
qed

text \<open>
  The theorem at the three components 12, 34 and 56 that the loader decodes from the
  stream of the 1 by 1 image, through \<^verbatim>\<open>koi_load_16_from_memory\<close>.
\<close>

theorem promotion_8_to_16_witness:
  "\<exists>enlarged.
     koi__convert_8_to_16 (\<lambda>n. Some (replicate (n div 2) 7)) [12, 34, 56] 1 1 3 = Some (Inr enlarged)
   \<and> length enlarged = 3
   \<and> unat (enlarged ! 0) = 3084 \<and> unat (enlarged ! 1) = 8738 \<and> unat (enlarged ! 2) = 14392
   \<and> koi_load_16_from_memory False (\<lambda>n. Some (replicate n 0)) (\<lambda>n. Some (replicate (n div 2) 7))
        [0x71, 0x6f, 0x69, 0x66, 0, 0, 0, 1, 0, 0, 0, 1, 3, 0, 0xFE, 0x0C, 0x22, 0x38,
         0, 0, 0, 0, 0, 0, 0, 1] 26 0 0 (Some 0) 3
       = Some (Inr enlarged, 1, 1, Some 3)"
proof -
  let ?bs = "[0x71, 0x6f, 0x69, 0x66, 0, 0, 0, 1, 0, 0, 0, 1, 3, 0, 0xFE, 0x0C, 0x22, 0x38,
              0, 0, 0, 0, 0, 0, 0, 1] :: koi_uc list"
  let ?m = "\<lambda>n :: nat. Some (replicate n (0 :: koi_uc))"
  let ?s = "koi__start_mem (koi__context_new ()) ?bs 26"
  have a: "(3 :: int) = 3 \<or> (3 :: int) = 4" "(1 :: int) \<le> 1" "(1 :: int) \<le> 16777216"
    "(3 :: int) * 1 * 1 \<le> INT_MAX" "length [12, 34, 56 :: koi_uc] = nat (1 * 1 * 3)"
    "?m (nat (3 * 1 * 1)) = Some (replicate 3 0)" "length (replicate 3 (0 :: koi_uc)) = nat (3 * 1 * 1)"
    "(3 :: int) = 0 \<or> (3 :: int) = 3"
    by (simp_all add: INT_MAX_def)
  have lm: "koi__load_main ?m ?s 0 0 (Some 0) 3 = Some (Inr [12, 34, 56], 1, 1, Some 3)"
    using load_main_of_encode [where m = ?m and cs = 0 and x = 0 and y = 0 and n = "Some 0" and r = 3,
        OF a(1,2,3,2,3,4,5,6,7,8)] enc_6
    by simp
  have "\<exists>enlarged.
     koi__convert_8_to_16 (\<lambda>n. Some (replicate (n div 2) 7)) [12, 34, 56] 1 1 3 = Some (Inr enlarged)
   \<and> length enlarged = 3
   \<and> (\<forall>i<3. unat (enlarged ! i) = 257 * unat ([12, 34, 56 :: koi_uc] ! i))
   \<and> koi__load_and_postprocess_16bit False ?m (\<lambda>n. Some (replicate (n div 2) 7)) ?s 0 0 (Some 0) 3
       = Some (Inr enlarged, 1, 1, Some 3)"
    using promotion_8_to_16 [where w = 1 and h = 1 and channels = 3 and orig = "[12, 34, 56]"
      and ?m16.0 = "\<lambda>n. Some (replicate (n div 2) 7)" and ?e0.0 = "replicate 3 7"
      and m = ?m and s = ?s and x = 0 and y = 0 and n = "Some 0"
      and req_comp = 3 and ?n1.0 = "Some 3" and flip = False] lm
    by (simp add: INT_MAX_def) blast
  then obtain enlarged where e:
    "koi__convert_8_to_16 (\<lambda>n. Some (replicate (n div 2) 7)) [12, 34, 56] 1 1 3 = Some (Inr enlarged)"
    "length enlarged = 3"
    "\<forall>i<3. unat (enlarged ! i) = 257 * unat ([12, 34, 56 :: koi_uc] ! i)"
    "koi__load_and_postprocess_16bit False ?m (\<lambda>n. Some (replicate (n div 2) 7)) ?s 0 0 (Some 0) 3
       = Some (Inr enlarged, 1, 1, Some 3)"
    by blast
  have v: "unat (enlarged ! 0) = 3084" "unat (enlarged ! 1) = 8738" "unat (enlarged ! 2) = 14392"
    using e(3) [rule_format, of 0] e(3) [rule_format, of 1] e(3) [rule_format, of 2] by simp_all
  have l: "koi_load_16_from_memory False ?m (\<lambda>n. Some (replicate (n div 2) 7)) ?bs 26 0 0 (Some 0) 3
       = Some (Inr enlarged, 1, 1, Some 3)"
    using e(4) by (simp add: koi_load_16_from_memory_def)
  show ?thesis using e(1,2) v l by blast
qed

end
